(* ===== verification/Execell_Prelude.thy ===== *)
theory Execell_Prelude
  imports Main "HOL-Library.Word" "HOL-Library.Sublist" "HOL-Library.AList"
begin

unbundle bit_operations_syntax

text \<open>
  Shared vocabulary of the development: the C and C++ integer conversions the sources use,
  the \<^verbatim>\<open>std::string\<close> / \<^verbatim>\<open>std::string_view\<close> operations they call
  (\<^verbatim>\<open>find\<close>, \<^verbatim>\<open>starts_with\<close>, \<^verbatim>\<open>ends_with\<close>, \<^verbatim>\<open>substr\<close>,
  \<^verbatim>\<open>std::to_string\<close>, \<^verbatim>\<open>std::from_chars\<close>), the loop shape
  ``walk over the components between separators'' that three files repeat, and the lemmas the
  component theories use about them.

  Conventions: a C \<^verbatim>\<open>int\<close> or \<^verbatim>\<open>pid_t\<close> is an \<^typ>\<open>int\<close> (the conversions below
  produce values of the 32-bit range), an unsigned machine integer is a word of its width, a
  \<^verbatim>\<open>std::string\<close> is a \<^typ>\<open>string\<close> of bytes, \<^verbatim>\<open>npos\<close> is \<^term>\<open>None\<close>, and
  \<^verbatim>\<open>std::expected<T, std::string>\<close> is \<^typ>\<open>string + 'a\<close> with \<^term>\<open>Inl\<close> for the error.
\<close>

named_theorems cxx_simps \<open>rewriting of the C++ string and integer operations\<close>

type_synonym pid = int
type_synonym fd = int
type_synonym 'a expected = "string + 'a"

section \<open>Integer conversions\<close>

text \<open>\<^verbatim>\<open>static_cast<int>\<close>, \<^verbatim>\<open>static_cast<unsigned>\<close> and \<^verbatim>\<open>static_cast<long>\<close> of a
  64-bit register, and \<^verbatim>\<open>static_cast<unsigned>\<close> of an \<^verbatim>\<open>int\<close>.\<close>

definition to_int :: "64 word \<Rightarrow> int" where
  "to_int w = sint (ucast w :: 32 word)"

definition to_unsigned :: "64 word \<Rightarrow> 32 word" where
  "to_unsigned w = ucast w"

definition to_long :: "64 word \<Rightarrow> int" where
  "to_long w = sint w"

definition int_to_unsigned :: "int \<Rightarrow> 32 word" where
  "int_to_unsigned i = word_of_int i"

definition long_to_int :: "int \<Rightarrow> int" where
  "long_to_int i = sint (word_of_int i :: 32 word)"

lemma sint32_range: "- (2 ^ 31) \<le> sint (w :: 32 word)" "sint (w :: 32 word) < 2 ^ 31"
  using sint_greater_eq [of w] sint_less [of w] by simp_all

lemma to_int_range: "- (2 ^ 31) \<le> to_int w \<and> to_int w < 2 ^ 31"
  using sint32_range [of "ucast w"] by (simp add: to_int_def)

lemma long_to_int_id:
  assumes "- (2 ^ 31) \<le> i" "i < 2 ^ 31"
  shows "long_to_int i = i"
proof -
  have "long_to_int i = signed_take_bit 31 i"
    unfolding long_to_int_def sint_sbintrunc' by simp
  also have "\<dots> = i"
    using assms by (rule signed_take_bit_int_eq_self)
  finally show ?thesis .
qed

lemma long_to_int_range: "- (2 ^ 31) \<le> long_to_int i \<and> long_to_int i < 2 ^ 31"
  using sint32_range [of "word_of_int i"] by (simp add: long_to_int_def)

section \<open>Strings\<close>

subsection \<open>Prefixes, suffixes and searching\<close>

definition starts_with :: "'a list \<Rightarrow> 'a list \<Rightarrow> bool" where
  "starts_with s p \<longleftrightarrow> take (length p) s = p"

definition ends_with :: "'a list \<Rightarrow> 'a list \<Rightarrow> bool" where
  "ends_with s p \<longleftrightarrow> length p \<le> length s \<and> drop (length s - length p) s = p"

text \<open>\<^verbatim>\<open>s.find(p)\<close>: the least position at which \<open>p\<close> occurs.\<close>

fun find_str :: "'a list \<Rightarrow> 'a list \<Rightarrow> nat option" where
  "find_str p [] = (if p = [] then Some 0 else None)"
| "find_str p (c # s) =
     (if starts_with (c # s) p then Some 0 else map_option Suc (find_str p s))"

text \<open>\<^verbatim>\<open>s.find(p, pos)\<close>.\<close>

definition find_str_from :: "'a list \<Rightarrow> 'a list \<Rightarrow> nat \<Rightarrow> nat option" where
  "find_str_from p s pos =
     (if pos \<le> length s then map_option ((+) pos) (find_str p (drop pos s)) else None)"

text \<open>\<^verbatim>\<open>s.find(p) != npos\<close>.\<close>

definition contains_str :: "'a list \<Rightarrow> 'a list \<Rightarrow> bool" where
  "contains_str s p \<longleftrightarrow> find_str p s \<noteq> None"

text \<open>\<^verbatim>\<open>find\<close> of a character and \<^verbatim>\<open>find_first_of\<close>: the least position whose character
  satisfies a predicate, from the start or from a position.\<close>

fun find_if :: "('a \<Rightarrow> bool) \<Rightarrow> 'a list \<Rightarrow> nat option" where
  "find_if P [] = None"
| "find_if P (c # s) = (if P c then Some 0 else map_option Suc (find_if P s))"

definition find_if_from :: "('a \<Rightarrow> bool) \<Rightarrow> 'a list \<Rightarrow> nat \<Rightarrow> nat option" where
  "find_if_from P s pos = map_option ((+) pos) (find_if P (drop pos s))"

text \<open>\<^verbatim>\<open>s.substr(pos, n)\<close> for \<open>pos \<le> s.size()\<close>, which every caller guarantees.\<close>

definition substr :: "'a list \<Rightarrow> nat \<Rightarrow> nat \<Rightarrow> 'a list" where
  "substr s pos n = take n (drop pos s)"

lemma starts_with_iff: "starts_with s p \<longleftrightarrow> (\<exists>t. s = p @ t)"
proof
  assume "starts_with s p"
  then have "s = p @ drop (length p) s"
    unfolding starts_with_def by (metis append_take_drop_id)
  then show "\<exists>t. s = p @ t" ..
qed (auto simp: starts_with_def)

lemma starts_with_prefix: "starts_with s p \<longleftrightarrow> prefix p s"
  by (auto simp: starts_with_iff prefix_def)

lemma starts_with_simps [simp]:
  "starts_with s []"
  "starts_with [] (c # p) \<longleftrightarrow> False"
  "starts_with (x # s) (c # p) \<longleftrightarrow> x = c \<and> starts_with s p"
  by (auto simp: starts_with_def)

lemma starts_with_trans:
  "starts_with s p \<Longrightarrow> starts_with p q \<Longrightarrow> starts_with s q"
  by (auto simp: starts_with_iff)

lemma ends_with_iff: "ends_with s p \<longleftrightarrow> (\<exists>t. s = t @ p)"
proof
  assume "ends_with s p"
  then have "s = take (length s - length p) s @ p"
    unfolding ends_with_def by (metis append_take_drop_id)
  then show "\<exists>t. s = t @ p" ..
qed (auto simp: ends_with_def)

lemma find_str_Some:
  "find_str p s = Some i \<Longrightarrow> i \<le> length s \<and> starts_with (drop i s) p"
  by (induction s arbitrary: i) (auto split: if_splits)

lemma find_str_None: "find_str p s = None \<longleftrightarrow> \<not> sublist p s"
  by (induction s) (auto simp: sublist_Cons_right starts_with_prefix)

lemma contains_str_iff: "contains_str s p \<longleftrightarrow> sublist p s"
  by (simp add: contains_str_def find_str_None)

lemma find_if_None: "find_if P s = None \<longleftrightarrow> (\<forall>c \<in> set s. \<not> P c)"
  by (induction s) auto

lemma find_if_Some:
  "find_if P s = Some i \<Longrightarrow>
     i < length s \<and> P (s ! i) \<and> (\<forall>c \<in> set (take i s). \<not> P c)"
  by (induction s arbitrary: i) (auto split: if_splits)

lemma find_if_Some_take: "find_if P s = Some i \<Longrightarrow> take i s = takeWhile (\<lambda>c. \<not> P c) s"
  by (induction s arbitrary: i) (auto split: if_splits)

lemma find_str_from_bounds:
  assumes "find_str_from p s pos = Some i"
  shows "pos \<le> i" "i + length p \<le> length s"
proof -
  from assms obtain j where i: "i = pos + j" "pos \<le> length s" "find_str p (drop pos s) = Some j"
    by (auto simp: find_str_from_def split: if_splits)
  from find_str_Some [OF i(3)] have j: "j \<le> length (drop pos s)" "take (length p) (drop j (drop pos s)) = p"
    by (simp_all add: starts_with_def)
  from j(2) have "length p \<le> length (drop j (drop pos s))" by (metis length_take min.cobounded1 min.commute)
  with i j(1) show "pos \<le> i" "i + length p \<le> length s" by auto
qed

lemma find_if_from_bounds:
  "find_if_from P s pos = Some e \<Longrightarrow> pos \<le> e \<and> e < length s"
  by (auto simp: find_if_from_def dest!: find_if_Some)

lemma length_takeWhile_less_if: "x \<in> set xs \<Longrightarrow> \<not> P x \<Longrightarrow> length (takeWhile P xs) < length xs"
  by (induction xs) auto

subsection \<open>Splitting at a separator\<close>

text \<open>The components of a string between occurrences of a separator, and their inverse.\<close>

fun split_on :: "'a \<Rightarrow> 'a list \<Rightarrow> 'a list list" where
  "split_on sep [] = [[]]"
| "split_on sep (c # s) =
     (if c = sep then [] # split_on sep s
      else (c # hd (split_on sep s)) # tl (split_on sep s))"

fun join_with :: "'a \<Rightarrow> 'a list list \<Rightarrow> 'a list" where
  "join_with sep [] = []"
| "join_with sep [c] = c"
| "join_with sep (c # d # cs) = c @ sep # join_with sep (d # cs)"

lemma split_on_nonempty [simp]: "split_on sep s \<noteq> []"
  by (cases s) auto

lemma join_with_Cons: "cs \<noteq> [] \<Longrightarrow> join_with sep (c # cs) = c @ sep # join_with sep cs"
  by (cases cs) auto

lemma join_with_hd_Cons:
  "cs \<noteq> [] \<Longrightarrow> join_with sep ((x # hd cs) # tl cs) = x # join_with sep cs"
  by (cases cs; cases "tl cs") auto

lemma join_split [simp]: "join_with sep (split_on sep s) = s"
  by (induction s) (auto simp: join_with_Cons join_with_hd_Cons)

lemma split_on_no_sep: "sep \<notin> set c \<Longrightarrow> split_on sep (c @ s) = (c @ hd (split_on sep s)) # tl (split_on sep s)"
  by (induction c) auto

lemma split_on_single: "sep \<notin> set c \<Longrightarrow> split_on sep c = [c]"
  using split_on_no_sep [of sep c "[]"] by simp

lemma split_on_append_sep: "sep \<notin> set c \<Longrightarrow> split_on sep (c @ sep # s) = c # split_on sep s"
  by (simp add: split_on_no_sep)

lemma split_join:
  "cs \<noteq> [] \<Longrightarrow> \<forall>c \<in> set cs. sep \<notin> set c \<Longrightarrow> split_on sep (join_with sep cs) = cs"
  by (induction sep cs rule: join_with.induct) (auto simp: split_on_single split_on_append_sep)

lemma split_on_components: "c \<in> set (split_on sep s) \<Longrightarrow> sep \<notin> set c"
proof (induction s arbitrary: c)
  case Nil
  then show ?case by simp
next
  case (Cons x s)
  have "hd (split_on sep s) \<in> set (split_on sep s)" by simp
  moreover have "d \<in> set (tl (split_on sep s)) \<Longrightarrow> d \<in> set (split_on sep s)" for d
    by (meson list.set_sel(2) split_on_nonempty)
  ultimately show ?case using Cons by (auto split: if_splits)
qed

lemma split_on_find:
  "split_on sep s = (case find_if ((=) sep) s of
     None \<Rightarrow> [s] | Some i \<Rightarrow> take i s # split_on sep (drop (Suc i) s))"
  by (induction s) (auto simp: split_on_single split: option.splits)

text \<open>
  The loop the sources write as
  \<^verbatim>\<open>while (begin <= s.size()) { end = s.find(sep, begin); component = s.substr(...);
  if (hit(component)) return ...; if (end == npos) break; begin = end + 1; }\<close>:
  does some component satisfy \<open>hit\<close>?
\<close>

function scan_components :: "'a \<Rightarrow> ('a list \<Rightarrow> bool) \<Rightarrow> 'a list \<Rightarrow> nat \<Rightarrow> bool" where
  "scan_components sep hit s begin =
     (if begin \<le> length s then
        (let end = find_if_from ((=) sep) s begin;
             component = substr s begin
               (case end of None \<Rightarrow> length s - begin | Some e \<Rightarrow> e - begin)
         in if hit component then True
            else (case end of None \<Rightarrow> False | Some e \<Rightarrow> scan_components sep hit s (e + 1)))
      else False)"
  by pat_completeness auto
termination
  by (relation "measure (\<lambda>(sep, hit, s, begin). Suc (length s) - begin)")
    (auto simp: find_if_from_def dest!: sym [of "Some _"] find_if_Some)

declare scan_components.simps [simp del]

lemma scan_components_iff:
  "begin \<le> length s \<Longrightarrow>
     scan_components sep hit s begin \<longleftrightarrow> (\<exists>c \<in> set (split_on sep (drop begin s)). hit c)"
proof (induction sep hit s "begin" rule: scan_components.induct)
  case (1 sep hit s "begin")
  show ?case
  proof (cases "find_if ((=) sep) (drop begin s)")
    case None
    with 1(2) show ?thesis
      by (subst scan_components.simps, subst split_on_find)
        (simp add: find_if_from_def substr_def)
  next
    case (Some i)
    then have i: "i < length (drop begin s)" by (blast dest: find_if_Some)
    then have le: "begin + i + 1 \<le> length s" by simp
    have IH: "\<not> hit (take i (drop begin s)) \<Longrightarrow>
        scan_components sep hit s (begin + i + 1) \<longleftrightarrow>
        (\<exists>c \<in> set (split_on sep (drop (begin + i + 1) s)). hit c)"
      using 1(1) [OF 1(2)] Some le by (simp add: find_if_from_def substr_def)
    from Some IH 1(2) show ?thesis
      by (subst scan_components.simps, subst split_on_find)
        (auto simp: find_if_from_def substr_def add.commute)
  qed
qed

lemma scan_components_split:
  "scan_components sep hit s 0 \<longleftrightarrow> (\<exists>c \<in> set (split_on sep s). hit c)"
  using scan_components_iff [of 0 s sep hit] by simp

subsection \<open>Decimal numerals\<close>

definition digit_char :: "nat \<Rightarrow> char" where
  "digit_char d = char_of (48 + d)"

definition is_digit :: "char \<Rightarrow> bool" where
  "is_digit c \<longleftrightarrow> 48 \<le> (of_char c :: nat) \<and> (of_char c :: nat) \<le> 57"

text \<open>\<^verbatim>\<open>std::isspace\<close> in the C locale, which \<^verbatim>\<open>operator>>\<close> skips.\<close>

definition is_space :: "char \<Rightarrow> bool" where
  "is_space c \<longleftrightarrow> c = CHR '' '' \<or> 9 \<le> (of_char c :: nat) \<and> (of_char c :: nat) \<le> 13"

text \<open>\<^verbatim>\<open>std::to_string\<close> and \<^verbatim>\<open>operator<<\<close> in decimal.\<close>

fun dec_nat :: "nat \<Rightarrow> string" where
  "dec_nat n = (if n < 10 then [digit_char n] else dec_nat (n div 10) @ [digit_char (n mod 10)])"

declare dec_nat.simps [simp del]

definition dec_int :: "int \<Rightarrow> string" where
  "dec_int i = (if i < 0 then CHR ''-'' # dec_nat (nat (- i)) else dec_nat (nat i))"

definition dec_word :: "'a::len word \<Rightarrow> string" where
  "dec_word w = dec_nat (unat w)"

text \<open>The value a run of digits denotes.\<close>

definition digits_value :: "string \<Rightarrow> nat" where
  "digits_value = foldl (\<lambda>n c. n * 10 + (of_char c - 48)) 0"

lemma is_digit_digit_char: "d < 10 \<Longrightarrow> is_digit (digit_char d)"
  by (simp add: is_digit_def digit_char_def)

lemma digits_value_append: "digits_value (s @ [c]) = digits_value s * 10 + (of_char c - 48)"
  by (simp add: digits_value_def)

lemma dec_nat_nonempty [simp]: "dec_nat n \<noteq> []"
  by (subst dec_nat.simps) simp

lemma dec_nat_digits: "c \<in> set (dec_nat n) \<Longrightarrow> is_digit c"
proof (induction n rule: dec_nat.induct)
  case (1 n)
  then show ?case
    by (subst (asm) dec_nat.simps) (auto simp: is_digit_digit_char split: if_splits)
qed

lemma digits_value_dec_nat [simp]: "digits_value (dec_nat n) = n"
proof (induction n rule: dec_nat.induct)
  case (1 n)
  show ?case
  proof (cases "n < 10")
    case True
    then show ?thesis
      by (subst dec_nat.simps) (simp add: digits_value_def digit_char_def)
  next
    case False
    with 1 have "digits_value (dec_nat (n div 10)) = n div 10" by simp
    moreover have "of_char (digit_char (n mod 10)) - (48::nat) = n mod 10"
      by (simp add: digit_char_def)
    ultimately show ?thesis
      using False by (subst dec_nat.simps) (simp add: digits_value_append)
  qed
qed

lemma dec_nat_inject [simp]: "dec_nat m = dec_nat n \<longleftrightarrow> m = n"
  by (metis digits_value_dec_nat)

lemma dec_word_inject [simp]: "dec_word v = dec_word w \<longleftrightarrow> v = w"
  by (simp add: dec_word_def word_unat_eq_iff)

lemma slash_not_digit [simp]: "\<not> is_digit CHR ''/''"
  by (simp add: is_digit_def)

lemma dec_nat_no_char: "\<not> is_digit c \<Longrightarrow> c \<notin> set (dec_nat n)"
  using dec_nat_digits by blast

lemma dec_int_no_char: "\<not> is_digit c \<Longrightarrow> c \<noteq> CHR ''-'' \<Longrightarrow> c \<notin> set (dec_int i)"
  by (simp add: dec_int_def dec_nat_no_char)

lemma dec_int_nonempty [simp]: "dec_int i \<noteq> []"
  by (simp add: dec_int_def)

end
