(* ===== verification/Event_Model.thy ===== *)
theory Event_Model
  imports Execell_Prelude
begin

text \<open>
  The events the tracer reports (\<^verbatim>\<open>include/execell/event/event.hpp\<close>) and the reporter
  interface every consumer of events implements
  (\<^verbatim>\<open>include/execell/report/reporter.hpp\<close>).

  \<^verbatim>\<open>event::Event\<close> is a \<^verbatim>\<open>std::variant\<close> of twenty structs; each alternative is a
  constructor whose arguments are the struct's fields in declaration order, the
  \<^verbatim>\<open>EventContext\<close> last. The generic lambdas the sources pass to \<^verbatim>\<open>std::visit\<close> select
  on the presence of a field (\<^verbatim>\<open>requires { value.path; }\<close>): those tests are the
  option-valued field functions below.
\<close>

section \<open>Events\<close>

record event_context =
  ctx_pid :: int
  ctx_sequence :: "64 word"

definition empty_context :: event_context where
  "empty_context = \<lparr>ctx_pid = 0, ctx_sequence = 0\<rparr>"

datatype event =
    FileOpened int string event_context
  | FileRead int string "64 word" event_context
  | FileWritten int string "64 word" event_context
  | FileClosed int string event_context
  | FileDeleted string event_context
  | FileRenamed string string event_context
  | DirectoryCreated string event_context
  | FileModeChanged string "32 word" event_context
  | SocketCreated int int int int event_context
  | NetworkConnected int string event_context
  | NetworkBound int string event_context
  | NetworkListening int int event_context
  | NetworkAccepted int string event_context
  | SyscallFailed int string int event_context
  | TraceStarted int event_context
  | TraceFinished int int bool event_context
  | PolicyViolation string string event_context
  | ProcessSpawned int int event_context
  | ProcessExec int string event_context
  | ProcessExited int int bool event_context

text \<open>\<^verbatim>\<open>value.context\<close>, read and assigned.\<close>

fun context_of :: "event \<Rightarrow> event_context" where
  "context_of (FileOpened _ _ c) = c"
| "context_of (FileRead _ _ _ c) = c"
| "context_of (FileWritten _ _ _ c) = c"
| "context_of (FileClosed _ _ c) = c"
| "context_of (FileDeleted _ c) = c"
| "context_of (FileRenamed _ _ c) = c"
| "context_of (DirectoryCreated _ c) = c"
| "context_of (FileModeChanged _ _ c) = c"
| "context_of (SocketCreated _ _ _ _ c) = c"
| "context_of (NetworkConnected _ _ c) = c"
| "context_of (NetworkBound _ _ c) = c"
| "context_of (NetworkListening _ _ c) = c"
| "context_of (NetworkAccepted _ _ c) = c"
| "context_of (SyscallFailed _ _ _ c) = c"
| "context_of (TraceStarted _ c) = c"
| "context_of (TraceFinished _ _ _ c) = c"
| "context_of (PolicyViolation _ _ c) = c"
| "context_of (ProcessSpawned _ _ c) = c"
| "context_of (ProcessExec _ _ c) = c"
| "context_of (ProcessExited _ _ _ c) = c"

fun with_context :: "event_context \<Rightarrow> event \<Rightarrow> event" where
  "with_context c (FileOpened a b _) = FileOpened a b c"
| "with_context c (FileRead a b d _) = FileRead a b d c"
| "with_context c (FileWritten a b d _) = FileWritten a b d c"
| "with_context c (FileClosed a b _) = FileClosed a b c"
| "with_context c (FileDeleted a _) = FileDeleted a c"
| "with_context c (FileRenamed a b _) = FileRenamed a b c"
| "with_context c (DirectoryCreated a _) = DirectoryCreated a c"
| "with_context c (FileModeChanged a b _) = FileModeChanged a b c"
| "with_context c (SocketCreated a b d e _) = SocketCreated a b d e c"
| "with_context c (NetworkConnected a b _) = NetworkConnected a b c"
| "with_context c (NetworkBound a b _) = NetworkBound a b c"
| "with_context c (NetworkListening a b _) = NetworkListening a b c"
| "with_context c (NetworkAccepted a b _) = NetworkAccepted a b c"
| "with_context c (SyscallFailed a b d _) = SyscallFailed a b d c"
| "with_context c (TraceStarted a _) = TraceStarted a c"
| "with_context c (TraceFinished a b d _) = TraceFinished a b d c"
| "with_context c (PolicyViolation a b _) = PolicyViolation a b c"
| "with_context c (ProcessSpawned a b _) = ProcessSpawned a b c"
| "with_context c (ProcessExec a b _) = ProcessExec a b c"
| "with_context c (ProcessExited a b d _) = ProcessExited a b d c"

text \<open>The optional fields: \<^term>\<open>None\<close> where the struct has no such member.\<close>

fun path_of :: "event \<Rightarrow> string option" where
  "path_of (FileOpened _ p _) = Some p"
| "path_of (FileRead _ p _ _) = Some p"
| "path_of (FileWritten _ p _ _) = Some p"
| "path_of (FileClosed _ p _) = Some p"
| "path_of (FileDeleted p _) = Some p"
| "path_of (DirectoryCreated p _) = Some p"
| "path_of (FileModeChanged p _ _) = Some p"
| "path_of (ProcessExec _ p _) = Some p"
| "path_of _ = None"

fun endpoint_of :: "event \<Rightarrow> string option" where
  "endpoint_of (NetworkConnected _ e _) = Some e"
| "endpoint_of (NetworkBound _ e _) = Some e"
| "endpoint_of (NetworkAccepted _ e _) = Some e"
| "endpoint_of _ = None"

fun bytes_of :: "event \<Rightarrow> 64 word option" where
  "bytes_of (FileRead _ _ b _) = Some b"
| "bytes_of (FileWritten _ _ b _) = Some b"
| "bytes_of _ = None"

fun fd_of :: "event \<Rightarrow> int option" where
  "fd_of (FileOpened f _ _) = Some f"
| "fd_of (FileRead f _ _ _) = Some f"
| "fd_of (FileWritten f _ _ _) = Some f"
| "fd_of (FileClosed f _ _) = Some f"
| "fd_of (SocketCreated f _ _ _ _) = Some f"
| "fd_of (NetworkConnected f _ _) = Some f"
| "fd_of (NetworkBound f _ _) = Some f"
| "fd_of (NetworkListening f _ _) = Some f"
| "fd_of (NetworkAccepted f _ _) = Some f"
| "fd_of _ = None"

fun mode_of :: "event \<Rightarrow> 32 word option" where
  "mode_of (FileModeChanged _ m _) = Some m"
| "mode_of _ = None"

fun rule_of :: "event \<Rightarrow> (string \<times> string) option" where
  "rule_of (PolicyViolation r x _) = Some (r, x)"
| "rule_of _ = None"

fun syscall_of :: "event \<Rightarrow> (string \<times> int) option" where
  "syscall_of (SyscallFailed _ s e _) = Some (s, e)"
| "syscall_of _ = None"

fun status_of :: "event \<Rightarrow> (int \<times> bool) option" where
  "status_of (TraceFinished _ s b _) = Some (s, b)"
| "status_of (ProcessExited _ s b _) = Some (s, b)"
| "status_of _ = None"

fun parent_pid_of :: "event \<Rightarrow> int option" where
  "parent_pid_of (ProcessSpawned _ p _) = Some p"
| "parent_pid_of _ = None"

fun is_process_spawned :: "event \<Rightarrow> bool" where
  "is_process_spawned (ProcessSpawned _ _ _) = True"
| "is_process_spawned _ = False"

lemma context_with_context [simp]: "context_of (with_context c e) = c"
  by (cases e) auto

lemma with_context_twice [simp]: "with_context c (with_context d e) = with_context c e"
  by (cases e) auto

lemma with_context_fields [simp]:
  "path_of (with_context c e) = path_of e"
  "endpoint_of (with_context c e) = endpoint_of e"
  "syscall_of (with_context c e) = syscall_of e"
  "is_process_spawned (with_context c e) = is_process_spawned e"
  by (cases e; simp)+

text \<open>No struct carries both a path and an endpoint, so the two branches of
  \<^verbatim>\<open>if constexpr (requires \<dots>)\<close> that read them never compete.\<close>

lemma path_endpoint_exclusive: "path_of e = None \<or> endpoint_of e = None"
  by (cases e) auto

section \<open>The reporter interface\<close>

text \<open>
  \<^verbatim>\<open>report::Reporter\<close> has one operation, \<^verbatim>\<open>report\<close>, and one query,
  \<^verbatim>\<open>stop_requested\<close>, which is \<^verbatim>\<open>false\<close> unless overridden. The contract the tracer relies
  on is that a request to stop is never withdrawn: once a reporter asks for the target to be
  stopped, it keeps asking after every later event.
\<close>

locale event_sink =
  fixes report :: "event \<Rightarrow> 'r \<Rightarrow> 'r"
    and stop_requested :: "'r \<Rightarrow> bool"
  assumes stop_sticky: "stop_requested r \<Longrightarrow> stop_requested (report e r)"
begin

lemma stop_sticky_fold: "stop_requested r \<Longrightarrow> stop_requested (fold report es r)"
  by (induction es arbitrary: r) (auto intro: stop_sticky)

lemma stop_fold_mono:
  "stop_requested (fold report es r) \<Longrightarrow> stop_requested (fold report (es @ fs) r)"
  by (simp add: stop_sticky_fold)

end

text \<open>A reporter that keeps the default \<^verbatim>\<open>stop_requested\<close> satisfies the contract
  whatever it does with events.\<close>

definition default_stop_requested :: "'r \<Rightarrow> bool" where
  "default_stop_requested r = False"

lemma default_event_sink: "event_sink report default_stop_requested"
  by unfold_locales (simp add: default_stop_requested_def)

end
