(* ===== verification/Fd_Table.thy ===== *)
theory Fd_Table
  imports Execell_Prelude
begin

text \<open>
  The descriptor table of a traced task (\<^verbatim>\<open>src/trace/fd_table.cpp\<close>): which path each
  open descriptor of the tracee refers to.

  \<^verbatim>\<open>entries_\<close> is a \<^verbatim>\<open>std::unordered_map<int, std::string>\<close>, kept here as the association
  list of its elements in iteration order, so that \<^verbatim>\<open>close_range\<close> can walk over it as the
  code does. The well-formedness invariant is that keys are distinct; the abstraction is the
  partial map \<^verbatim>\<open>map_of\<close>, on which the behaviour is independent of the iteration order.
  The contract that the syscall decoder relies on is the locale \<open>descriptor_map\<close>.
\<close>

section \<open>Operations\<close>

type_synonym fd_table = "(int \<times> string) list"

definition fd_empty :: fd_table where
  "fd_empty = []"

definition track :: "int \<Rightarrow> string \<Rightarrow> fd_table \<Rightarrow> fd_table" where
  "track fd path t = AList.update fd path t"

definition fd_lookup :: "fd_table \<Rightarrow> int \<Rightarrow> string option" where
  "fd_lookup t fd = map_of t fd"

definition fd_contains :: "fd_table \<Rightarrow> int \<Rightarrow> bool" where
  "fd_contains t fd = (map_of t fd \<noteq> None)"

definition fd_close :: "int \<Rightarrow> fd_table \<Rightarrow> fd_table" where
  "fd_close fd t = AList.delete fd t"

definition duplicate :: "int \<Rightarrow> int \<Rightarrow> fd_table \<Rightarrow> fd_table" where
  "duplicate source_fd target_fd t =
     (case fd_lookup t source_fd of
        None \<Rightarrow> fd_close target_fd t
      | Some path \<Rightarrow> track target_fd path t)"

text \<open>The iterator loop of \<^verbatim>\<open>close_range\<close>: an element whose key, read as unsigned, lies in
  the range is erased, any other is kept.\<close>

fun close_range :: "32 word \<Rightarrow> 32 word \<Rightarrow> fd_table \<Rightarrow> fd_table" where
  "close_range lo hi [] = []"
| "close_range lo hi ((key, path) # t) =
     (let fd = int_to_unsigned key
      in if fd \<ge> lo \<and> fd \<le> hi then close_range lo hi t
         else (key, path) # close_range lo hi t)"

definition fd_wf :: "fd_table \<Rightarrow> bool" where
  "fd_wf t \<longleftrightarrow> distinct (map fst t)"

section \<open>The contract\<close>

locale descriptor_map =
  fixes empty :: 't
    and tracked :: "int \<Rightarrow> string \<Rightarrow> 't \<Rightarrow> 't"
    and closed :: "int \<Rightarrow> 't \<Rightarrow> 't"
    and duplicated :: "int \<Rightarrow> int \<Rightarrow> 't \<Rightarrow> 't"
    and range_closed :: "32 word \<Rightarrow> 32 word \<Rightarrow> 't \<Rightarrow> 't"
    and look :: "'t \<Rightarrow> int \<Rightarrow> string option"
    and wf :: "'t \<Rightarrow> bool"
  assumes look_empty: "look empty = Map.empty"
    and look_tracked: "wf t \<Longrightarrow> look (tracked f p t) = (look t)(f \<mapsto> p)"
    and look_closed: "wf t \<Longrightarrow> look (closed f t) = (look t)(f := None)"
    and look_duplicated: "wf t \<Longrightarrow> look (duplicated f g t) = (look t)(g := look t f)"
    and look_range_closed: "wf t \<Longrightarrow>
          look (range_closed a b t) f =
            (if a \<le> int_to_unsigned f \<and> int_to_unsigned f \<le> b then None else look t f)"
    and wf_empty: "wf empty"
    and wf_tracked: "wf t \<Longrightarrow> wf (tracked f p t)"
    and wf_closed: "wf t \<Longrightarrow> wf (closed f t)"
    and wf_duplicated: "wf t \<Longrightarrow> wf (duplicated f g t)"
    and wf_range_closed: "wf t \<Longrightarrow> wf (range_closed a b t)"
begin

lemmas wf_preserved = wf_tracked wf_closed wf_duplicated wf_range_closed

text \<open>A duplicate of a descriptor keeps its meaning when the original is closed.\<close>

lemma duplicate_survives_close:
  "wf t \<Longrightarrow> f \<noteq> g \<Longrightarrow> look (closed f (duplicated f g t)) g = look t f"
  by (simp add: look_closed look_duplicated wf_duplicated)

text \<open>Closing the whole unsigned range empties the table.\<close>

lemma close_everything: "wf t \<Longrightarrow> look (range_closed 0 (- 1) t) = Map.empty"
  by (rule ext) (simp add: look_range_closed)

text \<open>Closing a range twice, or closing a descriptor of it afterwards, changes nothing.\<close>

lemma range_closed_idem:
  "wf t \<Longrightarrow> look (range_closed a b (range_closed a b t)) = look (range_closed a b t)"
  by (rule ext) (simp add: look_range_closed wf_range_closed)

end

section \<open>The implementation satisfies the contract\<close>

lemma close_range_filter:
  "close_range a b t =
     filter (\<lambda>(k, _). \<not> (a \<le> int_to_unsigned k \<and> int_to_unsigned k \<le> b)) t"
  by (induction a b t rule: close_range.induct) (auto simp: Let_def)

lemma map_of_close_range:
  "map_of (close_range a b t) f =
     (if a \<le> int_to_unsigned f \<and> int_to_unsigned f \<le> b then None else map_of t f)"
  by (induction a b t rule: close_range.induct) (auto simp: Let_def)

lemma distinct_map_filter_fst: "distinct (map fst t) \<Longrightarrow> distinct (map fst (filter P t))"
  by (induction t) auto

lemma fd_wf_track [simp]: "fd_wf t \<Longrightarrow> fd_wf (track f p t)"
  by (simp add: fd_wf_def track_def distinct_update)

lemma fd_wf_close [simp]: "fd_wf t \<Longrightarrow> fd_wf (fd_close f t)"
  by (simp add: fd_wf_def fd_close_def distinct_delete)

lemma fd_wf_duplicate [simp]: "fd_wf t \<Longrightarrow> fd_wf (duplicate f g t)"
  by (simp add: duplicate_def split: option.splits)

lemma fd_wf_close_range [simp]: "fd_wf t \<Longrightarrow> fd_wf (close_range a b t)"
  by (simp add: fd_wf_def close_range_filter distinct_map_filter_fst)

lemma fd_wf_empty [simp]: "fd_wf fd_empty"
  by (simp add: fd_wf_def fd_empty_def)

lemma fd_lookup_track: "fd_lookup (track f p t) = (fd_lookup t)(f \<mapsto> p)"
  by (rule ext) (simp add: fd_lookup_def track_def update_conv')

lemma fd_lookup_close: "fd_lookup (fd_close f t) = (fd_lookup t)(f := None)"
  by (rule ext) (simp add: fd_lookup_def fd_close_def delete_conv')

interpretation fdt: descriptor_map fd_empty track fd_close duplicate close_range fd_lookup fd_wf
proof unfold_locales
  show "fd_lookup fd_empty = Map.empty"
    by (rule ext) (simp add: fd_lookup_def fd_empty_def)
  show "fd_lookup (duplicate f g t) = (fd_lookup t)(g := fd_lookup t f)" for f g t
    by (rule ext) (simp add: duplicate_def fd_lookup_track fd_lookup_close split: option.splits)
  show "fd_lookup (close_range a b t) f =
      (if a \<le> int_to_unsigned f \<and> int_to_unsigned f \<le> b then None else fd_lookup t f)"
    for a b t f
    by (simp add: fd_lookup_def map_of_close_range)
qed (simp_all add: fd_lookup_track fd_lookup_close)

lemma fd_contains_lookup: "fd_contains t f \<longleftrightarrow> fd_lookup t f \<noteq> None"
  by (simp add: fd_contains_def fd_lookup_def)

section \<open>Whole histories of the table\<close>

text \<open>A history of calls on one table, and its meaning on the abstract map.\<close>

datatype fd_op = OpTrack int string | OpClose int | OpDuplicate int int | OpCloseRange "32 word" "32 word"

primrec fd_apply :: "fd_op \<Rightarrow> fd_table \<Rightarrow> fd_table" where
  "fd_apply (OpTrack f p) t = track f p t"
| "fd_apply (OpClose f) t = fd_close f t"
| "fd_apply (OpDuplicate f g) t = duplicate f g t"
| "fd_apply (OpCloseRange a b) t = close_range a b t"

primrec fd_meaning :: "fd_op \<Rightarrow> (int \<rightharpoonup> string) \<Rightarrow> (int \<rightharpoonup> string)" where
  "fd_meaning (OpTrack f p) m = m(f \<mapsto> p)"
| "fd_meaning (OpClose f) m = m(f := None)"
| "fd_meaning (OpDuplicate f g) m = m(g := m f)"
| "fd_meaning (OpCloseRange a b) m =
     (\<lambda>f. if a \<le> int_to_unsigned f \<and> int_to_unsigned f \<le> b then None else m f)"

lemma fd_apply_wf: "fd_wf t \<Longrightarrow> fd_wf (fd_apply op t)"
  by (cases op) simp_all

lemma fd_apply_meaning: "fd_wf t \<Longrightarrow> fd_lookup (fd_apply op t) = fd_meaning op (fd_lookup t)"
  by (cases op)
    (auto simp: fdt.look_tracked fdt.look_closed fdt.look_duplicated fdt.look_range_closed)

lemma fd_history:
  "fd_wf t \<Longrightarrow> fd_wf (fold fd_apply ops t) \<and>
     fd_lookup (fold fd_apply ops t) = fold fd_meaning ops (fd_lookup t)"
  by (induction ops arbitrary: t) (simp_all add: fd_apply_wf fd_apply_meaning)

text \<open>C34. Refinement: after any history of \<^verbatim>\<open>track\<close>, \<^verbatim>\<open>close\<close>, \<^verbatim>\<open>duplicate\<close> and
  \<^verbatim>\<open>close_range\<close> calls on a new table, no descriptor occurs twice and \<^verbatim>\<open>lookup\<close> is
  exactly the partial map obtained by the corresponding map updates, so the result does not
  depend on the iteration order of the hash table.\<close>

theorem fd_table_refines_map:
  "fd_wf (fold fd_apply ops fd_empty) \<and>
   fd_lookup (fold fd_apply ops fd_empty) = fold fd_meaning ops Map.empty"
  using fd_history [OF fd_wf_empty] fdt.look_empty by simp

text \<open>A duplicated descriptor keeps the path of the original when the original is closed,
  and closing the full unsigned range forgets every descriptor, negative keys included.\<close>

theorem fd_table_duplicate_then_close:
  assumes "fd_wf t" "f \<noteq> g"
  shows "fd_lookup (fd_close f (duplicate f g t)) g = fd_lookup t f \<and>
    fd_lookup (fd_close f (duplicate f g t)) f = None \<and>
    fd_lookup (close_range 0 (- 1) t) = Map.empty"
  using assms fdt.duplicate_survives_close fdt.close_everything
  by (simp add: fdt.look_closed)

theorem fd_table_duplicate_then_close_witness:
  "fd_wf (track 3 ''/etc/passwd'' fd_empty) \<and> (3::int) \<noteq> 7 \<and>
   fd_lookup (fd_close 3 (duplicate 3 7 (track 3 ''/etc/passwd'' fd_empty))) 7 =
     Some ''/etc/passwd''"
proof -
  have wf: "fd_wf (track 3 ''/etc/passwd'' fd_empty)" by simp
  have "(3::int) \<noteq> 7" by simp
  from wf this fd_table_duplicate_then_close [OF wf this] show ?thesis
    by (simp add: fd_lookup_track)
qed

end
