(* ===== verification/Trace_Memory.thy ===== *)
theory Trace_Memory
  imports Execell_Prelude
begin

text \<open>
  Reading a NUL-terminated string out of a tracee (\<^verbatim>\<open>src/trace/memory.cpp\<close>).
  \<^verbatim>\<open>ptrace(PTRACE_PEEKDATA)\<close> is the kernel's: it is a parameter, a function from a process
  and an address to the word read and the value left in \<^verbatim>\<open>errno\<close>, so that the code's test
  \<^verbatim>\<open>data == -1 && errno != 0\<close> is the model's test. The word's bytes are taken in memory
  order, which is little endian on the only supported architecture.
\<close>

section \<open>Operations\<close>

type_synonym peekdata = "int \<Rightarrow> 64 word \<Rightarrow> 64 word \<times> int"

abbreviation (input) NUL :: char where "NUL \<equiv> CHR 0x00"

abbreviation max_string_size :: nat where "max_string_size \<equiv> 4096"

datatype memory_read_status = ReadComplete | ReadTruncated | ReadInvalidAddress

record memory_read =
  mr_value :: string
  mr_status :: memory_read_status
  mr_bytes :: nat

definition word_bytes :: "64 word \<Rightarrow> char list" where
  "word_bytes w = map (\<lambda>i. char_of (unat (drop_bit (8 * i) w))) [0..<8]"

text \<open>A peek fails when it returns \<^verbatim>\<open>-1\<close> with \<^verbatim>\<open>errno\<close> set.\<close>

definition peek_failed :: "64 word \<times> int \<Rightarrow> bool" where
  "peek_failed r \<longleftrightarrow> fst r = - 1 \<and> snd r \<noteq> 0"

text \<open>The inner \<^verbatim>\<open>for\<close> loop over the bytes of one word: it may finish the read (NUL or full
  buffer) or leave the value for the next word.\<close>

fun push_bytes :: "char list \<Rightarrow> string \<Rightarrow> string \<times> memory_read_status option" where
  "push_bytes [] val = (val, None)"
| "push_bytes (b # bs) val =
     (if b = NUL then (val, Some ReadComplete)
      else if length (val @ [b]) \<ge> max_string_size then (val @ [b], Some ReadTruncated)
      else push_bytes bs (val @ [b]))"

lemma push_bytes_continues:
  "push_bytes bs val = (val', None) \<Longrightarrow> val' = val @ bs \<and> NUL \<notin> set bs"
  by (induction bs val arbitrary: val' rule: push_bytes.induct) (auto split: if_splits)

lemma length_word_bytes [simp]: "length (word_bytes w) = 8"
  by (simp add: word_bytes_def)

function read_string_loop :: "peekdata \<Rightarrow> int \<Rightarrow> 64 word \<Rightarrow> string \<Rightarrow> memory_read" where
  "read_string_loop peek pid address val =
     (if length val < max_string_size then
        (let data = peek pid (address + word_of_nat (length val))
         in if peek_failed data then
              \<lparr>mr_value = val, mr_status = ReadInvalidAddress, mr_bytes = length val\<rparr>
            else
              (case push_bytes (word_bytes (fst data)) val of
                 (val', Some status) \<Rightarrow>
                   \<lparr>mr_value = val', mr_status = status, mr_bytes = length val'\<rparr>
               | (val', None) \<Rightarrow> read_string_loop peek pid address val'))
      else \<lparr>mr_value = val, mr_status = ReadTruncated, mr_bytes = length val\<rparr>)"
  by pat_completeness auto
termination
  by (relation "measure (\<lambda>(peek, pid, address, val). max_string_size - length val)")
    (auto dest!: push_bytes_continues [OF sym])

declare read_string_loop.simps [simp del]

definition read_process_memory_string :: "peekdata \<Rightarrow> int \<Rightarrow> 64 word \<Rightarrow> memory_read" where
  "read_process_memory_string peek pid address = read_string_loop peek pid address []"

definition read_process_string_value :: "peekdata \<Rightarrow> int \<Rightarrow> 64 word \<Rightarrow> string" where
  "read_process_string_value peek pid address =
     mr_value (read_process_memory_string peek pid address)"

section \<open>Every read is bounded and clean\<close>

text \<open>The shape of every result, whatever the kernel answers.\<close>

definition read_wf :: "memory_read \<Rightarrow> bool" where
  "read_wf r \<longleftrightarrow> mr_bytes r = length (mr_value r) \<and> length (mr_value r) \<le> max_string_size \<and>
     NUL \<notin> set (mr_value r) \<and>
     (mr_status r = ReadTruncated \<longleftrightarrow> length (mr_value r) = max_string_size)"

lemma push_bytes_wf:
  "push_bytes bs val = (val', st) \<Longrightarrow> length val < max_string_size \<Longrightarrow> NUL \<notin> set val \<Longrightarrow>
     length val' \<le> max_string_size \<and> NUL \<notin> set val' \<and> st \<noteq> Some ReadInvalidAddress \<and>
     (st = Some ReadTruncated \<longleftrightarrow> length val' = max_string_size)"
  by (induction bs val rule: push_bytes.induct) (auto split: if_splits)

lemma read_string_loop_wf:
  "length val \<le> max_string_size \<Longrightarrow> NUL \<notin> set val \<Longrightarrow>
     read_wf (read_string_loop peek pid address val)"
proof (induction peek pid address val rule: read_string_loop.induct)
  case (1 peek pid address val)
  show ?case
  proof (cases "length val < max_string_size")
    case False
    with 1 show ?thesis by (subst read_string_loop.simps) (simp add: read_wf_def)
  next
    case True
    let ?data = "peek pid (address + word_of_nat (length val))"
    obtain val' st where push: "push_bytes (word_bytes (fst ?data)) val = (val', st)"
      by (cases "push_bytes (word_bytes (fst ?data)) val")
    note wf = push_bytes_wf [OF push True \<open>NUL \<notin> set val\<close>]
    show ?thesis
    proof (cases st)
      case None
      have IH: "\<not> peek_failed ?data \<Longrightarrow> read_wf (read_string_loop peek pid address val')"
        using 1(1) [OF True refl _ push [symmetric] None] wf by simp
      with True None 1(3) push show ?thesis
        by (subst read_string_loop.simps) (simp add: read_wf_def Let_def)
    next
      case (Some status)
      with True 1(3) push wf show ?thesis
        by (subst read_string_loop.simps) (auto simp: read_wf_def Let_def)
    qed
  qed
qed

lemma read_process_memory_string_wf: "read_wf (read_process_memory_string peek pid address)"
  unfolding read_process_memory_string_def by (rule read_string_loop_wf) simp_all

section \<open>The bytes read are the C string in memory\<close>

text \<open>What \<^verbatim>\<open>ptrace(2)\<close> documents of \<^verbatim>\<open>PTRACE_PEEKDATA\<close> on readable memory: each word
  the routine can ask for holds the bytes at its address and no error is signalled.\<close>

definition memory_readable :: "peekdata \<Rightarrow> int \<Rightarrow> (64 word \<Rightarrow> char) \<Rightarrow> 64 word \<Rightarrow> bool" where
  "memory_readable peek pid mem address \<longleftrightarrow>
     (\<forall>k < 512. let a = address + word_of_nat (8 * k)
                in word_bytes (fst (peek pid a)) = map (\<lambda>i. mem (a + word_of_nat i)) [0..<8] \<and>
                   snd (peek pid a) = 0)"

definition c_string :: "(64 word \<Rightarrow> char) \<Rightarrow> 64 word \<Rightarrow> nat \<Rightarrow> nat \<Rightarrow> string" where
  "c_string mem address from n =
     takeWhile (\<lambda>c. c \<noteq> NUL) (map (\<lambda>i. mem (address + word_of_nat i)) [from..<n])"

lemma push_bytes_eq:
  "length val + length bs \<le> max_string_size \<Longrightarrow>
   push_bytes bs val =
     (let t = takeWhile (\<lambda>c. c \<noteq> NUL) bs
      in (val @ t, if length t < length bs then Some ReadComplete
                   else if bs \<noteq> [] \<and> length val + length bs = max_string_size
                   then Some ReadTruncated else None))"
proof (induction bs val rule: push_bytes.induct)
  case (2 b bs val)
  then show ?case by (cases bs) (auto simp: Let_def)
qed simp

lemma map_mem_shift:
  "map (\<lambda>i. mem (address + word_of_nat n + word_of_nat i)) [0..<m] =
   map (\<lambda>i. mem (address + word_of_nat i)) [n..<n + m]" for mem :: "64 word \<Rightarrow> char"
  by (simp add: map_add_upt [symmetric] o_def add.commute add.left_commute del: map_add_upt)

lemma c_string_split:
  assumes "from \<le> mid" "mid \<le> n"
  shows "c_string mem address from n =
     (let t = c_string mem address from mid
      in if length t < mid - from then t else t @ c_string mem address mid n)"
proof -
  define f where "f = (\<lambda>i. mem (address + word_of_nat i))"
  have app: "map f [from..<n] = map f [from..<mid] @ map f [mid..<n]"
    by (metis assms le_add_diff_inverse map_append upt_add_eq_append)
  show ?thesis
  proof (cases "NUL \<in> set (map f [from..<mid])")
    case True
    then have "length (takeWhile (\<lambda>c. c \<noteq> NUL) (map f [from..<mid])) < length (map f [from..<mid])"
      by (rule length_takeWhile_less_if) simp
    with True show ?thesis
      unfolding c_string_def f_def [symmetric] app by (simp add: takeWhile_append1 Let_def)
  next
    case False
    then have all: "\<forall>c \<in> set (map f [from..<mid]). c \<noteq> NUL" by metis
    then have tw: "takeWhile (\<lambda>c. c \<noteq> NUL) (map f [from..<mid]) = map f [from..<mid]"
      by (rule takeWhile_eq_all_conv [THEN iffD2])
    from all show ?thesis
      unfolding c_string_def f_def [symmetric] app takeWhile_append Let_def tw by simp
  qed
qed

lemma read_string_loop_correct:
  assumes "memory_readable peek pid mem address"
  shows "length val = 8 * k \<Longrightarrow> k \<le> 512 \<Longrightarrow>
    read_string_loop peek pid address val =
      (let s = val @ c_string mem address (8 * k) max_string_size
       in \<lparr>mr_value = s,
           mr_status = (if length s < max_string_size then ReadComplete else ReadTruncated),
           mr_bytes = length s\<rparr>)"
proof (induction "512 - k" arbitrary: k val)
  case 0
  then have k: "k = 512" by simp
  with 0 show ?case
    by (subst read_string_loop.simps) (simp add: c_string_def)
next
  case (Suc d)
  then have k: "k < 512" by simp
  let ?a = "address + word_of_nat (8 * k)"
  let ?t = "c_string mem address (8 * k) (8 * k + 8)"
  have shift: "map (\<lambda>i. mem (?a + word_of_nat i)) [0..<8] =
      map (\<lambda>i. mem (address + word_of_nat i)) [8 * k..<8 * k + 8]"
    by (rule map_mem_shift)
  from assms k have peek: "word_bytes (fst (peek pid ?a)) =
      map (\<lambda>i. mem (address + word_of_nat i)) [8 * k..<8 * k + 8]"
    and ok: "snd (peek pid ?a) = 0"
    unfolding memory_readable_def Let_def shift [symmetric] by blast+
  have len: "length val + length (word_bytes (fst (peek pid ?a))) \<le> max_string_size"
    using Suc.prems k by simp
  have push: "push_bytes (word_bytes (fst (peek pid ?a))) val =
      (val @ ?t, if length ?t < 8 then Some ReadComplete
                 else if k = 511 then Some ReadTruncated else None)"
  proof -
    have "takeWhile (\<lambda>c. c \<noteq> NUL) (word_bytes (fst (peek pid ?a))) = ?t"
      unfolding peek c_string_def ..
    moreover have "word_bytes (fst (peek pid ?a)) \<noteq> []"
      by (simp add: word_bytes_def)
    moreover have "8 * k + 8 = max_string_size \<longleftrightarrow> k = 511" by arith
    ultimately show ?thesis
      unfolding push_bytes_eq [OF len] Let_def length_word_bytes Suc.prems(1) by simp
  qed
  have step: "read_string_loop peek pid address val =
      (if length ?t < 8 then \<lparr>mr_value = val @ ?t, mr_status = ReadComplete,
                              mr_bytes = length (val @ ?t)\<rparr>
       else if k = 511 then \<lparr>mr_value = val @ ?t, mr_status = ReadTruncated,
                             mr_bytes = length (val @ ?t)\<rparr>
       else read_string_loop peek pid address (val @ ?t))"
  proof -
    have "\<not> peek_failed (peek pid ?a)" using ok by (simp add: peek_failed_def)
    moreover have "length val < max_string_size" using Suc.prems k by simp
    ultimately show ?thesis
      unfolding read_string_loop.simps [of peek pid address val] Suc.prems(1) Let_def push
      by simp
  qed
  have t8: "length ?t \<le> 8"
    unfolding c_string_def by (rule order_trans [OF length_takeWhile_le]) simp
  have split: "c_string mem address (8 * k) max_string_size =
      (if length ?t < 8 then ?t else ?t @ c_string mem address (8 * Suc k) max_string_size)"
    using c_string_split [of "8 * k" "8 * k + 8" max_string_size mem address] k
    by (simp add: Let_def add.commute)
  show ?case
  proof (cases "length ?t < 8")
    case True
    with step split Suc.prems k show ?thesis by simp
  next
    case False
    with t8 Suc.prems have len': "length (val @ ?t) = 8 * Suc k" by simp
    show ?thesis
    proof (cases "k = 511")
      case True
      then have "c_string mem address (8 * Suc k) max_string_size = []"
        by (simp add: c_string_def)
      with True False step split len' show ?thesis by simp
    next
      case False': False
      have "read_string_loop peek pid address (val @ ?t) =
          (let s = (val @ ?t) @ c_string mem address (8 * Suc k) max_string_size
           in \<lparr>mr_value = s,
               mr_status = (if length s < max_string_size then ReadComplete else ReadTruncated),
               mr_bytes = length s\<rparr>)"
        using Suc.hyps(1) [of "Suc k" "val @ ?t"] Suc.hyps(2) len' k by simp
      with False False' step split show ?thesis by simp
    qed
  qed
qed

section \<open>Properties\<close>

text \<open>Whatever the kernel answers, a read from a traced process returns at most 4096 bytes,
  none of them NUL, reports their number exactly, and says ``truncated'' precisely when the
  limit was reached.\<close>

theorem read_process_memory_string_bounded:
  "length (mr_value (read_process_memory_string peek pid address)) \<le> 4096 \<and>
   NUL \<notin> set (mr_value (read_process_memory_string peek pid address)) \<and>
   mr_bytes (read_process_memory_string peek pid address) =
     length (mr_value (read_process_memory_string peek pid address)) \<and>
   (mr_status (read_process_memory_string peek pid address) = ReadTruncated \<longleftrightarrow>
     length (mr_value (read_process_memory_string peek pid address)) = 4096)"
  using read_process_memory_string_wf [of peek pid address] by (simp add: read_wf_def)

text \<open>C31. Where all of the first 4096 bytes can be read, the value read is the C string at the address: the
  bytes before the first NUL among the first 4096, complete when such a NUL exists.\<close>

theorem read_process_memory_string_correct:
  assumes "memory_readable peek pid mem address"
  shows "read_process_memory_string peek pid address =
    (let s = takeWhile (\<lambda>c. c \<noteq> NUL) (map (\<lambda>i. mem (address + word_of_nat i)) [0..<4096])
     in \<lparr>mr_value = s, mr_status = (if length s < 4096 then ReadComplete else ReadTruncated),
         mr_bytes = length s\<rparr>)"
  using read_string_loop_correct [OF assms, of "[]" 0]
  by (simp add: read_process_memory_string_def c_string_def)

definition hi_memory :: "64 word \<Rightarrow> char" where
  "hi_memory a = (if unat a = 4096 then CHR ''h'' else if unat a = 4097 then CHR ''i'' else NUL)"

definition hi_peek :: peekdata where
  "hi_peek pid a = (if a = 4096 then (0x6968, 0) else (0, 0))"

lemma unat_small_address:
  "k < 512 \<Longrightarrow> i < 8 \<Longrightarrow> unat ((4096 :: 64 word) + word_of_nat (8 * k) + word_of_nat i) = 4096 + 8 * k + i"
proof -
  assume "k < 512" "i < 8"
  then have "unat (word_of_nat (4096 + 8 * k + i) :: 64 word) = 4096 + 8 * k + i"
    by (simp add: unat_of_nat del: of_nat_add of_nat_mult)
  then show ?thesis by (simp add: add.assoc)
qed

lemma hi_bytes:
  "word_bytes 0x6968 = [CHR ''h'', CHR ''i'', NUL, NUL, NUL, NUL, NUL, NUL]"
  "word_bytes 0 = replicate 8 NUL"
   apply (simp add: word_bytes_def upt_rec char_of_def bit_0)
  apply (simp add: word_bytes_def upt_rec char_of_def)
  apply (simp add: numeral_eq_Suc)
  done

lemma hi_memory_readable: "memory_readable hi_peek 7 hi_memory 4096"
  unfolding memory_readable_def Let_def
proof (intro allI impI conjI)
  fix k :: nat
  assume k: "k < 512"
  let ?a = "(4096 :: 64 word) + word_of_nat (8 * k)"
  show "snd (hi_peek 7 ?a) = 0" by (simp add: hi_peek_def)
  have a: "unat ?a = 4096 + 8 * k" using unat_small_address [OF k, of 0] by simp
  have peek: "hi_peek 7 ?a = (if k = 0 then (0x6968, 0) else (0, 0))"
    using a by (simp add: hi_peek_def word_unat_eq_iff)
  have "map (\<lambda>i. hi_memory (?a + word_of_nat i)) [0..<8] =
      map (\<lambda>i. if k = 0 \<and> i = 0 then CHR ''h'' else if k = 0 \<and> i = 1 then CHR ''i'' else NUL) [0..<8]"
    by (rule map_cong) (simp_all add: hi_memory_def unat_small_address [OF k] del: of_nat_mult)
  also have "\<dots> = (if k = 0 then [CHR ''h'', CHR ''i'', NUL, NUL, NUL, NUL, NUL, NUL]
      else replicate 8 NUL)"
    by (simp add: upt_rec) (simp add: numeral_eq_Suc)
  also have "\<dots> = word_bytes (fst (hi_peek 7 ?a))"
    unfolding peek by (simp add: hi_bytes)
  finally show "word_bytes (fst (hi_peek 7 ?a)) = map (\<lambda>i. hi_memory (?a + word_of_nat i)) [0..<8]" ..
qed

theorem read_process_memory_string_correct_witness:
  "memory_readable hi_peek 7 hi_memory 4096 \<and>
   mr_value (read_process_memory_string hi_peek 7 4096) =
     takeWhile (\<lambda>c. c \<noteq> NUL) (map (\<lambda>i. hi_memory (4096 + word_of_nat i)) [0..<4096])"
  using hi_memory_readable read_process_memory_string_correct [OF hi_memory_readable]
  by (simp add: Let_def)

end
