(* ===== verification/Syscall_Table.thy ===== *)
theory Syscall_Table
  imports Execell_Prelude
begin

text \<open>
  The x86\_64 system-call numbers of \<^verbatim>\<open><sys/syscall.h>\<close> the sources name, the name table
  of \<^verbatim>\<open>src/trace/syscall.cpp\<close>, and the register decoding of
  \<^verbatim>\<open>src/trace/architecture.cpp\<close>. Every number a source file guards with
  \<^verbatim>\<open>#ifdef SYS_...\<close> is defined by the current kernel headers of that architecture.
\<close>

section \<open>System-call numbers\<close>

abbreviation (input) SYS_read :: int where "SYS_read \<equiv> 0"
abbreviation (input) SYS_write :: int where "SYS_write \<equiv> 1"
abbreviation (input) SYS_open :: int where "SYS_open \<equiv> 2"
abbreviation (input) SYS_close :: int where "SYS_close \<equiv> 3"
abbreviation (input) SYS_fstat :: int where "SYS_fstat \<equiv> 5"
abbreviation (input) SYS_poll :: int where "SYS_poll \<equiv> 7"
abbreviation (input) SYS_lseek :: int where "SYS_lseek \<equiv> 8"
abbreviation (input) SYS_mmap :: int where "SYS_mmap \<equiv> 9"
abbreviation (input) SYS_mprotect :: int where "SYS_mprotect \<equiv> 10"
abbreviation (input) SYS_munmap :: int where "SYS_munmap \<equiv> 11"
abbreviation (input) SYS_brk :: int where "SYS_brk \<equiv> 12"
abbreviation (input) SYS_rt_sigaction :: int where "SYS_rt_sigaction \<equiv> 13"
abbreviation (input) SYS_rt_sigprocmask :: int where "SYS_rt_sigprocmask \<equiv> 14"
abbreviation (input) SYS_rt_sigreturn :: int where "SYS_rt_sigreturn \<equiv> 15"
abbreviation (input) SYS_ioctl :: int where "SYS_ioctl \<equiv> 16"
abbreviation (input) SYS_pread64 :: int where "SYS_pread64 \<equiv> 17"
abbreviation (input) SYS_pwrite64 :: int where "SYS_pwrite64 \<equiv> 18"
abbreviation (input) SYS_readv :: int where "SYS_readv \<equiv> 19"
abbreviation (input) SYS_writev :: int where "SYS_writev \<equiv> 20"
abbreviation (input) SYS_access :: int where "SYS_access \<equiv> 21"
abbreviation (input) SYS_pipe :: int where "SYS_pipe \<equiv> 22"
abbreviation (input) SYS_sched_yield :: int where "SYS_sched_yield \<equiv> 24"
abbreviation (input) SYS_mremap :: int where "SYS_mremap \<equiv> 25"
abbreviation (input) SYS_madvise :: int where "SYS_madvise \<equiv> 28"
abbreviation (input) SYS_dup :: int where "SYS_dup \<equiv> 32"
abbreviation (input) SYS_dup2 :: int where "SYS_dup2 \<equiv> 33"
abbreviation (input) SYS_nanosleep :: int where "SYS_nanosleep \<equiv> 35"
abbreviation (input) SYS_getpid :: int where "SYS_getpid \<equiv> 39"
abbreviation (input) SYS_socket :: int where "SYS_socket \<equiv> 41"
abbreviation (input) SYS_connect :: int where "SYS_connect \<equiv> 42"
abbreviation (input) SYS_accept :: int where "SYS_accept \<equiv> 43"
abbreviation (input) SYS_sendto :: int where "SYS_sendto \<equiv> 44"
abbreviation (input) SYS_recvfrom :: int where "SYS_recvfrom \<equiv> 45"
abbreviation (input) SYS_sendmsg :: int where "SYS_sendmsg \<equiv> 46"
abbreviation (input) SYS_recvmsg :: int where "SYS_recvmsg \<equiv> 47"
abbreviation (input) SYS_shutdown :: int where "SYS_shutdown \<equiv> 48"
abbreviation (input) SYS_bind :: int where "SYS_bind \<equiv> 49"
abbreviation (input) SYS_listen :: int where "SYS_listen \<equiv> 50"
abbreviation (input) SYS_getsockname :: int where "SYS_getsockname \<equiv> 51"
abbreviation (input) SYS_getpeername :: int where "SYS_getpeername \<equiv> 52"
abbreviation (input) SYS_setsockopt :: int where "SYS_setsockopt \<equiv> 54"
abbreviation (input) SYS_getsockopt :: int where "SYS_getsockopt \<equiv> 55"
abbreviation (input) SYS_clone :: int where "SYS_clone \<equiv> 56"
abbreviation (input) SYS_fork :: int where "SYS_fork \<equiv> 57"
abbreviation (input) SYS_vfork :: int where "SYS_vfork \<equiv> 58"
abbreviation (input) SYS_execve :: int where "SYS_execve \<equiv> 59"
abbreviation (input) SYS_exit :: int where "SYS_exit \<equiv> 60"
abbreviation (input) SYS_wait4 :: int where "SYS_wait4 \<equiv> 61"
abbreviation (input) SYS_kill :: int where "SYS_kill \<equiv> 62"
abbreviation (input) SYS_uname :: int where "SYS_uname \<equiv> 63"
abbreviation (input) SYS_fcntl :: int where "SYS_fcntl \<equiv> 72"
abbreviation (input) SYS_fsync :: int where "SYS_fsync \<equiv> 74"
abbreviation (input) SYS_fdatasync :: int where "SYS_fdatasync \<equiv> 75"
abbreviation (input) SYS_truncate :: int where "SYS_truncate \<equiv> 76"
abbreviation (input) SYS_ftruncate :: int where "SYS_ftruncate \<equiv> 77"
abbreviation (input) SYS_getcwd :: int where "SYS_getcwd \<equiv> 79"
abbreviation (input) SYS_chdir :: int where "SYS_chdir \<equiv> 80"
abbreviation (input) SYS_fchdir :: int where "SYS_fchdir \<equiv> 81"
abbreviation (input) SYS_rename :: int where "SYS_rename \<equiv> 82"
abbreviation (input) SYS_mkdir :: int where "SYS_mkdir \<equiv> 83"
abbreviation (input) SYS_rmdir :: int where "SYS_rmdir \<equiv> 84"
abbreviation (input) SYS_link :: int where "SYS_link \<equiv> 86"
abbreviation (input) SYS_unlink :: int where "SYS_unlink \<equiv> 87"
abbreviation (input) SYS_symlink :: int where "SYS_symlink \<equiv> 88"
abbreviation (input) SYS_readlink :: int where "SYS_readlink \<equiv> 89"
abbreviation (input) SYS_chmod :: int where "SYS_chmod \<equiv> 90"
abbreviation (input) SYS_fchmod :: int where "SYS_fchmod \<equiv> 91"
abbreviation (input) SYS_chown :: int where "SYS_chown \<equiv> 92"
abbreviation (input) SYS_fchown :: int where "SYS_fchown \<equiv> 93"
abbreviation (input) SYS_umask :: int where "SYS_umask \<equiv> 95"
abbreviation (input) SYS_getrlimit :: int where "SYS_getrlimit \<equiv> 97"
abbreviation (input) SYS_sysinfo :: int where "SYS_sysinfo \<equiv> 99"
abbreviation (input) SYS_ptrace :: int where "SYS_ptrace \<equiv> 101"
abbreviation (input) SYS_getuid :: int where "SYS_getuid \<equiv> 102"
abbreviation (input) SYS_getgid :: int where "SYS_getgid \<equiv> 104"
abbreviation (input) SYS_geteuid :: int where "SYS_geteuid \<equiv> 107"
abbreviation (input) SYS_getegid :: int where "SYS_getegid \<equiv> 108"
abbreviation (input) SYS_setpgid :: int where "SYS_setpgid \<equiv> 109"
abbreviation (input) SYS_getppid :: int where "SYS_getppid \<equiv> 110"
abbreviation (input) SYS_setsid :: int where "SYS_setsid \<equiv> 112"
abbreviation (input) SYS_setresuid :: int where "SYS_setresuid \<equiv> 117"
abbreviation (input) SYS_getresuid :: int where "SYS_getresuid \<equiv> 118"
abbreviation (input) SYS_setresgid :: int where "SYS_setresgid \<equiv> 119"
abbreviation (input) SYS_getresgid :: int where "SYS_getresgid \<equiv> 120"
abbreviation (input) SYS_getpgid :: int where "SYS_getpgid \<equiv> 121"
abbreviation (input) SYS_capget :: int where "SYS_capget \<equiv> 125"
abbreviation (input) SYS_capset :: int where "SYS_capset \<equiv> 126"
abbreviation (input) SYS_sigaltstack :: int where "SYS_sigaltstack \<equiv> 131"
abbreviation (input) SYS_prctl :: int where "SYS_prctl \<equiv> 157"
abbreviation (input) SYS_arch_prctl :: int where "SYS_arch_prctl \<equiv> 158"
abbreviation (input) SYS_setrlimit :: int where "SYS_setrlimit \<equiv> 160"
abbreviation (input) SYS_gettid :: int where "SYS_gettid \<equiv> 186"
abbreviation (input) SYS_setxattr :: int where "SYS_setxattr \<equiv> 188"
abbreviation (input) SYS_lsetxattr :: int where "SYS_lsetxattr \<equiv> 189"
abbreviation (input) SYS_fsetxattr :: int where "SYS_fsetxattr \<equiv> 190"
abbreviation (input) SYS_listxattr :: int where "SYS_listxattr \<equiv> 194"
abbreviation (input) SYS_llistxattr :: int where "SYS_llistxattr \<equiv> 195"
abbreviation (input) SYS_flistxattr :: int where "SYS_flistxattr \<equiv> 196"
abbreviation (input) SYS_removexattr :: int where "SYS_removexattr \<equiv> 197"
abbreviation (input) SYS_lremovexattr :: int where "SYS_lremovexattr \<equiv> 198"
abbreviation (input) SYS_fremovexattr :: int where "SYS_fremovexattr \<equiv> 199"
abbreviation (input) SYS_futex :: int where "SYS_futex \<equiv> 202"
abbreviation (input) SYS_sched_getaffinity :: int where "SYS_sched_getaffinity \<equiv> 204"
abbreviation (input) SYS_getdents64 :: int where "SYS_getdents64 \<equiv> 217"
abbreviation (input) SYS_set_tid_address :: int where "SYS_set_tid_address \<equiv> 218"
abbreviation (input) SYS_clock_gettime :: int where "SYS_clock_gettime \<equiv> 228"
abbreviation (input) SYS_exit_group :: int where "SYS_exit_group \<equiv> 231"
abbreviation (input) SYS_tgkill :: int where "SYS_tgkill \<equiv> 234"
abbreviation (input) SYS_waitid :: int where "SYS_waitid \<equiv> 247"
abbreviation (input) SYS_openat :: int where "SYS_openat \<equiv> 257"
abbreviation (input) SYS_mkdirat :: int where "SYS_mkdirat \<equiv> 258"
abbreviation (input) SYS_fchownat :: int where "SYS_fchownat \<equiv> 260"
abbreviation (input) SYS_newfstatat :: int where "SYS_newfstatat \<equiv> 262"
abbreviation (input) SYS_unlinkat :: int where "SYS_unlinkat \<equiv> 263"
abbreviation (input) SYS_renameat :: int where "SYS_renameat \<equiv> 264"
abbreviation (input) SYS_linkat :: int where "SYS_linkat \<equiv> 265"
abbreviation (input) SYS_symlinkat :: int where "SYS_symlinkat \<equiv> 266"
abbreviation (input) SYS_readlinkat :: int where "SYS_readlinkat \<equiv> 267"
abbreviation (input) SYS_fchmodat :: int where "SYS_fchmodat \<equiv> 268"
abbreviation (input) SYS_faccessat :: int where "SYS_faccessat \<equiv> 269"
abbreviation (input) SYS_ppoll :: int where "SYS_ppoll \<equiv> 271"
abbreviation (input) SYS_set_robust_list :: int where "SYS_set_robust_list \<equiv> 273"
abbreviation (input) SYS_utimensat :: int where "SYS_utimensat \<equiv> 280"
abbreviation (input) SYS_accept4 :: int where "SYS_accept4 \<equiv> 288"
abbreviation (input) SYS_dup3 :: int where "SYS_dup3 \<equiv> 292"
abbreviation (input) SYS_pipe2 :: int where "SYS_pipe2 \<equiv> 293"
abbreviation (input) SYS_prlimit64 :: int where "SYS_prlimit64 \<equiv> 302"
abbreviation (input) SYS_syncfs :: int where "SYS_syncfs \<equiv> 306"
abbreviation (input) SYS_renameat2 :: int where "SYS_renameat2 \<equiv> 316"
abbreviation (input) SYS_getrandom :: int where "SYS_getrandom \<equiv> 318"
abbreviation (input) SYS_memfd_create :: int where "SYS_memfd_create \<equiv> 319"
abbreviation (input) SYS_execveat :: int where "SYS_execveat \<equiv> 322"
abbreviation (input) SYS_statx :: int where "SYS_statx \<equiv> 332"
abbreviation (input) SYS_rseq :: int where "SYS_rseq \<equiv> 334"
abbreviation (input) SYS_clone3 :: int where "SYS_clone3 \<equiv> 435"
abbreviation (input) SYS_close_range :: int where "SYS_close_range \<equiv> 436"
abbreviation (input) SYS_openat2 :: int where "SYS_openat2 \<equiv> 437"
abbreviation (input) SYS_faccessat2 :: int where "SYS_faccessat2 \<equiv> 439"

section \<open>Names\<close>

text \<open>The \<^verbatim>\<open>switch\<close> of \<^verbatim>\<open>syscall_name\<close>, case by case.\<close>

definition syscall_names :: "(int \<times> string) list" where
  "syscall_names =
     [(SYS_read, ''read''),
      (SYS_write, ''write''),
      (SYS_open, ''open''),
      (SYS_close, ''close''),
      (SYS_fstat, ''fstat''),
      (SYS_lseek, ''lseek''),
      (SYS_mmap, ''mmap''),
      (SYS_mprotect, ''mprotect''),
      (SYS_munmap, ''munmap''),
      (SYS_brk, ''brk''),
      (SYS_ioctl, ''ioctl''),
      (SYS_readv, ''readv''),
      (SYS_writev, ''writev''),
      (SYS_access, ''access''),
      (SYS_sched_yield, ''sched_yield''),
      (SYS_dup, ''dup''),
      (SYS_dup2, ''dup2''),
      (SYS_nanosleep, ''nanosleep''),
      (SYS_getpid, ''getpid''),
      (SYS_socket, ''socket''),
      (SYS_connect, ''connect''),
      (SYS_accept, ''accept''),
      (SYS_accept4, ''accept4''),
      (SYS_sendto, ''sendto''),
      (SYS_recvfrom, ''recvfrom''),
      (SYS_bind, ''bind''),
      (SYS_listen, ''listen''),
      (SYS_clone, ''clone''),
      (SYS_clone3, ''clone3''),
      (SYS_fork, ''fork''),
      (SYS_vfork, ''vfork''),
      (SYS_execve, ''execve''),
      (SYS_execveat, ''execveat''),
      (SYS_exit, ''exit''),
      (SYS_exit_group, ''exit_group''),
      (SYS_wait4, ''wait4''),
      (SYS_kill, ''kill''),
      (SYS_uname, ''uname''),
      (SYS_fcntl, ''fcntl''),
      (SYS_fsync, ''fsync''),
      (SYS_fdatasync, ''fdatasync''),
      (SYS_getcwd, ''getcwd''),
      (SYS_chdir, ''chdir''),
      (SYS_fchdir, ''fchdir''),
      (SYS_rename, ''rename''),
      (SYS_renameat, ''renameat''),
      (SYS_renameat2, ''renameat2''),
      (SYS_mkdir, ''mkdir''),
      (SYS_mkdirat, ''mkdirat''),
      (SYS_rmdir, ''rmdir''),
      (SYS_link, ''link''),
      (SYS_unlink, ''unlink''),
      (SYS_unlinkat, ''unlinkat''),
      (SYS_symlink, ''symlink''),
      (SYS_readlink, ''readlink''),
      (SYS_chmod, ''chmod''),
      (SYS_fchmod, ''fchmod''),
      (SYS_chown, ''chown''),
      (SYS_fchown, ''fchown''),
      (SYS_umask, ''umask''),
      (SYS_getuid, ''getuid''),
      (SYS_getgid, ''getgid''),
      (SYS_geteuid, ''geteuid''),
      (SYS_getegid, ''getegid''),
      (SYS_getppid, ''getppid''),
      (SYS_arch_prctl, ''arch_prctl''),
      (SYS_set_tid_address, ''set_tid_address''),
      (SYS_openat, ''openat''),
      (SYS_openat2, ''openat2''),
      (SYS_newfstatat, ''newfstatat''),
      (SYS_statx, ''statx''),
      (SYS_set_robust_list, ''set_robust_list''),
      (SYS_prlimit64, ''prlimit64''),
      (SYS_getrandom, ''getrandom''),
      (SYS_memfd_create, ''memfd_create''),
      (SYS_rseq, ''rseq''),
      (SYS_close_range, ''close_range'')]"

definition syscall_name :: "int \<Rightarrow> string" where
  "syscall_name n = (case map_of syscall_names n of Some name \<Rightarrow> name | None \<Rightarrow> ''unknown'')"

section \<open>Registers\<close>

text \<open>The fields of \<^verbatim>\<open>user_regs_struct\<close> the tracer reads.\<close>

record user_regs =
  orig_rax :: "64 word"
  rax :: "64 word"
  rdi :: "64 word"
  rsi :: "64 word"
  rdx :: "64 word"
  r10 :: "64 word"
  r8 :: "64 word"
  r9 :: "64 word"

record syscall_frame =
  frame_number :: int
  frame_arguments :: "64 word list"
  frame_result :: int

definition decode_registers :: "user_regs \<Rightarrow> syscall_frame" where
  "decode_registers registers =
     \<lparr>frame_number = to_long (orig_rax registers),
      frame_arguments = [rdi registers, rsi registers, rdx registers,
                         r10 registers, r8 registers, r9 registers],
      frame_result = to_long (rax registers)\<rparr>"

lemma decode_registers_simps [simp]:
  "frame_number (decode_registers r) = to_long (orig_rax r)"
  "frame_result (decode_registers r) = to_long (rax r)"
  by (simp_all add: decode_registers_def)

section \<open>The name table is a bijection onto the names it lists\<close>

lemma syscall_numbers_distinct: "distinct (map fst syscall_names)"
  by (simp add: syscall_names_def)

lemma syscall_names_distinct: "distinct (map snd syscall_names)"
  by (simp add: syscall_names_def)

lemma unknown_not_listed: "''unknown'' \<notin> set (map snd syscall_names)"
  by (simp add: syscall_names_def)

lemma map_of_snd_inject:
  assumes "distinct (map snd t)" "map_of t a = Some v" "map_of t b = Some v"
  shows "a = b"
proof -
  from assms(2,3) have "(a, v) \<in> set t" "(b, v) \<in> set t" by (simp_all add: map_of_SomeD)
  with assms(1) show ?thesis by (simp add: eq_snd_iff distinct_map inj_on_def) fastforce
qed

lemma syscall_name_inject:
  assumes "syscall_name m = syscall_name n" "syscall_name m \<noteq> ''unknown''"
  shows "m = n"
proof -
  from assms obtain v where "map_of syscall_names m = Some v" "map_of syscall_names n = Some v"
    by (auto simp: syscall_name_def split: option.splits)
  then show ?thesis by (rule map_of_snd_inject [OF syscall_names_distinct])
qed

end
