(* ===== verification/Fs_Path.thy ===== *)
theory Fs_Path
  imports Execell_Prelude
begin

text \<open>
  The operations of \<^verbatim>\<open>std::filesystem::path\<close> the sources use, on the POSIX
  representation of a path as its native string: \<^verbatim>\<open>is_absolute\<close>, \<^verbatim>\<open>operator/\<close>,
  \<^verbatim>\<open>filename\<close> and \<^verbatim>\<open>lexically_normal\<close> (the normal form of the C++ standard's
  [fs.path.generic]: separators collapse, dot elements vanish, a name followed by dot-dot
  vanishes, dot-dot right below the root vanishes, and what ends in an elided element keeps a
  trailing separator).
\<close>

section \<open>Operations\<close>

definition is_absolute :: "string \<Rightarrow> bool" where
  "is_absolute p \<longleftrightarrow> (case p of [] \<Rightarrow> False | c # _ \<Rightarrow> c = CHR ''/'')"

definition has_filename :: "string \<Rightarrow> bool" where
  "has_filename p \<longleftrightarrow> p \<noteq> [] \<and> last p \<noteq> CHR ''/''"

definition path_append :: "string \<Rightarrow> string \<Rightarrow> string" where
  "path_append base p =
     (if is_absolute p then p
      else if has_filename base then base @ CHR ''/'' # p
      else base @ p)"

definition path_filename :: "string \<Rightarrow> string" where
  "path_filename p = last (split_on CHR ''/'' p)"

text \<open>One element of the path against the reversed list of the elements kept so far.\<close>

definition norm_step :: "bool \<Rightarrow> string list \<Rightarrow> string \<Rightarrow> string list" where
  "norm_step absolute kept c =
     (if c = [] \<or> c = ''.'' then kept
      else if c = ''..'' then
        (case kept of
           [] \<Rightarrow> if absolute then [] else [''..'']
         | t # ts \<Rightarrow> if t = ''..'' then ''..'' # kept else ts)
      else c # kept)"

definition norm_components :: "bool \<Rightarrow> string list \<Rightarrow> string list" where
  "norm_components absolute cs = rev (foldl (norm_step absolute) [] cs)"

definition lexically_normal :: "string \<Rightarrow> string" where
  "lexically_normal p =
     (if p = [] then []
      else
        let absolute = is_absolute p;
            cs = split_on CHR ''/'' p;
            kept = norm_components absolute cs
        in if kept = [] then (if absolute then ''/'' else ''.'')
           else (if absolute then ''/'' else []) @ join_with CHR ''/'' kept @
                (if last cs \<in> {[], ''.'', ''..''} \<and> last kept \<noteq> ''..'' then ''/'' else []))"

section \<open>Normal forms of absolute paths\<close>

definition plain_component :: "string \<Rightarrow> bool" where
  "plain_component c \<longleftrightarrow> c \<noteq> [] \<and> c \<noteq> ''.'' \<and> c \<noteq> ''..'' \<and> CHR ''/'' \<notin> set c"

lemma norm_step_absolute_plain:
  "\<forall>k \<in> set kept. plain_component k \<Longrightarrow> CHR ''/'' \<notin> set c \<Longrightarrow>
     \<forall>k \<in> set (norm_step True kept c). plain_component k"
proof -
  assume kept: "\<forall>k \<in> set kept. plain_component k" and sep: "CHR ''/'' \<notin> set c"
  consider (skip) "c = [] \<or> c = ''.''" | (up) "c = ''..''" | (name) "plain_component c"
    using sep unfolding plain_component_def by blast
  then show ?thesis
  proof cases
    case up
    with kept show ?thesis by (cases kept) (simp_all add: norm_step_def plain_component_def)
  qed (use kept in \<open>auto simp: norm_step_def plain_component_def\<close>)
qed

lemma foldl_norm_step_plain:
  "\<forall>k \<in> set kept. plain_component k \<Longrightarrow> \<forall>c \<in> set cs. CHR ''/'' \<notin> set c \<Longrightarrow>
     \<forall>k \<in> set (foldl (norm_step True) kept cs). plain_component k"
proof (induction cs arbitrary: kept)
  case (Cons c cs)
  then show ?case by (metis foldl_Cons list.set_intros norm_step_absolute_plain)
qed simp

lemma norm_components_absolute_plain:
  "k \<in> set (norm_components True (split_on CHR ''/'' p)) \<Longrightarrow> plain_component k"
  using foldl_norm_step_plain [of "[]" "split_on CHR ''/'' p"] split_on_components
  by (fastforce simp: norm_components_def)

text \<open>Names without dots pass through unchanged.\<close>

lemma foldl_norm_step_names:
  "\<forall>c \<in> set cs. plain_component c \<Longrightarrow> foldl (norm_step a) kept cs = rev cs @ kept"
  by (induction cs arbitrary: kept) (auto simp: norm_step_def plain_component_def)

lemma norm_step_empty [simp]: "norm_step a kept [] = kept"
  by (simp add: norm_step_def)

lemma split_on_absolute: "split_on CHR ''/'' (CHR ''/'' # p) = [] # split_on CHR ''/'' p"
  by simp

text \<open>The elements of the normal form of an absolute path are names, never dots.\<close>

lemma split_join_trailing:
  "cs \<noteq> [] \<Longrightarrow> \<forall>c \<in> set cs. sep \<notin> set c \<Longrightarrow>
     split_on sep (join_with sep cs @ [sep]) = cs @ [[]]"
  by (induction sep cs rule: join_with.induct) (auto simp: split_on_append_sep)

lemma lexically_normal_absolute:
  assumes "is_absolute p"
  obtains cs where "\<forall>c \<in> set cs. plain_component c"
    and "lexically_normal p = CHR ''/'' # join_with CHR ''/'' cs \<or>
         lexically_normal p = CHR ''/'' # join_with CHR ''/'' cs @ ''/''"
proof
  let ?cs = "norm_components True (split_on CHR ''/'' p)"
  from assms have "p \<noteq> []" by (auto simp: is_absolute_def)
  with assms show "lexically_normal p = CHR ''/'' # join_with CHR ''/'' ?cs \<or>
         lexically_normal p = CHR ''/'' # join_with CHR ''/'' ?cs @ ''/''"
    by (auto simp: lexically_normal_def Let_def)
  show "\<forall>c \<in> set ?cs. plain_component c"
    by (blast intro: norm_components_absolute_plain)
qed

lemma lexically_normal_is_absolute: "is_absolute p \<Longrightarrow> is_absolute (lexically_normal p)"
  by (erule lexically_normal_absolute) (auto simp: is_absolute_def)

lemma lexically_normal_no_dotdot:
  assumes "is_absolute p" "c \<in> set (split_on CHR ''/'' (lexically_normal p))"
  shows "c \<noteq> ''.'' \<and> c \<noteq> ''..''"
proof -
  obtain cs where plain: "\<forall>c \<in> set cs. plain_component c"
    and eq: "lexically_normal p = CHR ''/'' # join_with CHR ''/'' cs \<or>
      lexically_normal p = CHR ''/'' # join_with CHR ''/'' cs @ ''/''"
    using assms(1) by (rule lexically_normal_absolute)
  have sep: "\<forall>c \<in> set cs. CHR ''/'' \<notin> set c"
    using plain by (auto simp: plain_component_def)
  have "set (split_on CHR ''/'' (lexically_normal p)) \<subseteq> insert [] (set cs)"
  proof (cases "cs = []")
    case True
    with eq show ?thesis by auto
  next
    case False
    with eq split_join [OF False sep] split_join_trailing [OF False sep] show ?thesis by auto
  qed
  with assms(2) plain show ?thesis by (auto simp: plain_component_def)
qed

section \<open>Appending a relative path that never climbs\<close>

definition skipped_component :: "string \<Rightarrow> bool" where
  "skipped_component c \<longleftrightarrow> c = [] \<or> c = ''.''"

lemma foldl_norm_step_no_climb:
  "''..'' \<notin> set cs \<Longrightarrow>
     foldl (norm_step a) kept cs = rev (filter (\<lambda>c. \<not> skipped_component c) cs) @ kept"
  by (induction cs arbitrary: kept) (auto simp: norm_step_def skipped_component_def)

lemma split_on_append:
  "split_on sep (p @ sep # q) = split_on sep p @ split_on sep q"
  by (induction p) auto

lemma norm_components_append:
  "''..'' \<notin> set (split_on CHR ''/'' q) \<Longrightarrow>
     norm_components a (split_on CHR ''/'' (p @ CHR ''/'' # q)) =
     norm_components a (split_on CHR ''/'' p) @
       filter (\<lambda>c. \<not> skipped_component c) (split_on CHR ''/'' q)"
  by (simp add: norm_components_def split_on_append foldl_norm_step_no_climb)

lemma join_with_append:
  "cs \<noteq> [] \<Longrightarrow> ds \<noteq> [] \<Longrightarrow> join_with sep (cs @ ds) = join_with sep cs @ sep # join_with sep ds"
  by (induction sep cs rule: join_with.induct) (auto simp: join_with_Cons)

lemma lexically_normal_kept:
  assumes "is_absolute p" "norm_components True (split_on CHR ''/'' p) = kept" "kept \<noteq> []"
  obtains tail where "lexically_normal p = CHR ''/'' # join_with CHR ''/'' kept @ tail"
proof
  have "p \<noteq> []" using assms(1) by (auto simp: is_absolute_def)
  then show "lexically_normal p = CHR ''/'' # join_with CHR ''/'' kept @
      (if last (split_on CHR ''/'' p) \<in> {[], ''.'', ''..''} \<and> last kept \<noteq> ''..'' then ''/'' else [])"
    using assms by (simp add: lexically_normal_def Let_def)
qed

end
