(* ===== verification/Syscall_Decoder.thy ===== *)
theory Syscall_Decoder
  imports Event_Model Fd_Table Trace_Memory Syscall_Table Fs_Path
begin

text \<open>
  The system-call decoder of a traced task (\<^verbatim>\<open>src/trace/syscall_decoder.cpp\<close>): at a
  syscall-entry stop it records the arguments it will need, at the matching exit stop it turns
  the result into an event and updates the task's descriptor table. The decoder's members are
  a record; \<^verbatim>\<open>fd_table_\<close>, a reference into the task, is passed and returned.

  What the decoder asks of the outside is a parameter record: the kernel's
  \<^verbatim>\<open>PTRACE_PEEKDATA\<close>, the C library's \<^verbatim>\<open>inet_ntop\<close>, and the bytes that happen to follow
  the local \<^verbatim>\<open>sockaddr_storage\<close> on the stack, which \<^verbatim>\<open>std::string{sun_path}\<close> reads
  when the copied socket path is not terminated.
\<close>

section \<open>Environment and helpers\<close>

record decoder_env =
  env_peek :: peekdata
  env_inet_ntop :: "int \<Rightarrow> char list \<Rightarrow> string option"
  env_beyond_storage :: "char list"

abbreviation (input) AT_FDCWD :: int where "AT_FDCWD \<equiv> - 100"
abbreviation (input) AF_UNIX :: nat where "AF_UNIX \<equiv> 1"
abbreviation (input) AF_INET :: nat where "AF_INET \<equiv> 2"
abbreviation (input) AF_INET6 :: nat where "AF_INET6 \<equiv> 10"
abbreviation (input) F_DUPFD :: "64 word" where "F_DUPFD \<equiv> 0"
abbreviation (input) F_DUPFD_CLOEXEC :: "64 word" where "F_DUPFD_CLOEXEC \<equiv> 1030"

definition read_process_string :: "decoder_env \<Rightarrow> int \<Rightarrow> 64 word \<Rightarrow> string" where
  "read_process_string env pid address =
     mr_value (read_process_memory_string (env_peek env) pid address)"

definition resolve_path :: "int \<Rightarrow> int \<Rightarrow> string \<Rightarrow> string" where
  "resolve_path pid dirfd path =
     (if path = [] \<or> hd path = CHR ''/'' then path
      else
        (let base = (if dirfd = AT_FDCWD then ''/proc/'' @ dec_int pid @ ''/cwd''
                     else ''/proc/'' @ dec_int pid @ ''/fd/'' @ dec_int dirfd)
         in lexically_normal (path_append base path)))"

text \<open>\<^verbatim>\<open>sockaddr_storage\<close> is 128 zeroed bytes; the loop copies the tracee's bytes into it word
  by word, and gives up with an empty string when a word cannot be read.\<close>

abbreviation storage_size :: nat where "storage_size \<equiv> 128"

function read_storage ::
  "decoder_env \<Rightarrow> int \<Rightarrow> 64 word \<Rightarrow> nat \<Rightarrow> nat \<Rightarrow> char list \<Rightarrow> char list option" where
  "read_storage env pid address limit offset storage =
     (if offset < limit then
        (let w = env_peek env pid (address + word_of_nat offset)
         in if peek_failed w then None
            else
              (let copy_size = min 8 (limit - offset)
               in read_storage env pid address limit (offset + 8)
                    (take offset storage @ take copy_size (word_bytes (fst w)) @
                     drop (offset + copy_size) storage)))
      else Some storage)"
  by pat_completeness auto
termination
  by (relation "measure (\<lambda>(env, pid, address, limit, offset, storage). limit - offset)") auto

declare read_storage.simps [simp del]

definition byte_at :: "char list \<Rightarrow> nat \<Rightarrow> nat" where
  "byte_at storage i = (if i < length storage then of_char (storage ! i) else 0)"

definition read_endpoint :: "decoder_env \<Rightarrow> int \<Rightarrow> 64 word \<Rightarrow> 64 word \<Rightarrow> string" where
  "read_endpoint env pid address len =
     (let limit = min (unat len) storage_size
      in case read_storage env pid address limit 0 (replicate storage_size NUL) of
           None \<Rightarrow> []
         | Some storage \<Rightarrow>
             (let family = byte_at storage 0 + 256 * byte_at storage 1;
                  port = 256 * byte_at storage 2 + byte_at storage 3
              in if family = AF_INET then
                   (case env_inet_ntop env 2 (take 4 (drop 4 storage)) of
                      None \<Rightarrow> []
                    | Some buffer \<Rightarrow> buffer @ '':'' @ dec_nat port)
                 else if family = AF_INET6 then
                   (case env_inet_ntop env 10 (take 16 (drop 8 storage)) of
                      None \<Rightarrow> []
                    | Some buffer \<Rightarrow> ''['' @ buffer @ '']:'' @ dec_nat port)
                 else if family = AF_UNIX then
                   takeWhile (\<lambda>c. c \<noteq> NUL) (drop 2 storage @ env_beyond_storage env)
                 else ''family='' @ dec_nat family))"

section \<open>The decoder\<close>

record syscall_decoder =
  current_syscall :: int
  pending_path :: string
  pending_path_two :: string
  pending_endpoint :: string
  pending_socket_domain :: int
  pending_socket_type :: int
  pending_socket_protocol :: int
  pending_mode :: "32 word"
  pending_fd :: int
  pending_dirfd :: int
  pending_target_fd :: int
  pending_close_range_end :: "32 word"

definition initial_decoder :: syscall_decoder where
  "initial_decoder =
     \<lparr>current_syscall = - 1, pending_path = [], pending_path_two = [], pending_endpoint = [],
      pending_socket_domain = 0, pending_socket_type = 0, pending_socket_protocol = 0,
      pending_mode = 0, pending_fd = - 1, pending_dirfd = - 100, pending_target_fd = - 1,
      pending_close_range_end = 0\<rparr>"

text \<open>The assignments at the head of \<^verbatim>\<open>on_entry\<close>.\<close>

definition clear_pending :: "int \<Rightarrow> syscall_decoder \<Rightarrow> syscall_decoder" where
  "clear_pending number d =
     d\<lparr>current_syscall := number, pending_path := [], pending_path_two := [],
       pending_endpoint := [], pending_fd := - 1, pending_target_fd := - 1,
       pending_close_range_end := 0, pending_dirfd := AT_FDCWD, pending_socket_domain := 0,
       pending_socket_type := 0, pending_socket_protocol := 0, pending_mode := 0\<rparr>"

text \<open>The branches of \<^verbatim>\<open>on_entry\<close> from \<^verbatim>\<open>chmod\<close> on, with the pending fields cleared.\<close>

definition on_entry_attributes ::
  "decoder_env \<Rightarrow> int \<Rightarrow> user_regs \<Rightarrow> syscall_decoder \<Rightarrow> event option \<times> syscall_decoder" where
  "on_entry_attributes env pid registers d =
     (let syscall = current_syscall d;
          rs = read_process_string env pid
      in
      if syscall = SYS_chmod then
        (None, d\<lparr>pending_path := rs (rdi registers),
                 pending_mode := to_unsigned (rsi registers)\<rparr>)
      else if syscall = SYS_fchmod then
        (None, d\<lparr>pending_fd := to_int (rdi registers),
                 pending_mode := to_unsigned (rsi registers)\<rparr>)
      else if syscall = SYS_fcntl \<and>
              (rsi registers = F_DUPFD \<or> rsi registers = F_DUPFD_CLOEXEC) then
        (None, d\<lparr>pending_fd := to_int (rdi registers)\<rparr>)
      else if syscall = SYS_fchmodat then
        (None, d\<lparr>pending_path := resolve_path pid (to_int (rdi registers)) (rs (rsi registers)),
                 pending_mode := to_unsigned (rdx registers)\<rparr>)
      else if syscall = SYS_close_range then
        (None, d\<lparr>pending_fd := to_int (rdi registers),
                 pending_close_range_end := to_unsigned (rsi registers)\<rparr>)
      else if syscall = SYS_execve then
        (let path = rs (rdi registers)
         in (Some (ProcessExec pid path empty_context), d\<lparr>pending_path := path\<rparr>))
      else if syscall = SYS_read \<or> syscall = SYS_write \<or> syscall = SYS_close \<or>
              syscall = SYS_pread64 \<or> syscall = SYS_pwrite64 \<or>
              syscall = SYS_readv \<or> syscall = SYS_writev then
        (None, d\<lparr>pending_fd := to_int (rdi registers)\<rparr>)
      else (None, d))"

definition on_entry ::
  "decoder_env \<Rightarrow> int \<Rightarrow> user_regs \<Rightarrow> syscall_decoder \<Rightarrow> event option \<times> syscall_decoder" where
  "on_entry env pid registers d0 =
     (let frame = decode_registers registers;
          d = clear_pending (frame_number frame) d0;
          syscall = current_syscall d;
          rs = read_process_string env pid
      in
      if syscall = SYS_socket then
        (None, d\<lparr>pending_socket_domain := to_int (rdi registers),
                 pending_socket_type := to_int (rsi registers),
                 pending_socket_protocol := to_int (rdx registers)\<rparr>)
      else if syscall = SYS_connect \<or> syscall = SYS_bind then
        (None, d\<lparr>pending_fd := to_int (rdi registers),
                 pending_endpoint := read_endpoint env pid (rsi registers) (rdx registers)\<rparr>)
      else if syscall = SYS_listen then
        (None, d\<lparr>pending_fd := to_int (rdi registers),
                 pending_target_fd := to_int (rsi registers)\<rparr>)
      else if syscall = SYS_accept \<or> syscall = SYS_accept4 then
        (None, d\<lparr>pending_fd := to_int (rdi registers),
                 pending_endpoint :=
                   (if rsi registers \<noteq> 0 \<and> rdx registers \<noteq> 0
                    then read_endpoint env pid (rsi registers) (rdx registers) else [])\<rparr>)
      else if syscall = SYS_dup \<or> syscall = SYS_dup2 \<or> syscall = SYS_dup3 then
        (None, d\<lparr>pending_fd := to_int (rdi registers),
                 pending_target_fd := to_int (rsi registers)\<rparr>)
      else if syscall = SYS_openat \<or> syscall = SYS_open \<or> syscall = SYS_openat2 then
        (let address = (if syscall = SYS_open then rdi registers else rsi registers)
         in (None, d\<lparr>pending_path :=
               resolve_path pid (if syscall = SYS_open then AT_FDCWD else to_int (rdi registers))
                 (rs address)\<rparr>))
      else if syscall = SYS_rename \<or> syscall = SYS_renameat2 then
        (None, d\<lparr>pending_path := resolve_path pid AT_FDCWD (rs (rdi registers)),
                 pending_path_two := resolve_path pid AT_FDCWD (rs (rsi registers))\<rparr>)
      else if syscall = SYS_renameat \<or> syscall = SYS_renameat2 then
        (None, d\<lparr>pending_path := resolve_path pid (to_int (rdi registers)) (rs (rsi registers)),
                 pending_path_two :=
                   resolve_path pid (to_int (rdi registers)) (rs (rdx registers))\<rparr>)
      else if syscall = SYS_unlink then
        (None, d\<lparr>pending_path := resolve_path pid AT_FDCWD (rs (rdi registers))\<rparr>)
      else if syscall = SYS_unlinkat then
        (None, d\<lparr>pending_path := resolve_path pid (to_int (rdi registers)) (rs (rsi registers))\<rparr>)
      else if syscall = SYS_mkdir then
        (None, d\<lparr>pending_path := resolve_path pid AT_FDCWD (rs (rdi registers)),
                 pending_fd := to_int (rsi registers)\<rparr>)
      else if syscall = SYS_mkdirat then
        (None, d\<lparr>pending_path := resolve_path pid (to_int (rdi registers)) (rs (rsi registers)),
                 pending_fd := to_int (rdx registers)\<rparr>)
      else on_entry_attributes env pid registers d)"

text \<open>The branches of \<^verbatim>\<open>on_exit\<close> from the reported failures on.\<close>

definition on_exit_io :: "int \<Rightarrow> int \<Rightarrow> syscall_decoder \<Rightarrow> fd_table \<Rightarrow> event option \<times> fd_table" where
  "on_exit_io pid result d t =
     (let syscall = current_syscall d;
          ctx = empty_context
      in
      if result < 0 \<and>
              (syscall = SYS_openat \<or> syscall = SYS_read \<or> syscall = SYS_write \<or>
               syscall = SYS_close \<or> syscall = SYS_connect \<or> syscall = SYS_bind) then
        (Some (SyscallFailed pid (syscall_name syscall) (long_to_int (- result)) ctx), t)
      else if (syscall = SYS_dup \<or> syscall = SYS_dup2 \<or> syscall = SYS_dup3) \<and> result \<ge> 0 then
        (None, duplicate (pending_fd d) (long_to_int result) t)
      else if (syscall = SYS_read \<or> syscall = SYS_pread64 \<or> syscall = SYS_readv) \<and>
              result \<ge> 0 then
        (case fd_lookup t (pending_fd d) of
           None \<Rightarrow> (None, t)
         | Some path \<Rightarrow> (Some (FileRead (pending_fd d) path (word_of_int result) ctx), t))
      else if (syscall = SYS_write \<or> syscall = SYS_pwrite64 \<or> syscall = SYS_writev) \<and>
              result \<ge> 0 then
        (case fd_lookup t (pending_fd d) of
           None \<Rightarrow> (None, t)
         | Some path \<Rightarrow> (Some (FileWritten (pending_fd d) path (word_of_int result) ctx), t))
      else if syscall = SYS_close \<and> result = 0 then
        (case fd_lookup t (pending_fd d) of
           None \<Rightarrow> (None, t)
         | Some path \<Rightarrow>
             (Some (FileClosed (pending_fd d) path ctx), fd_close (pending_fd d) t))
      else (None, t))"

definition on_exit ::
  "int \<Rightarrow> user_regs \<Rightarrow> syscall_decoder \<Rightarrow> fd_table \<Rightarrow> event option \<times> fd_table" where
  "on_exit pid registers d t =
     (let result = frame_result (decode_registers registers);
          syscall = current_syscall d;
          ctx = empty_context
      in
      if syscall = SYS_socket \<and> result \<ge> 0 then
        (Some (SocketCreated (long_to_int result) (pending_socket_domain d)
                 (pending_socket_type d) (pending_socket_protocol d) ctx), t)
      else if syscall = SYS_connect \<and> result = 0 then
        (Some (NetworkConnected (pending_fd d) (pending_endpoint d) ctx), t)
      else if syscall = SYS_bind \<and> result = 0 then
        (Some (NetworkBound (pending_fd d) (pending_endpoint d) ctx), t)
      else if syscall = SYS_listen \<and> result = 0 then
        (Some (NetworkListening (pending_fd d) (pending_target_fd d) ctx), t)
      else if (syscall = SYS_accept \<or> syscall = SYS_accept4) \<and> result \<ge> 0 then
        (Some (NetworkAccepted (long_to_int result) (pending_endpoint d) ctx), t)
      else if (syscall = SYS_openat \<or> syscall = SYS_open \<or> syscall = SYS_openat2) \<and>
              result \<ge> 0 then
        (let fd = long_to_int result
         in (Some (FileOpened fd (pending_path d) ctx), track fd (pending_path d) t))
      else if (syscall = SYS_unlink \<or> syscall = SYS_unlinkat) \<and> result = 0 then
        (Some (FileDeleted (pending_path d) ctx), t)
      else if (syscall = SYS_rename \<or> syscall = SYS_renameat \<or> syscall = SYS_renameat2) \<and>
              result = 0 then
        (Some (FileRenamed (pending_path d) (pending_path_two d) ctx), t)
      else if (syscall = SYS_mkdir \<or> syscall = SYS_mkdirat) \<and> result = 0 then
        (Some (DirectoryCreated (pending_path d) ctx), t)
      else if syscall = SYS_chmod \<and> result = 0 then
        (Some (FileModeChanged (pending_path d) (pending_mode d) ctx), t)
      else if syscall = SYS_fchmod \<and> result = 0 \<and> fd_lookup t (pending_fd d) \<noteq> None then
        (map_option (\<lambda>path. FileModeChanged path (pending_mode d) ctx)
           (fd_lookup t (pending_fd d)), t)
      else if syscall = SYS_fchmodat \<and> result = 0 then
        (Some (FileModeChanged (pending_path d) (pending_mode d) ctx), t)
      else if syscall = SYS_fcntl \<and> result \<ge> 0 \<and> pending_fd d \<ge> 0 then
        (None, duplicate (pending_fd d) (long_to_int result) t)
      else if syscall = SYS_close_range \<and> result = 0 then
        (None, close_range (int_to_unsigned (pending_fd d)) (pending_close_range_end d) t)
      else on_exit_io pid result d t)"

section \<open>Frame and invariant lemmas\<close>

lemmas on_entry_unfold = on_entry_def on_entry_attributes_def

lemmas on_exit_unfold = on_exit_def on_exit_io_def

text \<open>Nothing a previous system call left behind reaches the next one.\<close>

lemma clear_pending_forgets: "clear_pending n d = clear_pending n initial_decoder"
  by (cases d) (simp add: clear_pending_def initial_decoder_def)

lemma clear_pending_current [simp]: "current_syscall (clear_pending n d) = n"
  by (simp add: clear_pending_def)

lemma on_entry_current [simp]:
  "current_syscall (snd (on_entry env pid regs d)) = to_long (orig_rax regs)"
  by (simp add: on_entry_unfold Let_def clear_pending_def)

lemma on_entry_event:
  "fst (on_entry env pid regs d) =
     (if to_long (orig_rax regs) = SYS_execve
      then Some (ProcessExec pid (read_process_string env pid (rdi regs)) empty_context)
      else None)"
  by (simp add: on_entry_unfold Let_def)

text \<open>The descriptor table's invariant is kept by every exit stop.\<close>

lemma on_exit_fd_wf: "fd_wf t \<Longrightarrow> fd_wf (snd (on_exit pid regs d t))"
  by (simp add: on_exit_unfold Let_def split: option.splits)

section \<open>The effect on the descriptor table, abstractly\<close>

text \<open>What one completed system call means for the map from descriptors to paths.\<close>

definition fd_effect ::
  "syscall_decoder \<Rightarrow> int \<Rightarrow> (int \<rightharpoonup> string) \<Rightarrow> (int \<rightharpoonup> string)" where
  "fd_effect d result m =
     (let syscall = current_syscall d
      in if syscall \<in> {SYS_openat, SYS_open, SYS_openat2} \<and> result \<ge> 0 then
           m(long_to_int result \<mapsto> pending_path d)
         else if (syscall \<in> {SYS_dup, SYS_dup2, SYS_dup3} \<or>
                  syscall = SYS_fcntl \<and> pending_fd d \<ge> 0) \<and> result \<ge> 0 then
           m(long_to_int result := m (pending_fd d))
         else if syscall = SYS_close_range \<and> result = 0 then
           (\<lambda>f. if int_to_unsigned (pending_fd d) \<le> int_to_unsigned f \<and>
                   int_to_unsigned f \<le> pending_close_range_end d then None else m f)
         else if syscall = SYS_close \<and> result = 0 then m(pending_fd d := None)
         else m)"

lemma on_exit_fd_effect:
  assumes "fd_wf t"
  shows "fd_lookup (snd (on_exit pid regs d t)) =
     fd_effect d (to_long (rax regs)) (fd_lookup t)"
proof (rule ext)
  fix f
  show "fd_lookup (snd (on_exit pid regs d t)) f =
      fd_effect d (to_long (rax regs)) (fd_lookup t) f"
    by (simp add: on_exit_unfold fd_effect_def Let_def fdt.look_tracked [OF assms]
        fdt.look_closed [OF assms] fdt.look_duplicated [OF assms]
        fdt.look_range_closed [OF assms] split: option.splits)
qed

section \<open>Paths reported for relative accesses\<close>

lemma plain_dec_int: "plain_component (dec_int i)"
proof -
  have "CHR ''.'' \<notin> set (dec_int i)" "CHR ''/'' \<notin> set (dec_int i)"
    by (rule dec_int_no_char; simp add: is_digit_def)+
  then show ?thesis by (auto simp: plain_component_def)
qed

definition proc_base :: "int \<Rightarrow> int \<Rightarrow> string list" where
  "proc_base pid dirfd =
     (if dirfd = AT_FDCWD then [''proc'', dec_int pid, ''cwd'']
      else [''proc'', dec_int pid, ''fd'', dec_int dirfd])"

lemma proc_base_plain: "c \<in> set (proc_base pid dirfd) \<Longrightarrow> plain_component c"
  by (auto simp: proc_base_def plain_dec_int split: if_splits) (simp_all add: plain_component_def)

lemma resolve_path_relative:
  assumes "path \<noteq> []" "hd path \<noteq> CHR ''/''"
  shows "resolve_path pid dirfd path =
     lexically_normal (CHR ''/'' # join_with CHR ''/'' (proc_base pid dirfd) @ CHR ''/'' # path)"
proof -
  define base where "base = (if dirfd = AT_FDCWD then ''/proc/'' @ dec_int pid @ ''/cwd''
                     else ''/proc/'' @ dec_int pid @ ''/fd/'' @ dec_int dirfd)"
  have eq: "base = CHR ''/'' # join_with CHR ''/'' (proc_base pid dirfd)"
    by (simp add: base_def proc_base_def)
  have "last (dec_int dirfd) \<in> set (dec_int dirfd)" by simp
  then have "last (dec_int dirfd) \<noteq> CHR ''/''"
    using plain_dec_int [of dirfd] unfolding plain_component_def by metis
  then have "has_filename base" by (simp add: base_def has_filename_def)
  moreover have "\<not> is_absolute path" using assms by (cases path) (auto simp: is_absolute_def)
  ultimately show ?thesis
    using assms unfolding resolve_path_def Let_def base_def [symmetric]
    by (simp add: path_append_def eq)
qed

lemma resolve_path_clean:
  assumes "path \<noteq> []" "hd path \<noteq> CHR ''/''"
  shows "is_absolute (resolve_path pid dirfd path)"
    and "c \<in> set (split_on CHR ''/'' (resolve_path pid dirfd path)) \<Longrightarrow> c \<noteq> ''.'' \<and> c \<noteq> ''..''"
proof -
  let ?p = "CHR ''/'' # join_with CHR ''/'' (proc_base pid dirfd) @ CHR ''/'' # path"
  have abs: "is_absolute ?p" by (simp add: is_absolute_def)
  note eq = resolve_path_relative [OF assms]
  show "is_absolute (resolve_path pid dirfd path)"
    unfolding eq by (rule lexically_normal_is_absolute [OF abs])
  show "c \<in> set (split_on CHR ''/'' (resolve_path pid dirfd path)) \<Longrightarrow> c \<noteq> ''.'' \<and> c \<noteq> ''..''"
    unfolding eq by (rule lexically_normal_no_dotdot [OF abs])
qed

lemma norm_components_proc_base:
  "norm_components True (split_on CHR ''/'' (CHR ''/'' # join_with CHR ''/'' (proc_base pid dirfd)))
   = proc_base pid dirfd"
proof -
  have "split_on CHR ''/'' (join_with CHR ''/'' (proc_base pid dirfd)) = proc_base pid dirfd"
    using proc_base_plain by (intro split_join) (auto simp: proc_base_def plain_component_def)
  moreover have "foldl (norm_step True) [] (proc_base pid dirfd) = rev (proc_base pid dirfd)"
    using foldl_norm_step_names [of "proc_base pid dirfd" True "[]"] proc_base_plain by simp
  ultimately show ?thesis
    by (simp add: norm_components_def)
qed

lemma resolve_path_stays_in_proc:
  assumes "path \<noteq> []" "hd path \<noteq> CHR ''/''" "''..'' \<notin> set (split_on CHR ''/'' path)"
  shows "starts_with (resolve_path pid dirfd path) (''/proc/'' @ dec_int pid @ ''/'')"
proof -
  let ?b = "proc_base pid dirfd"
  let ?rest = "filter (\<lambda>c. \<not> skipped_component c) (split_on CHR ''/'' path)"
  let ?p = "CHR ''/'' # join_with CHR ''/'' ?b @ CHR ''/'' # path"
  have kept: "norm_components True (split_on CHR ''/'' ?p) = ?b @ ?rest"
    using norm_components_append [OF assms(3), of True "CHR ''/'' # join_with CHR ''/'' ?b"]
      norm_components_proc_base by simp
  obtain tail where "lexically_normal ?p = CHR ''/'' # join_with CHR ''/'' (?b @ ?rest) @ tail"
    by (rule lexically_normal_kept [OF _ kept]) (auto simp: is_absolute_def proc_base_def)
  moreover have "\<exists>t. join_with CHR ''/'' (?b @ ?rest) = join_with CHR ''/'' ?b @ t"
    by (cases "?rest = []") (auto simp: join_with_append proc_base_def)
  moreover have "\<exists>t. CHR ''/'' # join_with CHR ''/'' ?b = ''/proc/'' @ dec_int pid @ ''/'' @ t"
    by (simp add: proc_base_def)
  ultimately show ?thesis
    unfolding resolve_path_relative [OF assms(1,2)] starts_with_iff
    by (metis append.assoc append_Cons)
qed

section \<open>Properties\<close>

text \<open>C22. Refinement of the descriptor bookkeeping: at every exit stop the decoder keeps the
  table well formed, and what it does to the table is the effect the system call has on the
  task's descriptors -- a successful open binds the new descriptor to the pending path, the
  duplicating calls copy a binding, close and close-range remove bindings, and nothing else
  changes the table.\<close>

theorem on_exit_tracks_descriptors:
  assumes "fd_wf t"
  shows "fd_wf (snd (on_exit pid regs d t)) \<and>
    fd_lookup (snd (on_exit pid regs d t)) =
      fd_effect d (to_long (rax regs)) (fd_lookup t)"
  using on_exit_fd_wf [OF assms] on_exit_fd_effect [OF assms] by blast

definition sample_regs :: user_regs where
  "sample_regs = \<lparr>orig_rax = 0, rax = 5, rdi = 3, rsi = 0, rdx = 0, r10 = 0, r8 = 0, r9 = 0\<rparr>"

theorem on_exit_tracks_descriptors_witness:
  "fd_wf (track 3 ''/etc/passwd'' fd_empty) \<and>
   fd_lookup (snd (on_exit 42 sample_regs
      (initial_decoder\<lparr>current_syscall := SYS_dup, pending_fd := 3\<rparr>)
      (track 3 ''/etc/passwd'' fd_empty))) 5 = Some ''/etc/passwd''"
proof -
  have wf: "fd_wf (track 3 ''/etc/passwd'' fd_empty)" by simp
  have "to_long (rax sample_regs) = 5" "long_to_int 5 = 5"
    by (simp_all add: to_long_def sample_regs_def long_to_int_id)
  with wf on_exit_tracks_descriptors [OF wf, of 42 sample_regs
      "initial_decoder\<lparr>current_syscall := SYS_dup, pending_fd := 3\<rparr>"]
  show ?thesis by (simp add: fd_effect_def fd_lookup_track)
qed

text \<open>A system call that failed leaves the descriptor table as it was, and the only event it
  can produce is the report of that very failure, with its name and error number.\<close>

theorem on_exit_failure_harmless:
  assumes "to_long (rax regs) < 0"
  shows "snd (on_exit pid regs d t) = t \<and>
    fst (on_exit pid regs d t) \<in>
      {None, Some (SyscallFailed pid (syscall_name (current_syscall d))
                     (long_to_int (- to_long (rax regs))) empty_context)}"
  using assms by (simp add: on_exit_unfold Let_def)

theorem on_exit_failure_harmless_witness:
  "to_long (rax (sample_regs\<lparr>rax := - 2\<rparr>)) < 0 \<and>
   snd (on_exit 42 (sample_regs\<lparr>rax := - 2\<rparr>) (initial_decoder\<lparr>current_syscall := SYS_openat\<rparr>)
     (track 3 ''/etc/passwd'' fd_empty)) = track 3 ''/etc/passwd'' fd_empty"
proof -
  have neg: "to_long (rax (sample_regs\<lparr>rax := - 2\<rparr>)) < 0"
    by (simp add: to_long_def)
  from neg on_exit_failure_harmless [OF neg] show ?thesis by blast
qed

text \<open>What the decoder records at an entry stop depends only on the registers and memory of
  that stop: no argument of an earlier system call, completed or interrupted, survives into the
  next one.\<close>

theorem on_entry_forgets_history:
  "on_entry env pid regs d = on_entry env pid regs d'"
proof -
  have "clear_pending n d = clear_pending n d'" for n
    by (metis clear_pending_forgets)
  then show ?thesis by (simp add: on_entry_unfold)
qed

lemma on_entry_openat:
  "to_long (orig_rax regs) = SYS_openat \<Longrightarrow>
     pending_path (snd (on_entry env pid regs d)) =
       resolve_path pid (to_int (rdi regs)) (read_process_string env pid (rsi regs))"
  by (simp add: on_entry_unfold Let_def)

lemma on_entry_read:
  "to_long (orig_rax regs) = SYS_read \<Longrightarrow>
     pending_fd (snd (on_entry env pid regs d)) = to_int (rdi regs)"
  by (simp add: on_entry_unfold Let_def)

text \<open>C21. End to end: when a task opens a path with \<^verbatim>\<open>openat\<close> and later reads with \<^verbatim>\<open>read\<close> from the
  descriptor the kernel returned (below \<open>2 ^ 31\<close>, as the kernel's are), with no system call in between,
  the read is reported as a read of exactly the path
  that was resolved when the file was opened, with the number of bytes the kernel returned.\<close>

theorem read_after_open_names_path:
  assumes "fd_wf t"
    and "to_long (orig_rax open_entry) = SYS_openat"
    and "0 \<le> to_long (rax open_exit)" and "to_long (rax open_exit) < 2 ^ 31"
    and "to_long (orig_rax read_entry) = SYS_read"
    and "to_int (rdi read_entry) = to_long (rax open_exit)"
    and "0 \<le> to_long (rax read_exit)"
  shows "let d1 = snd (on_entry env pid open_entry d);
             t1 = snd (on_exit pid open_exit d1 t);
             d2 = snd (on_entry env pid read_entry d1);
             path = resolve_path pid (to_int (rdi open_entry))
                      (read_process_string env pid (rsi open_entry))
         in fst (on_exit pid open_exit d1 t) =
              Some (FileOpened (to_long (rax open_exit)) path empty_context) \<and>
            fst (on_exit pid read_exit d2 t1) =
              Some (FileRead (to_long (rax open_exit)) path (rax read_exit) empty_context)"
proof -
  have fd: "long_to_int (to_long (rax open_exit)) = to_long (rax open_exit)"
    using assms(3,4) by (intro long_to_int_id) simp_all
  have bits: "word_of_int (to_long w) = w" for w :: "64 word"
    by (simp add: to_long_def)
  show ?thesis
    unfolding Let_def on_exit_unfold
    using assms(2-7)
    by (simp add: fd on_entry_openat on_entry_read fd_lookup_track bits)
qed

definition silent_env :: decoder_env where
  "silent_env = \<lparr>env_peek = \<lambda>_ _. (- 1, 5), env_inet_ntop = \<lambda>_ _. None, env_beyond_storage = []\<rparr>"

theorem read_after_open_names_path_witness:
  "fst (on_exit 42 (sample_regs\<lparr>rax := 9\<rparr>)
         (snd (on_entry silent_env 42 sample_regs
           (snd (on_entry silent_env 42 (sample_regs\<lparr>orig_rax := 257\<rparr>) initial_decoder))))
         (snd (on_exit 42 (sample_regs\<lparr>rax := 3\<rparr>)
           (snd (on_entry silent_env 42 (sample_regs\<lparr>orig_rax := 257\<rparr>) initial_decoder))
           fd_empty))) =
     Some (FileRead 3 (resolve_path 42 3 (read_process_string silent_env 42 0)) 9 empty_context)"
proof -
  have regs: "to_long 257 = 257" "to_long 3 = 3" "to_long 0 = 0" "to_long 9 = 9" "to_int 3 = 3"
    by (simp_all add: to_long_def to_int_def)
  show ?thesis
    using read_after_open_names_path [of fd_empty "sample_regs\<lparr>orig_rax := 257\<rparr>"
      "sample_regs\<lparr>rax := 3\<rparr>" sample_regs "sample_regs\<lparr>rax := 9\<rparr>" silent_env 42 initial_decoder]
    by (simp add: Let_def sample_regs_def regs)
qed

text \<open>C30. A relative path is reported as an absolute path without dot or dot-dot components, and
  one that never climbs stays below the task's own entry in the process file system.\<close>

theorem resolve_path_confined:
  assumes "path \<noteq> []" "hd path \<noteq> CHR ''/''"
  shows "is_absolute (resolve_path pid dirfd path) \<and>
    ''.'' \<notin> set (split_on CHR ''/'' (resolve_path pid dirfd path)) \<and>
    ''..'' \<notin> set (split_on CHR ''/'' (resolve_path pid dirfd path)) \<and>
    (''..'' \<notin> set (split_on CHR ''/'' path) \<longrightarrow>
      starts_with (resolve_path pid dirfd path) (''/proc/'' @ dec_int pid @ ''/''))"
  using resolve_path_clean [OF assms] resolve_path_stays_in_proc [OF assms] by blast

theorem resolve_path_confined_witness:
  "''data/x'' \<noteq> [] \<and> hd ''data/x'' \<noteq> CHR ''/'' \<and> ''..'' \<notin> set (split_on CHR ''/'' ''data/x'') \<and>
   starts_with (resolve_path 42 AT_FDCWD ''data/x'') (''/proc/'' @ dec_int 42 @ ''/'')"
proof -
  have "''data/x'' \<noteq> []" "hd ''data/x'' \<noteq> CHR ''/''" "''..'' \<notin> set (split_on CHR ''/'' ''data/x'')"
    by simp_all
  with resolve_path_confined [of "''data/x''" 42 AT_FDCWD] show ?thesis by blast
qed

end
