(* ===== verification/Task_Registry.thy ===== *)
theory Task_Registry
  imports Syscall_Decoder
begin

text \<open>
  The registry of traced tasks (\<^verbatim>\<open>include/execell/trace/task_registry.hpp\<close>). A task owns its
  descriptor table and the decoder that refers to it; the registry is a
  \<^verbatim>\<open>std::unordered_map\<close> from process ids to tasks, kept as the association list of its
  elements in iteration order. A pointer returned by \<^verbatim>\<open>find\<close> is used only until the next
  change of the registry, so a change made through it is \<open>task_store\<close>.
\<close>

section \<open>Operations\<close>

datatype syscall_phase = PhaseEntry | PhaseExit | PhaseUnknown

record task =
  task_pid :: int
  task_parent :: int
  task_fds :: fd_table
  task_decoder :: syscall_decoder
  task_phase :: syscall_phase

type_synonym registry = "(int \<times> task) list"

definition new_task :: "int \<Rightarrow> task" where
  "new_task pid = \<lparr>task_pid = pid, task_parent = 0, task_fds = fd_empty,
     task_decoder = initial_decoder, task_phase = PhaseEntry\<rparr>"

definition child_task :: "int \<Rightarrow> int \<Rightarrow> fd_table \<Rightarrow> task" where
  "child_task pid parent inherited = \<lparr>task_pid = pid, task_parent = parent, task_fds = inherited,
     task_decoder = initial_decoder, task_phase = PhaseEntry\<rparr>"

text \<open>\<^verbatim>\<open>emplace\<close> keeps an existing element.\<close>

definition registry_emplace :: "int \<Rightarrow> task \<Rightarrow> registry \<Rightarrow> registry" where
  "registry_emplace pid task tasks =
     (case map_of tasks pid of None \<Rightarrow> (pid, task) # tasks | Some _ \<Rightarrow> tasks)"

definition insert_root :: "int \<Rightarrow> registry \<Rightarrow> registry" where
  "insert_root pid tasks = registry_emplace pid (new_task pid) tasks"

definition insert_child :: "int \<Rightarrow> int \<Rightarrow> fd_table \<Rightarrow> registry \<Rightarrow> registry" where
  "insert_child pid parent inherited tasks =
     registry_emplace pid (child_task pid parent inherited) tasks"

definition find_task :: "registry \<Rightarrow> int \<Rightarrow> task option" where
  "find_task tasks pid = map_of tasks pid"

definition erase_task :: "int \<Rightarrow> registry \<Rightarrow> registry" where
  "erase_task pid tasks = AList.delete pid tasks"

definition registry_empty :: "registry \<Rightarrow> bool" where
  "registry_empty tasks \<longleftrightarrow> tasks = []"

definition first_pid :: "registry \<Rightarrow> int option" where
  "first_pid tasks = (case tasks of [] \<Rightarrow> None | (pid, _) # _ \<Rightarrow> Some pid)"

definition task_store :: "int \<Rightarrow> task \<Rightarrow> registry \<Rightarrow> registry" where
  "task_store pid task tasks = AList.update pid task tasks"

section \<open>The registry invariant\<close>

text \<open>Process ids are distinct, every task is filed under its own id, and every descriptor
  table is well formed.\<close>

definition task_wf :: "int \<Rightarrow> task \<Rightarrow> bool" where
  "task_wf pid task \<longleftrightarrow> task_pid task = pid \<and> fd_wf (task_fds task)"

definition registry_wf :: "registry \<Rightarrow> bool" where
  "registry_wf tasks \<longleftrightarrow>
     distinct (map fst tasks) \<and> (\<forall>(pid, task) \<in> set tasks. task_wf pid task)"

lemma registry_wf_Nil [simp]: "registry_wf []"
  by (simp add: registry_wf_def)

lemma registry_wf_emplace:
  "registry_wf tasks \<Longrightarrow> task_wf pid task \<Longrightarrow> registry_wf (registry_emplace pid task tasks)"
  by (auto simp: registry_wf_def registry_emplace_def map_of_eq_None_iff split: option.splits)

lemma registry_wf_insert_root: "registry_wf tasks \<Longrightarrow> registry_wf (insert_root pid tasks)"
  unfolding insert_root_def
  by (rule registry_wf_emplace) (simp_all add: task_wf_def new_task_def)

lemma registry_wf_insert_child:
  "registry_wf tasks \<Longrightarrow> fd_wf t \<Longrightarrow> registry_wf (insert_child pid parent t tasks)"
  unfolding insert_child_def
  by (rule registry_wf_emplace) (simp_all add: task_wf_def child_task_def)

lemma registry_wf_erase: "registry_wf tasks \<Longrightarrow> registry_wf (erase_task pid tasks)"
  by (auto simp: registry_wf_def erase_task_def AList.delete_eq distinct_map_filter_fst)

lemma registry_wf_store:
  assumes "registry_wf tasks" "task_wf pid task"
  shows "registry_wf (task_store pid task tasks)"
  unfolding registry_wf_def
proof (intro conjI ballI)
  show dist: "distinct (map fst (task_store pid task tasks))"
    using assms(1) by (simp add: registry_wf_def task_store_def distinct_update)
  fix x assume "x \<in> set (task_store pid task tasks)"
  then obtain p t where x: "x = (p, t)" "map_of (task_store pid task tasks) p = Some t"
    using dist by (metis map_of_is_SomeI surj_pair)
  then have "p = pid \<and> t = task \<or> map_of tasks p = Some t"
    by (simp add: task_store_def update_conv' split: if_splits)
  then show "case x of (p, t) \<Rightarrow> task_wf p t"
    using assms x(1) by (auto simp: registry_wf_def dest: map_of_SomeD)
qed

lemma find_task_wf: "registry_wf tasks \<Longrightarrow> find_task tasks pid = Some task \<Longrightarrow> task_wf pid task"
  by (auto simp: registry_wf_def find_task_def dest: map_of_SomeD)

lemmas registry_wf_preserved =
  registry_wf_insert_root registry_wf_insert_child registry_wf_erase registry_wf_store

section \<open>Lookups after changes\<close>

lemma find_task_emplace:
  "find_task (registry_emplace pid task tasks) =
     (find_task tasks)(pid \<mapsto> (case find_task tasks pid of None \<Rightarrow> task | Some t \<Rightarrow> t))"
  by (rule ext) (auto simp: find_task_def registry_emplace_def split: option.splits)

lemma find_task_erase: "find_task (erase_task pid tasks) = (find_task tasks)(pid := None)"
  by (rule ext) (simp add: find_task_def erase_task_def delete_conv')

lemma find_task_store: "find_task (task_store pid task tasks) = (find_task tasks)(pid \<mapsto> task)"
  by (rule ext) (simp add: find_task_def task_store_def update_conv')

text \<open>The registry refines a map from process ids to tasks: inserting keeps a task that is
  already registered and otherwise adds a fresh one in the entry phase (a child starting with a
  copy of its parent's descriptors), erasing removes exactly one id, and a stored task is found.\<close>

theorem registry_refines_map:
  "find_task (insert_root pid tasks) =
     (find_task tasks)(pid \<mapsto> (case find_task tasks pid of None \<Rightarrow> new_task pid | Some t \<Rightarrow> t)) \<and>
   find_task (insert_child pid parent fds tasks) =
     (find_task tasks)(pid \<mapsto>
        (case find_task tasks pid of None \<Rightarrow> child_task pid parent fds | Some t \<Rightarrow> t)) \<and>
   find_task (erase_task pid tasks) = (find_task tasks)(pid := None) \<and>
   find_task (task_store pid task tasks) = (find_task tasks)(pid \<mapsto> task) \<and>
   (registry_empty tasks \<longleftrightarrow> find_task tasks = Map.empty)"
  unfolding insert_root_def insert_child_def find_task_emplace find_task_erase find_task_store
  by (simp add: registry_empty_def find_task_def fun_eq_iff map_of_eq_None_iff)

end
