(* ===== verification/Wait_Status.thy ===== *)
theory Wait_Status
  imports Execell_Prelude
begin

text \<open>
  Classification of the status word \<^verbatim>\<open>waitpid\<close> returns
  (\<^verbatim>\<open>src/trace/stop.cpp\<close>, \<^verbatim>\<open>include/execell/trace/stop.hpp\<close>) and the choice of the
  signal with which a stopped tracee is resumed. The status is a 32-bit word; the macros of
  \<^verbatim>\<open><sys/wait.h>\<close> are written out bit by bit as the C library defines them.
\<close>

section \<open>The C library's macros\<close>

definition WTERMSIG :: "32 word \<Rightarrow> 32 word" where
  "WTERMSIG status = status AND 0x7f"

definition WEXITSTATUS :: "32 word \<Rightarrow> 32 word" where
  "WEXITSTATUS status = drop_bit 8 (status AND 0xff00)"

definition WSTOPSIG :: "32 word \<Rightarrow> 32 word" where
  "WSTOPSIG status = WEXITSTATUS status"

definition WIFEXITED :: "32 word \<Rightarrow> bool" where
  "WIFEXITED status \<longleftrightarrow> WTERMSIG status = 0"

text \<open>\<^verbatim>\<open>((signed char) ((status & 0x7f) + 1) >> 1) > 0\<close>\<close>

definition WIFSIGNALED :: "32 word \<Rightarrow> bool" where
  "WIFSIGNALED status \<longleftrightarrow> sint (ucast ((status AND 0x7f) + 1) :: 8 word) div 2 > 0"

definition WIFSTOPPED :: "32 word \<Rightarrow> bool" where
  "WIFSTOPPED status \<longleftrightarrow> status AND 0xff = 0x7f"

abbreviation (input) SIGKILL :: int where "SIGKILL \<equiv> 9"
abbreviation (input) SIGTRAP :: int where "SIGTRAP \<equiv> 5"
abbreviation (input) SIGSTOP :: int where "SIGSTOP \<equiv> 19"
abbreviation (input) SIGTSTP :: int where "SIGTSTP \<equiv> 20"
abbreviation (input) SIGTTIN :: int where "SIGTTIN \<equiv> 21"
abbreviation (input) SIGTTOU :: int where "SIGTTOU \<equiv> 22"

section \<open>Classification\<close>

datatype stop_kind =
  StopExited | StopSignaled | StopSyscall | StopPtraceEvent | StopSignal | StopGroup | StopUnknown

record stop =
  stop_pid :: int
  raw_status :: "32 word"
  kind :: stop_kind
  signal :: int
  ptrace_event :: "32 word"
  exit_status :: int

definition classify_stop :: "int \<Rightarrow> 32 word \<Rightarrow> stop" where
  "classify_stop pid status =
     (let result = \<lparr>stop_pid = pid, raw_status = status, kind = StopUnknown,
                    signal = 0, ptrace_event = 0, exit_status = 0\<rparr>
      in if WIFEXITED status then
           result\<lparr>kind := StopExited, exit_status := sint (WEXITSTATUS status)\<rparr>
         else if WIFSIGNALED status then
           result\<lparr>kind := StopSignaled, signal := sint (WTERMSIG status)\<rparr>
         else if \<not> WIFSTOPPED status then result
         else
           (let result = result\<lparr>signal := sint (WSTOPSIG status)\<rparr>
            in if signal result = (SIGTRAP OR 0x80) then result\<lparr>kind := StopSyscall\<rparr>
               else if signal result = SIGTRAP \<and> drop_bit 16 status \<noteq> 0 then
                 result\<lparr>kind := StopPtraceEvent, ptrace_event := drop_bit 16 status\<rparr>
               else if signal result = SIGSTOP \<or> signal result = SIGTSTP \<or>
                       signal result = SIGTTIN \<or> signal result = SIGTTOU then
                 result\<lparr>kind := StopGroup\<rparr>
               else result\<lparr>kind := StopSignal\<rparr>))"

definition resume_signal :: "stop \<Rightarrow> int" where
  "resume_signal s =
     (if kind s = StopSignal then (if signal s = SIGTRAP then 0 else signal s) else 0)"

section \<open>The fields of a status word\<close>

lemma WTERMSIG_take_bit: "WTERMSIG s = take_bit 7 s"
  by (simp add: WTERMSIG_def take_bit_eq_mask mask_eq_exp_minus_1)

lemma WEXITSTATUS_take_bit: "WEXITSTATUS s = take_bit 8 (drop_bit 8 s)"
proof -
  have "WEXITSTATUS s = drop_bit 8 (s AND push_bit 8 (mask 8))"
    by (simp add: WEXITSTATUS_def mask_eq_exp_minus_1)
  also have "\<dots> = take_bit 8 (drop_bit 8 s)"
    unfolding take_bit_eq_mask by (auto simp: bit_eq_iff bit_simps simp del: mask_numeral)
  finally show ?thesis .
qed

lemma unat_WTERMSIG: "unat (WTERMSIG s) = unat s mod 128"
  by (simp add: WTERMSIG_take_bit take_bit_eq_mod unat_mod)

lemma unat_WEXITSTATUS: "unat (WEXITSTATUS s) = unat s div 256 mod 256"
  by (simp add: WEXITSTATUS_take_bit take_bit_eq_mod drop_bit_eq_div unat_mod unat_div)

lemma signed_take_bit_31_nat: "n < 2 ^ 31 \<Longrightarrow> signed_take_bit 31 (int n) = int n"
  by (simp add: signed_take_bit_int_eq_self_iff)

lemma sint_small: "unat (w :: 32 word) < 2 ^ 31 \<Longrightarrow> sint w = int (unat w)"
  using signed_take_bit_31_nat [of "unat w"] by (simp add: sint_uint)

lemma sint_WTERMSIG: "sint (WTERMSIG s) = int (unat s mod 128)"
  using sint_small [of "WTERMSIG s"] by (simp add: unat_WTERMSIG)

lemma sint_WEXITSTATUS: "sint (WEXITSTATUS s) = int (unat s div 256 mod 256)"
  using sint_small [of "WEXITSTATUS s"] by (simp add: unat_WEXITSTATUS)

lemma WIFEXITED_iff: "WIFEXITED s \<longleftrightarrow> unat s mod 128 = 0"
  by (metis WIFEXITED_def unat_0 unat_WTERMSIG word_unat_eq_iff)

lemma WIFSTOPPED_iff: "WIFSTOPPED s \<longleftrightarrow> unat s mod 256 = 127"
proof -
  have "s AND 0xff = take_bit 8 s"
    by (simp add: take_bit_eq_mask mask_eq_exp_minus_1)
  then have "unat (s AND 0xff) = unat s mod 256"
    by (simp add: take_bit_eq_mod unat_mod)
  then show ?thesis
    by (simp add: WIFSTOPPED_def word_unat_eq_iff)
qed

lemma WIFSIGNALED_iff: "WIFSIGNALED s \<longleftrightarrow> 0 < unat s mod 128 \<and> unat s mod 128 < 127"
proof -
  define t where "t = unat s mod 128"
  have t: "t < 128" by (simp add: t_def)
  have "s AND 0x7f = word_of_nat t"
    using unat_WTERMSIG [of s] by (simp add: WTERMSIG_def t_def word_unat_eq_iff unat_of_nat)
  then have "(s AND 0x7f) + 1 = word_of_nat (t + 1)" by simp
  then have "(ucast ((s AND 0x7f) + 1) :: 8 word) = word_of_nat (take_bit 32 (t + 1))"
    by (simp only: unsigned_of_nat) simp
  then have "(ucast ((s AND 0x7f) + 1) :: 8 word) = word_of_nat (t + 1)"
    using t by (subst (asm) take_bit_nat_eq_self) auto
  then have "(ucast ((s AND 0x7f) + 1) :: 8 word) = word_of_int (int t + 1)"
    by simp
  then have "sint (ucast ((s AND 0x7f) + 1) :: 8 word) = signed_take_bit 7 (int t + 1)"
    by (simp only: sint_sbintrunc') simp
  then show ?thesis
    unfolding WIFSIGNALED_def using t
    by (cases "t = 127") (auto simp: t_def [symmetric] signed_take_bit_int_eq_self)
qed

section \<open>What the kernel encodes is what the tracer decodes\<close>

text \<open>The four ways the kernel composes a status word (\<^verbatim>\<open>W_EXITCODE\<close>,
  \<^verbatim>\<open>W_STOPCODE\<close> and the event bits of \<^verbatim>\<open>ptrace(2)\<close>), as the specification of
  \<^verbatim>\<open>classify_stop\<close>.\<close>

datatype wait_report =
    Exited nat \<comment> \<open>exit code\<close>
  | Killed nat bool \<comment> \<open>terminating signal, core-dump flag\<close>
  | Stopped nat nat \<comment> \<open>stop signal, ptrace event number\<close>

fun encode_status :: "wait_report \<Rightarrow> 32 word" where
  "encode_status (Exited code) = word_of_nat (code * 256)"
| "encode_status (Killed sig core) = word_of_nat (sig + (if core then 128 else 0))"
| "encode_status (Stopped sig ev) = word_of_nat (ev * 65536 + sig * 256 + 127)"

fun valid_report :: "wait_report \<Rightarrow> bool" where
  "valid_report (Exited code) \<longleftrightarrow> code < 256"
| "valid_report (Killed sig core) \<longleftrightarrow> 0 < sig \<and> sig < 127"
| "valid_report (Stopped sig ev) \<longleftrightarrow> sig < 256 \<and> ev < 65536"

fun report_kind :: "wait_report \<Rightarrow> stop_kind" where
  "report_kind (Exited code) = StopExited"
| "report_kind (Killed sig core) = StopSignaled"
| "report_kind (Stopped sig ev) =
     (if sig = 133 then StopSyscall
      else if sig = 5 \<and> ev \<noteq> 0 then StopPtraceEvent
      else if sig \<in> {19, 20, 21, 22} then StopGroup
      else StopSignal)"

lemma unat_encode_status:
  "valid_report r \<Longrightarrow> unat (encode_status r) =
     (case r of Exited code \<Rightarrow> code * 256
      | Killed sig core \<Rightarrow> sig + (if core then 128 else 0)
      | Stopped sig ev \<Rightarrow> ev * 65536 + sig * 256 + 127)"
  by (cases r) (auto simp: unat_of_nat simp del: of_nat_add of_nat_mult)

lemma drop_bit_16_status: "drop_bit 16 (s :: 32 word) = word_of_nat (unat s div 65536)"
proof -
  have "unat s < 2 ^ LENGTH(32)" by (rule unsigned_less)
  then have "unat s div 65536 < 2 ^ 32" by simp
  then show ?thesis by (simp add: word_unat_eq_iff drop_bit_eq_div unat_div unat_of_nat)
qed

lemma stopped_fields:
  fixes sig ev :: nat
  assumes "sig < 256"
  shows "(ev * 65536 + sig * 256 + 127) mod 128 = 127"
    and "(ev * 65536 + sig * 256 + 127) mod 256 = 127"
    and "(ev * 65536 + sig * 256 + 127) div 256 mod 256 = sig"
    and "(ev * 65536 + sig * 256 + 127) div 65536 = ev"
proof -
  let ?k = "ev * 65536 + sig * 256 + 127"
  have k128: "?k = 127 + 128 * (ev * 512 + sig * 2)"
    and k256: "?k = 127 + 256 * (ev * 256 + sig)"
    and k65536: "?k = (sig * 256 + 127) + 65536 * ev"
    by simp_all
  show "?k mod 128 = 127" unfolding k128 by (subst mod_mult_self2) simp
  show "?k mod 256 = 127" unfolding k256 by (subst mod_mult_self2) simp
  have "?k div 256 = ev * 256 + sig" unfolding k256 by (subst div_mult_self2) simp_all
  then show "?k div 256 mod 256 = sig" using assms by simp
  show "?k div 65536 = ev" unfolding k65536 using assms by (subst div_mult_self2) simp_all
qed

lemma stopped_event_nonzero: "ev < 65536 \<Longrightarrow> (word_of_nat ev :: 32 word) = 0 \<longleftrightarrow> ev = 0"
  by (simp add: word_unat_eq_iff unat_of_nat)

lemmas status_fields =
  WIFEXITED_iff WIFSIGNALED_iff WIFSTOPPED_iff sint_WTERMSIG sint_WEXITSTATUS WSTOPSIG_def
  drop_bit_16_status

lemma classify_encoded:
  assumes "valid_report r"
  shows "classify_stop pid (encode_status r) =
     \<lparr>stop_pid = pid, raw_status = encode_status r, kind = report_kind r,
      signal = (case r of Exited _ \<Rightarrow> 0 | Killed sig _ \<Rightarrow> int sig | Stopped sig _ \<Rightarrow> int sig),
      ptrace_event = (if report_kind r = StopPtraceEvent
                      then (case r of Stopped _ ev \<Rightarrow> word_of_nat ev | _ \<Rightarrow> 0) else 0),
      exit_status = (case r of Exited code \<Rightarrow> int code | _ \<Rightarrow> 0)\<rparr>"
proof (cases r)
  case (Exited code)
  with unat_encode_status [OF assms] assms show ?thesis
    by (simp add: classify_stop_def status_fields)
next
  case (Killed sig core)
  with unat_encode_status [OF assms] assms show ?thesis
    by (cases core) (simp_all add: classify_stop_def status_fields)
next
  case (Stopped sig ev)
  with assms have bounds: "sig < 256" "ev < 65536" by simp_all
  have "unat (encode_status r) = ev * 65536 + sig * 256 + 127"
    using unat_encode_status [OF assms] Stopped by simp
  note fields = status_fields [of "encode_status r"] this stopped_fields [OF bounds(1)]
    stopped_event_nonzero [OF bounds(2)]
  show ?thesis
    unfolding classify_stop_def Let_def fields using Stopped by simp
qed

section \<open>Properties\<close>

text \<open>C32. Every status word the kernel can compose -- an exit, a fatal signal with or without
  a core dump, or a stop with its ptrace event -- is classified as what it encodes, with the
  exit code, signal and event number recovered exactly.\<close>

theorem classify_stop_decodes:
  assumes "valid_report r"
  shows "kind (classify_stop pid (encode_status r)) = report_kind r \<and>
    stop_pid (classify_stop pid (encode_status r)) = pid \<and>
    (case r of
       Exited code \<Rightarrow> exit_status (classify_stop pid (encode_status r)) = int code
     | Killed sig _ \<Rightarrow> signal (classify_stop pid (encode_status r)) = int sig
     | Stopped sig ev \<Rightarrow>
         signal (classify_stop pid (encode_status r)) = int sig \<and>
         (sig = 5 \<and> ev \<noteq> 0 \<longrightarrow> ptrace_event (classify_stop pid (encode_status r)) = word_of_nat ev))"
  unfolding classify_encoded [OF assms] by (simp split: wait_report.splits)

theorem classify_stop_decodes_witness:
  "valid_report (Stopped 5 4) \<and>
   kind (classify_stop 42 (encode_status (Stopped 5 4))) = StopPtraceEvent \<and>
   ptrace_event (classify_stop 42 (encode_status (Stopped 5 4))) = 4"
proof -
  have "valid_report (Stopped 5 4)" by simp
  from this classify_stop_decodes [OF this, of 42] show ?thesis by simp
qed

text \<open>The signal with which a stopped task is resumed: a genuine signal is delivered
  unchanged, while the debugger's own traps and the four job-control stop signals are
  suppressed, and a task that has exited is never signalled.\<close>

theorem resume_signal_delivers:
  assumes "valid_report r"
  shows "resume_signal (classify_stop pid (encode_status r)) =
    (case r of
       Stopped sig ev \<Rightarrow> if sig \<in> {5, 19, 20, 21, 22, 133} then 0 else int sig
     | _ \<Rightarrow> 0)"
  unfolding classify_encoded [OF assms] resume_signal_def
  by (simp split: wait_report.splits)

theorem resume_signal_delivers_witness:
  "valid_report (Stopped 15 0) \<and>
   resume_signal (classify_stop 42 (encode_status (Stopped 15 0))) = 15"
proof -
  have "valid_report (Stopped 15 0)" by simp
  from this resume_signal_delivers [OF this, of 42] show ?thesis by simp
qed

end
