(* ===== verification/Report_Sinks.thy ===== *)
theory Report_Sinks
  imports Event_Model
begin

text \<open>
  The reporters that consume events: the counting summary
  (\<^verbatim>\<open>src/report/summary_reporter.cpp\<close>), the terminal reporter
  (\<^verbatim>\<open>src/report/terminal_reporter.cpp\<close>) and the JSON reporter
  (\<^verbatim>\<open>src/report/json_reporter.cpp\<close>). An output stream is the string written to it so far.
  Each is an instance of the \<open>event_sink\<close> contract.
\<close>

section \<open>Summary\<close>

record summary =
  files_opened :: "64 word"
  files_read :: "64 word"
  files_written :: "64 word"
  processes_spawned :: "64 word"
  network_attempts :: "64 word"
  failures :: "64 word"

definition empty_summary :: summary where
  "empty_summary =
     \<lparr>files_opened = 0, files_read = 0, files_written = 0,
      processes_spawned = 0, network_attempts = 0, failures = 0\<rparr>"

fun summary_report :: "event \<Rightarrow> summary \<Rightarrow> summary" where
  "summary_report (FileOpened _ _ _) s = s\<lparr>files_opened := files_opened s + 1\<rparr>"
| "summary_report (FileRead _ _ _ _) s = s\<lparr>files_read := files_read s + 1\<rparr>"
| "summary_report (FileWritten _ _ _ _) s = s\<lparr>files_written := files_written s + 1\<rparr>"
| "summary_report (ProcessSpawned _ _ _) s = s\<lparr>processes_spawned := processes_spawned s + 1\<rparr>"
| "summary_report (NetworkConnected _ _ _) s = s\<lparr>network_attempts := network_attempts s + 1\<rparr>"
| "summary_report (NetworkBound _ _ _) s = s\<lparr>network_attempts := network_attempts s + 1\<rparr>"
| "summary_report (NetworkAccepted _ _ _) s = s\<lparr>network_attempts := network_attempts s + 1\<rparr>"
| "summary_report (SyscallFailed _ _ _ _) s = s\<lparr>failures := failures s + 1\<rparr>"
| "summary_report _ s = s"

definition newline :: string where
  "newline = [CHR 0x0A]"

definition summary_print :: "summary \<Rightarrow> string" where
  "summary_print s =
     ''ExeCell Inspection Report'' @ newline @
     ''Files opened: '' @ dec_word (files_opened s) @ newline @
     ''Files read: '' @ dec_word (files_read s) @ newline @
     ''Files written: '' @ dec_word (files_written s) @ newline @
     ''Processes spawned: '' @ dec_word (processes_spawned s) @ newline @
     ''Network attempts: '' @ dec_word (network_attempts s) @ newline @
     ''Failures: '' @ dec_word (failures s) @ newline"

interpretation summary_sink: event_sink summary_report default_stop_requested
  by (rule default_event_sink)

section \<open>Terminal\<close>

definition quote :: string where
  "quote = [CHR 0x22]"

fun terminal_line :: "event \<Rightarrow> string" where
  "terminal_line (FileOpened fd path _) =
     ''[FILE] OPEN  '' @ quote @ path @ quote @ '' fd='' @ dec_int fd @ newline"
| "terminal_line (FileRead fd path bytes _) =
     ''[FILE] READ  '' @ quote @ path @ quote @ '' bytes='' @ dec_word bytes @ newline"
| "terminal_line (FileWritten fd path bytes _) =
     ''[FILE] WRITE '' @ quote @ path @ quote @ '' bytes='' @ dec_word bytes @ newline"
| "terminal_line (FileClosed fd path _) =
     ''[FILE] CLOSE '' @ quote @ path @ quote @ '' fd='' @ dec_int fd @ newline"
| "terminal_line (FileDeleted path _) =
     ''[FILE] DELETE '' @ quote @ path @ quote @ newline"
| "terminal_line (FileRenamed from to _) =
     ''[FILE] RENAME '' @ quote @ from @ quote @ '' -> '' @ quote @ to @ quote @ newline"
| "terminal_line (DirectoryCreated path _) =
     ''[FILE] MKDIR  '' @ quote @ path @ quote @ newline"
| "terminal_line (FileModeChanged path mode _) =
     ''[FILE] CHMOD  '' @ quote @ path @ quote @ '' mode='' @ dec_word mode @ newline"
| "terminal_line (SocketCreated fd domain ty protocol _) =
     ''[NET] SOCKET fd='' @ dec_int fd @ '' domain='' @ dec_int domain @ newline"
| "terminal_line (NetworkConnected fd endpoint _) =
     ''[NET] CONNECT '' @ endpoint @ '' fd='' @ dec_int fd @ newline"
| "terminal_line (NetworkBound fd endpoint _) =
     ''[NET] BIND '' @ endpoint @ '' fd='' @ dec_int fd @ newline"
| "terminal_line (NetworkListening fd backlog _) =
     ''[NET] LISTEN fd='' @ dec_int fd @ '' backlog='' @ dec_int backlog @ newline"
| "terminal_line (NetworkAccepted fd endpoint _) =
     ''[NET] ACCEPT '' @ endpoint @ '' fd='' @ dec_int fd @ newline"
| "terminal_line (SyscallFailed pid syscall err _) =
     ''[FAIL] '' @ syscall @ '' errno='' @ dec_int err @ '' pid='' @ dec_int pid @ newline"
| "terminal_line (ProcessSpawned pid parent _) =
     ''[PROC] SPAWN pid='' @ dec_int pid @ '' parent='' @ dec_int parent @ newline"
| "terminal_line (ProcessExec pid path _) =
     ''[PROC] EXEC  '' @ quote @ path @ quote @ '' pid='' @ dec_int pid @ newline"
| "terminal_line (ProcessExited pid status signaled _) =
     ''[PROC] EXIT  pid='' @ dec_int pid @ '' status='' @ dec_int status @
     (if signaled then '' signal'' else []) @ newline"
| "terminal_line (PolicyViolation rule resource _) =
     ''[POLICY] DENY rule='' @ rule @ '' resource='' @ quote @ resource @ quote @ newline"
| "terminal_line (TraceStarted _ _) = []"
| "terminal_line (TraceFinished _ _ _ _) = []"

definition terminal_report :: "event \<Rightarrow> string \<Rightarrow> string" where
  "terminal_report e out = out @ terminal_line e"

interpretation terminal_sink: event_sink terminal_report default_stop_requested
  by (rule default_event_sink)

section \<open>JSON\<close>

text \<open>\<^verbatim>\<open>std::hex\<close> without a field width: no leading zero.\<close>

definition hex_digit :: "nat \<Rightarrow> char" where
  "hex_digit d = (if d < 10 then char_of (48 + d) else char_of (87 + d))"

definition hex_byte :: "nat \<Rightarrow> string" where
  "hex_byte n = (if n < 16 then [hex_digit n] else [hex_digit (n div 16), hex_digit (n mod 16)])"

abbreviation backslash :: char where "backslash \<equiv> CHR 0x5C"
abbreviation dquote :: char where "dquote \<equiv> CHR 0x22"

definition json_char :: "char \<Rightarrow> string" where
  "json_char c =
     (if c = dquote then [backslash, dquote]
      else if c = backslash then [backslash, backslash]
      else if c = CHR 0x0A then [backslash, CHR ''n'']
      else if c = CHR 0x0D then [backslash, CHR ''r'']
      else if c = CHR 0x09 then [backslash, CHR ''t'']
      else if (of_char c :: nat) < 0x20 then backslash # ''u00'' @ hex_byte (of_char c)
      else [c])"

definition write_json_string :: "string \<Rightarrow> string" where
  "write_json_string value = dquote # concat (map json_char value) @ [dquote]"

fun event_type :: "event \<Rightarrow> string" where
  "event_type (FileOpened _ _ _) = ''file.opened''"
| "event_type (FileRead _ _ _ _) = ''file.read''"
| "event_type (FileWritten _ _ _ _) = ''file.written''"
| "event_type (FileClosed _ _ _) = ''file.closed''"
| "event_type (FileDeleted _ _) = ''file.deleted''"
| "event_type (FileRenamed _ _ _) = ''file.renamed''"
| "event_type (DirectoryCreated _ _) = ''directory.created''"
| "event_type (SocketCreated _ _ _ _ _) = ''socket.created''"
| "event_type (NetworkConnected _ _ _) = ''network.connected''"
| "event_type (NetworkBound _ _ _) = ''network.bound''"
| "event_type (NetworkListening _ _ _) = ''network.listening''"
| "event_type (NetworkAccepted _ _ _) = ''network.accepted''"
| "event_type (SyscallFailed _ _ _ _) = ''syscall.failed''"
| "event_type (ProcessSpawned _ _ _) = ''process.spawned''"
| "event_type (ProcessExec _ _ _) = ''process.exec''"
| "event_type (ProcessExited _ _ _ _) = ''process.exited''"
| "event_type (TraceStarted _ _) = ''trace.started''"
| "event_type (TraceFinished _ _ _ _) = ''trace.finished''"
| "event_type (PolicyViolation _ _ _) = ''policy.violation''"
| "event_type (FileModeChanged _ _ _) = ''unknown''"

text \<open>A quoted member name with its separators, \<^verbatim>\<open>,"name":\<close>.\<close>

definition json_key :: "string \<Rightarrow> string" where
  "json_key name = '','' @ quote @ name @ quote @ '':''"

definition json_bool :: "bool \<Rightarrow> string" where
  "json_bool b = (if b then ''true'' else ''false'')"

definition json_object :: "event \<Rightarrow> string" where
  "json_object e =
     ''{'' @ quote @ ''schema_version'' @ quote @ '':1'' @ json_key ''type'' @
     write_json_string (event_type e) @
     json_key ''pid'' @ dec_int (ctx_pid (context_of e)) @
     json_key ''sequence'' @ dec_word (ctx_sequence (context_of e)) @
     (case path_of e of None \<Rightarrow> [] | Some p \<Rightarrow> json_key ''path'' @ write_json_string p) @
     (case bytes_of e of None \<Rightarrow> [] | Some b \<Rightarrow> json_key ''bytes'' @ dec_word b) @
     (case fd_of e of None \<Rightarrow> [] | Some f \<Rightarrow> json_key ''fd'' @ dec_int f) @
     (case mode_of e of None \<Rightarrow> [] | Some m \<Rightarrow> json_key ''mode'' @ dec_word m) @
     (case endpoint_of e of None \<Rightarrow> [] | Some p \<Rightarrow> json_key ''endpoint'' @ write_json_string p) @
     (case rule_of e of None \<Rightarrow> []
      | Some (r, x) \<Rightarrow> json_key ''rule'' @ write_json_string r @
                      json_key ''resource'' @ write_json_string x) @
     (case syscall_of e of None \<Rightarrow> []
      | Some (s, n) \<Rightarrow> json_key ''syscall'' @ write_json_string s @ json_key ''error'' @ dec_int n) @
     (case status_of e of None \<Rightarrow> []
      | Some (s, b) \<Rightarrow> json_key ''status'' @ dec_int s @ json_key ''signaled'' @ json_bool b) @
     (case parent_pid_of e of None \<Rightarrow> [] | Some p \<Rightarrow> json_key ''parent_pid'' @ dec_int p) @
     ''}''"

record json_reporter =
  json_output :: string
  json_first :: bool
  json_finished :: bool

definition new_json_reporter :: json_reporter where
  "new_json_reporter = \<lparr>json_output = [], json_first = True, json_finished = False\<rparr>"

definition json_report :: "event \<Rightarrow> json_reporter \<Rightarrow> json_reporter" where
  "json_report e r =
     (if json_finished r then r
      else if json_first r then
        r\<lparr>json_output := json_output r @ ''['' @ json_object e, json_first := False\<rparr>
      else r\<lparr>json_output := json_output r @ '','' @ json_object e\<rparr>)"

definition json_finish :: "json_reporter \<Rightarrow> json_reporter" where
  "json_finish r =
     (if \<not> json_finished r then r\<lparr>json_output := json_output r @ '']'', json_finished := True\<rparr>
      else r)"

interpretation json_sink: event_sink json_report default_stop_requested
  by (rule default_event_sink)

section \<open>The summary counts what the JSON stream names\<close>

definition count_types :: "string set \<Rightarrow> event list \<Rightarrow> 64 word" where
  "count_types ts es = word_of_nat (length (filter (\<lambda>e. event_type e \<in> ts) es))"

definition counted_summary :: "event list \<Rightarrow> summary" where
  "counted_summary es =
     \<lparr>files_opened = count_types {''file.opened''} es,
      files_read = count_types {''file.read''} es,
      files_written = count_types {''file.written''} es,
      processes_spawned = count_types {''process.spawned''} es,
      network_attempts = count_types {''network.connected'', ''network.bound'', ''network.accepted''} es,
      failures = count_types {''syscall.failed''} es\<rparr>"

lemma count_types_snoc:
  "count_types ts (es @ [e]) = count_types ts es + (if event_type e \<in> ts then 1 else 0)"
  by (simp add: count_types_def)

lemma counted_summary_snoc: "counted_summary (es @ [e]) = summary_report e (counted_summary es)"
  by (cases e) (simp_all add: counted_summary_def count_types_snoc)

lemma counted_summary_Nil: "counted_summary [] = empty_summary"
  by (simp add: counted_summary_def empty_summary_def count_types_def)

lemma fold_summary_report: "fold summary_report es empty_summary = counted_summary es"
  by (induction es rule: rev_induct) (simp_all add: counted_summary_Nil counted_summary_snoc)

section \<open>The JSON stream\<close>

lemma json_report_started:
  "\<not> json_finished r \<Longrightarrow> \<not> json_first r \<Longrightarrow>
     fold json_report es r =
       r\<lparr>json_output := json_output r @ concat (map (\<lambda>e. CHR '','' # json_object e) es)\<rparr>"
  by (induction es arbitrary: r) (simp_all add: json_report_def)

lemma join_with_concat:
  "join_with sep (c # cs) = c @ concat (map (\<lambda>d. sep # d) cs)"
  by (induction cs arbitrary: c) auto

lemma json_report_fold:
  "es \<noteq> [] \<Longrightarrow> json_output (fold json_report es new_json_reporter) =
     CHR ''['' # join_with CHR '','' (map json_object es)"
  by (cases es) (simp_all add: json_report_def new_json_reporter_def json_report_started
      join_with_concat o_def)

lemma json_report_finished: "json_finished r \<Longrightarrow> fold json_report es r = r"
  by (induction es) (simp_all add: json_report_def)

lemma json_finish_idem: "json_finish (json_finish r) = json_finish r"
  by (simp add: json_finish_def)

lemma json_fold_finished:
  "json_finished (fold json_report es r) = json_finished r"
  by (induction es arbitrary: r) (simp_all add: json_report_def)

section \<open>Strings survive the JSON encoding\<close>

text \<open>The specification: decoding of a JSON string literal (RFC 8259, section 7) as far as
  the encoder uses it, from after the opening quote to the closing one.\<close>

definition hex_value :: "char \<Rightarrow> nat option" where
  "hex_value c =
     (let n = of_char c :: nat
      in if 48 \<le> n \<and> n \<le> 57 then Some (n - 48)
         else if 97 \<le> n \<and> n \<le> 102 then Some (n - 87)
         else if 65 \<le> n \<and> n \<le> 70 then Some (n - 55) else None)"

definition hex4 :: "char \<Rightarrow> char \<Rightarrow> char \<Rightarrow> char \<Rightarrow> nat option" where
  "hex4 a b c d =
     (case (hex_value a, hex_value b, hex_value c, hex_value d) of
        (Some w, Some x, Some y, Some z) \<Rightarrow> Some (((w * 16 + x) * 16 + y) * 16 + z)
      | _ \<Rightarrow> None)"

definition simple_escape :: "char \<Rightarrow> char option" where
  "simple_escape e =
     (if e = dquote then Some dquote else if e = backslash then Some backslash
      else if e = CHR ''n'' then Some (CHR 0x0A) else if e = CHR ''r'' then Some (CHR 0x0D)
      else if e = CHR ''t'' then Some (CHR 0x09) else None)"

fun json_unescape :: "string \<Rightarrow> string option" where
  "json_unescape [] = None"
| "json_unescape (c # s) =
     (if c = dquote then (if s = [] then Some [] else None)
      else if c = backslash then
        (case s of
           [] \<Rightarrow> None
         | e # s' \<Rightarrow>
             (case simple_escape e of
                Some x \<Rightarrow> map_option ((#) x) (json_unescape s')
              | None \<Rightarrow>
                  (case s' of
                     h1 # h2 # h3 # h4 # s'' \<Rightarrow>
                       (case hex4 h1 h2 h3 h4 of
                          Some n \<Rightarrow> if e = CHR ''u'' \<and> n < 256
                                    then map_option ((#) (char_of n)) (json_unescape s'') else None
                        | None \<Rightarrow> None)
                   | _ \<Rightarrow> None)))
      else if (of_char c :: nat) < 0x20 then None
      else map_option ((#) c) (json_unescape s))"

definition json_decode :: "string \<Rightarrow> string option" where
  "json_decode t = (case t of [] \<Rightarrow> None | c # s \<Rightarrow> if c = dquote then json_unescape s else None)"

text \<open>The bytes the encoder represents correctly: all but the control characters below
  \<^verbatim>\<open>0x10\<close> other than tab, line feed and carriage return.\<close>

definition json_safe :: "char \<Rightarrow> bool" where
  "json_safe c \<longleftrightarrow> 16 \<le> (of_char c :: nat) \<or> c = CHR 0x09 \<or> c = CHR 0x0A \<or> c = CHR 0x0D"

lemma hex_value_digit: "d < 16 \<Longrightarrow> hex_value (hex_digit d) = Some d"
  by (auto simp: hex_value_def hex_digit_def Let_def)

lemma json_unescape_control:
  assumes "16 \<le> (of_char c :: nat)" "(of_char c :: nat) < 32"
  shows "json_unescape (backslash # ''u00'' @ hex_byte (of_char c) @ s) =
     map_option ((#) c) (json_unescape s)"
proof -
  define n :: nat where "n = of_char c"
  have n: "n div 16 = 1" "n = 16 + n mod 16" using assms unfolding n_def by presburger+
  have hex: "hex_byte n = [hex_digit 1, hex_digit (n mod 16)]"
    using assms n by (simp add: hex_byte_def n_def)
  have "hex4 CHR ''0'' CHR ''0'' (hex_digit 1) (hex_digit (n mod 16)) = Some n"
    using n(2) hex_value_digit [of 1] hex_value_digit [of "n mod 16"]
    by (simp add: hex4_def hex_value_def [of "CHR ''0''"])
  moreover have "n < 256" "char_of n = c" using assms by (simp_all add: n_def)
  ultimately show ?thesis
    unfolding n_def [symmetric] hex by (simp add: simple_escape_def)
qed

lemma json_unescape_char:
  assumes "json_safe c"
  shows "json_unescape (json_char c @ s) = map_option ((#) c) (json_unescape s)"
proof -
  consider (esc) "c \<in> {dquote, backslash, CHR 0x0A, CHR 0x0D, CHR 0x09}"
    | (ctl) "c \<notin> {dquote, backslash, CHR 0x0A, CHR 0x0D, CHR 0x09}" "(of_char c :: nat) < 32"
    | (plain) "c \<notin> {dquote, backslash, CHR 0x0A, CHR 0x0D, CHR 0x09}" "32 \<le> (of_char c :: nat)"
    by force
  then show ?thesis
  proof cases
    case esc
    then show ?thesis by (auto simp: json_char_def simple_escape_def)
  next
    case ctl
    with assms have "16 \<le> (of_char c :: nat)" by (auto simp: json_safe_def)
    with ctl json_unescape_control [of c s] show ?thesis by (simp add: json_char_def)
  next
    case plain
    then show ?thesis by (simp add: json_char_def)
  qed
qed

lemma json_unescape_concat:
  "\<forall>c \<in> set t. json_safe c \<Longrightarrow> json_unescape (concat (map json_char t) @ [dquote]) = Some t"
  by (induction t) (simp_all add: json_unescape_char)

lemma json_decode_write:
  "\<forall>c \<in> set t. json_safe c \<Longrightarrow> json_decode (write_json_string t) = Some t"
  by (simp add: json_decode_def write_json_string_def json_unescape_concat)

section \<open>Properties\<close>

text \<open>C35. Round trip: a JSON decoder recovers every string the reporter writes, for all strings
  that contain no control character below 16 other than tab, line feed and carriage return.\<close>

theorem json_string_roundtrip:
  assumes "list_all json_safe t"
  shows "json_decode (write_json_string t) = Some t"
  using assms by (simp add: json_decode_write list_all_iff)

definition awkward_path :: string where
  "awkward_path = [CHR ''/'', dquote, backslash, CHR 0x0A, CHR 0x1F]"

theorem json_string_roundtrip_witness:
  "list_all json_safe awkward_path \<and>
   json_decode (write_json_string awkward_path) = Some awkward_path"
proof -
  have "list_all json_safe awkward_path"
    by (simp add: awkward_path_def json_safe_def)
  from this json_string_roundtrip [OF this] show ?thesis by blast
qed

text \<open>The control characters outside that set are written with one hexadecimal digit too few
  and no decoder accepts them: the byte 1 is such a character.\<close>

theorem json_control_character_invalid:
  "write_json_string [CHR 0x01] = [dquote, backslash, CHR ''u'', CHR ''0'', CHR ''0'', CHR ''1'', dquote]
   \<and> json_decode (write_json_string [CHR 0x01]) = None"
  by (simp add: write_json_string_def json_char_def hex_byte_def hex_digit_def json_decode_def
      simple_escape_def hex4_def hex_value_def char_of_def bit_0)

text \<open>C36. The document the JSON reporter has written after at least one event and \<^verbatim>\<open>finish\<close> is
  the bracketed, comma-separated list of the events' objects in order; whatever is reported or
  finished afterwards adds nothing to it.\<close>

theorem json_document:
  assumes "es \<noteq> []"
  shows "json_output (fold json_report later (json_finish (json_finish (fold json_report es new_json_reporter)))) =
     ''['' @ join_with CHR '','' (map json_object es) @ '']''"
proof -
  have "\<not> json_finished (fold json_report es new_json_reporter)"
    by (simp add: json_fold_finished new_json_reporter_def)
  then have "json_finished (json_finish (fold json_report es new_json_reporter))"
    and "json_output (json_finish (fold json_report es new_json_reporter)) =
      json_output (fold json_report es new_json_reporter) @ '']''"
    by (simp_all add: json_finish_def)
  then show ?thesis
    by (simp add: json_finish_idem json_report_finished json_report_fold [OF assms])
qed

theorem json_document_witness:
  "[TraceStarted 7 empty_context] \<noteq> [] \<and>
   json_output (fold json_report [TraceStarted 8 empty_context]
      (json_finish (json_finish (fold json_report [TraceStarted 7 empty_context] new_json_reporter)))) =
     ''['' @ json_object (TraceStarted 7 empty_context) @ '']''"
proof -
  have "[TraceStarted 7 empty_context] \<noteq> []" by simp
  from this json_document [OF this, of "[TraceStarted 8 empty_context]"] show ?thesis
    by (simp only: list.simps join_with.simps)
qed

text \<open>The counters the summary prints are, modulo the 64-bit width of a counter, the numbers
  of events of the corresponding types in the JSON stream of the same run.\<close>

theorem summary_agrees_with_json:
  "fold summary_report es empty_summary =
     \<lparr>files_opened = count_types {''file.opened''} es,
      files_read = count_types {''file.read''} es,
      files_written = count_types {''file.written''} es,
      processes_spawned = count_types {''process.spawned''} es,
      network_attempts = count_types {''network.connected'', ''network.bound'', ''network.accepted''} es,
      failures = count_types {''syscall.failed''} es\<rparr>"
  unfolding fold_summary_report counted_summary_def ..

end
