(* ===== verification/Linux_Api.thy ===== *)
theory Linux_Api
  imports Syscall_Decoder
begin

text \<open>
  Errors with the operation that failed (\<^verbatim>\<open>include/execell/core/error.hpp\<close>) and the wrappers around
  \<^verbatim>\<open>waitpid\<close> and \<^verbatim>\<open>ptrace\<close> (\<^verbatim>\<open>include/execell/linux/wait.hpp\<close>, \<^verbatim>\<open>ptrace.hpp\<close>). The kernel is a
  record of the calls, each a function of an abstract kernel state that returns the call's answer,
  an errno or a result, and the next kernel state. A wait may be interrupted forever, so its loop
  is a partial function whose value is \<^term>\<open>None\<close> when it does not return.
\<close>

section \<open>Errors\<close>

record linux_error =
  le_operation :: string
  le_code :: int

definition from_errno :: "string \<Rightarrow> int \<Rightarrow> linux_error" where
  "from_errno operation errno = \<lparr>le_operation = operation, le_code = errno\<rparr>"

text \<open>\<^verbatim>\<open>message\<close>; the text of an errno is the library's, the parameter \<^term>\<open>strerror\<close>.\<close>

definition error_message :: "(int \<Rightarrow> string) \<Rightarrow> linux_error \<Rightarrow> string" where
  "error_message strerror e = le_operation e @ '': '' @ strerror (le_code e)"

lemma from_errno_simps [simp]:
  "le_operation (from_errno operation errno) = operation" "le_code (from_errno operation errno) = errno"
  "from_errno operation errno = from_errno operation' errno' \<longleftrightarrow> operation = operation' \<and> errno = errno'"
  by (simp_all add: from_errno_def)

section \<open>The kernel's calls\<close>

abbreviation (input) EINTR :: int where "EINTR \<equiv> 4"
abbreviation (input) ESRCH :: int where "ESRCH \<equiv> 3"

record 'k kernel =
  k_waitpid :: "int \<Rightarrow> 'k \<Rightarrow> (int + int \<times> 32 word) \<times> 'k"
  k_set_options :: "int \<Rightarrow> 'k \<Rightarrow> int option \<times> 'k"
  k_syscall :: "int \<Rightarrow> int \<Rightarrow> 'k \<Rightarrow> int option \<times> 'k"
  k_event_message :: "int \<Rightarrow> 'k \<Rightarrow> (int + 64 word) \<times> 'k"
  k_get_registers :: "int \<Rightarrow> 'k \<Rightarrow> (int + user_regs) \<times> 'k"
  k_memory :: "'k \<Rightarrow> decoder_env"
  k_kill :: "int \<Rightarrow> int \<Rightarrow> 'k \<Rightarrow> int option \<times> 'k"
  k_reap :: "int \<Rightarrow> 'k \<Rightarrow> 'k"

section \<open>The wrappers\<close>

text \<open>\<^verbatim>\<open>wait_for\<close>: repeat the wait while it is interrupted.\<close>

partial_function (option) wait_for ::
  "'k kernel \<Rightarrow> int \<Rightarrow> 'k \<Rightarrow> ((linux_error + int \<times> 32 word) \<times> 'k) option" where
  "wait_for api pid k =
     (case k_waitpid api pid k of
        (Inl err, k') \<Rightarrow>
          if err = EINTR then wait_for api pid k' else Some (Inl (from_errno ''waitpid'' err), k')
      | (Inr result, k') \<Rightarrow> Some (Inr result, k'))"

definition syscall_continue ::
  "'k kernel \<Rightarrow> int \<Rightarrow> int \<Rightarrow> 'k \<Rightarrow> (linux_error + unit) \<times> 'k" where
  "syscall_continue api pid signal k =
     (case k_syscall api pid signal k of
        (Some err, k') \<Rightarrow> (Inl (from_errno ''ptrace(PTRACE_SYSCALL)'' err), k')
      | (None, k') \<Rightarrow> (Inr (), k'))"

definition set_options :: "'k kernel \<Rightarrow> int \<Rightarrow> 'k \<Rightarrow> (linux_error + unit) \<times> 'k" where
  "set_options api pid k =
     (case k_set_options api pid k of
        (Some err, k') \<Rightarrow> (Inl (from_errno ''ptrace(PTRACE_SETOPTIONS)'' err), k')
      | (None, k') \<Rightarrow> (Inr (), k'))"

definition get_registers :: "'k kernel \<Rightarrow> int \<Rightarrow> 'k \<Rightarrow> (linux_error + user_regs) \<times> 'k" where
  "get_registers api pid k =
     (case k_get_registers api pid k of
        (Inl err, k') \<Rightarrow> (Inl (from_errno ''ptrace(PTRACE_GETREGS)'' err), k')
      | (Inr registers, k') \<Rightarrow> (Inr registers, k'))"

definition event_message :: "'k kernel \<Rightarrow> int \<Rightarrow> 'k \<Rightarrow> (linux_error + 64 word) \<times> 'k" where
  "event_message api pid k =
     (case k_event_message api pid k of
        (Inl err, k') \<Rightarrow> (Inl (from_errno ''ptrace(PTRACE_GETEVENTMSG)'' err), k')
      | (Inr message, k') \<Rightarrow> (Inr message, k'))"

lemmas wrapper_defs = syscall_continue_def set_options_def get_registers_def event_message_def

text \<open>A wrapper makes one call and names it in its error.\<close>

lemma wrapper_state [simp]:
  "snd (syscall_continue api pid signal k) = snd (k_syscall api pid signal k)"
  "snd (set_options api pid k) = snd (k_set_options api pid k)"
  "snd (get_registers api pid k) = snd (k_get_registers api pid k)"
  "snd (event_message api pid k) = snd (k_event_message api pid k)"
  by (simp_all add: wrapper_defs split: prod.splits option.splits sum.splits)

lemma wrapper_state_pair:
  "syscall_continue api pid signal k = (result, k') \<Longrightarrow> k' = snd (k_syscall api pid signal k)"
  by (metis snd_conv wrapper_state(1))

lemma wrapper_error:
  "syscall_continue api pid signal k = (Inl e, k') \<Longrightarrow> le_operation e = ''ptrace(PTRACE_SYSCALL)''"
  "set_options api pid k = (Inl e, k') \<Longrightarrow> le_operation e = ''ptrace(PTRACE_SETOPTIONS)''"
  "get_registers api pid k = (Inl e, k') \<Longrightarrow> le_operation e = ''ptrace(PTRACE_GETREGS)''"
  "event_message api pid k = (Inl e, k') \<Longrightarrow> le_operation e = ''ptrace(PTRACE_GETEVENTMSG)''"
  by (auto simp: wrapper_defs split: prod.splits option.splits sum.splits)

section \<open>Interrupted waits\<close>

lemma wait_for_no_eintr:
  assumes "wait_for api pid k = Some (Inl e, k')"
  shows "le_code e \<noteq> EINTR"
proof -
  have "case (Inl e :: linux_error + int \<times> 32 word, k') of (Inl e, _) \<Rightarrow> le_code e \<noteq> EINTR | _ \<Rightarrow> True"
    by (rule wait_for.raw_induct [OF _ assms,
        where P = "\<lambda>_ _ _ res. case res of (Inl e, _) \<Rightarrow> le_code e \<noteq> EINTR | _ \<Rightarrow> True"])
      (fastforce split: prod.splits sum.splits if_splits)
  then show ?thesis by simp
qed

text \<open>A wait interrupted by signals any finite number of times is repeated until the kernel
  gives another answer, which is returned; an interrupted wait is never returned as an error.\<close>

theorem wait_for_retries:
  assumes "\<forall>i < n. k_waitpid api pid (ks i) = (Inl EINTR, ks (Suc i))"
    and "k_waitpid api pid (ks n) = (answer, k')" and "answer \<noteq> Inl EINTR"
  shows "wait_for api pid (ks 0) = Some (map_sum (from_errno ''waitpid'') (\<lambda>result. result) answer, k')"
  using assms
proof (induction n arbitrary: ks)
  case 0
  then show ?case by (subst wait_for.simps) (auto split: sum.splits)
next
  case (Suc n)
  then have "wait_for api pid (ks (Suc 0)) = Some (map_sum (from_errno ''waitpid'') (\<lambda>result. result) answer, k')"
    using Suc.IH [of "\<lambda>i. ks (Suc i)"] by simp
  with Suc.prems(1) show ?case by (subst wait_for.simps) simp
qed

end
