(* ===== verification/Trace_Loop.thy ===== *)
theory Trace_Loop
  imports Task_Registry Wait_Status Report_Sinks Linux_Api
begin

text \<open>
  The tracer (\<^verbatim>\<open>src/trace/tracer.cpp\<close>) and the session object that kills a target left behind
  (\<^verbatim>\<open>trace_session.hpp\<close>), over the kernel of \<open>Linux_Api\<close>.

  The reporter is a parameter, its \<^verbatim>\<open>report\<close> and \<^verbatim>\<open>stop_requested\<close>. The local variables of
  \<^verbatim>\<open>run\<close> that live across iterations are the record \<open>trace_state\<close>. Tracing may go on forever, so
  the loop is a partial function whose value is \<^term>\<open>None\<close> when it does not return. The failures
  that end it are the values of \<open>trace_error\<close>, each with the error of the call that failed.
\<close>

section \<open>Ptrace events\<close>

abbreviation (input) PTRACE_EVENT_FORK :: "32 word" where "PTRACE_EVENT_FORK \<equiv> 1"
abbreviation (input) PTRACE_EVENT_VFORK :: "32 word" where "PTRACE_EVENT_VFORK \<equiv> 2"
abbreviation (input) PTRACE_EVENT_CLONE :: "32 word" where "PTRACE_EVENT_CLONE \<equiv> 3"
abbreviation (input) PTRACE_EVENT_EXEC :: "32 word" where "PTRACE_EVENT_EXEC \<equiv> 4"

section \<open>State and outcome\<close>

datatype trace_error =
    ForkFailed
  | InitialWaitFailed linux_error
  | SetOptionsFailed linux_error
  | SyscallFailedToContinue linux_error
  | WaitFailed linux_error
  | EventMessageFailed linux_error
  | GetRegistersFailed linux_error
  | NoTasksLeft

datatype trace_outcome = Finished int | Failed trace_error

record 'r trace_state =
  ts_tasks :: registry
  ts_sequence :: "64 word"
  ts_pending_signal :: int
  ts_current_pid :: int
  ts_resume_current :: bool
  ts_reporter :: 'r

text \<open>The value \<^verbatim>\<open>run\<close> returns.\<close>

fun exit_code :: "trace_outcome \<Rightarrow> int" where
  "exit_code (Finished code) = code"
| "exit_code (Failed _) = 1"

record 'r reporter =
  rep_report :: "event \<Rightarrow> 'r \<Rightarrow> 'r"
  rep_stop_requested :: "'r \<Rightarrow> bool"

section \<open>The body of the loop\<close>

definition emit :: "'r reporter \<Rightarrow> event \<Rightarrow> int \<Rightarrow> 'r trace_state \<Rightarrow> 'r trace_state" where
  "emit rep payload pid s =
     (let stamped = with_context \<lparr>ctx_pid = pid, ctx_sequence = ts_sequence s\<rparr> payload;
          s' = s\<lparr>ts_sequence := ts_sequence s + 1,
                 ts_reporter := rep_report rep stamped (ts_reporter s)\<rparr>
      in if rep_stop_requested rep (ts_reporter s') then s'\<lparr>ts_pending_signal := SIGKILL\<rparr> else s')"

text \<open>The head of an iteration: the task handled last is resumed, with the pending signal.\<close>

definition resume_task ::
  "'k kernel \<Rightarrow> 'r trace_state \<Rightarrow> 'k \<Rightarrow> trace_error option \<times> 'r trace_state \<times> 'k" where
  "resume_task api s k =
     (if ts_resume_current s then
        (case syscall_continue api (ts_current_pid s) (ts_pending_signal s) k of
           (continued, k') \<Rightarrow>
             (let s' = s\<lparr>ts_pending_signal := 0, ts_resume_current := False\<rparr>
              in case continued of
                   Inl err \<Rightarrow>
                     if le_code err \<noteq> ESRCH then (Some (SyscallFailedToContinue err), s', k')
                     else (None, s', k')
                 | Inr _ \<Rightarrow> (None, s', k')))
      else (None, s, k))"

definition handle_gone ::
  "'r reporter \<Rightarrow> int \<Rightarrow> stop \<Rightarrow> 'r trace_state \<Rightarrow> trace_outcome option \<times> 'r trace_state" where
  "handle_gone rep root_pid st s =
     (let stopped_pid = stop_pid st;
          signaled = (kind st = StopSignaled);
          result = (if signaled then signal st else exit_status st);
          s1 = emit rep (ProcessExited stopped_pid result signaled empty_context) stopped_pid s;
          s2 = s1\<lparr>ts_tasks := erase_task stopped_pid (ts_tasks s1)\<rparr>
      in if stopped_pid = root_pid then
           (Some (Finished (if signaled then 128 + result else result)),
            emit rep (TraceFinished stopped_pid result signaled empty_context) stopped_pid s2)
         else (None, s2))"

definition handle_ptrace_event ::
  "'k kernel \<Rightarrow> 'r reporter \<Rightarrow> stop \<Rightarrow> 'r trace_state \<Rightarrow> 'k \<Rightarrow>
     trace_outcome option \<times> 'r trace_state \<times> 'k" where
  "handle_ptrace_event api rep st s k =
     (let stopped_pid = stop_pid st; ev = ptrace_event st
      in case event_message api stopped_pid k of
           (Inl err, k') \<Rightarrow> (Some (Failed (EventMessageFailed err)), s, k')
         | (Inr message, k') \<Rightarrow>
             (let s1 =
                (if ev = PTRACE_EVENT_CLONE \<or> ev = PTRACE_EVENT_FORK \<or> ev = PTRACE_EVENT_VFORK then
                   (let child_pid = to_int message
                    in case find_task (ts_tasks s) stopped_pid of
                         None \<Rightarrow> s
                       | Some parent \<Rightarrow>
                           emit rep (ProcessSpawned child_pid stopped_pid empty_context) stopped_pid
                             (s\<lparr>ts_tasks := insert_child child_pid stopped_pid (task_fds parent)
                                              (ts_tasks s)\<rparr>))
                 else s);
              s2 =
                (if ev = PTRACE_EVENT_EXEC then
                   (case find_task (ts_tasks s1) stopped_pid of
                      None \<Rightarrow> s1
                    | Some task \<Rightarrow>
                        s1\<lparr>ts_tasks := task_store stopped_pid (task\<lparr>task_phase := PhaseEntry\<rparr>)
                                         (ts_tasks s1)\<rparr>)
                 else s1)
              in (None, s2\<lparr>ts_resume_current := True\<rparr>, k')))"

text \<open>\<^verbatim>\<open>if (auto event = ...) emit(*event, pid)\<close>.\<close>

definition emit_optional ::
  "'r reporter \<Rightarrow> event option \<Rightarrow> int \<Rightarrow> 'r trace_state \<Rightarrow> 'r trace_state" where
  "emit_optional rep payload pid s =
     (case payload of None \<Rightarrow> s | Some e \<Rightarrow> emit rep e pid s)"

definition decode_stop ::
  "'r reporter \<Rightarrow> decoder_env \<Rightarrow> int \<Rightarrow> user_regs \<Rightarrow> task \<Rightarrow> 'r trace_state \<Rightarrow> 'r trace_state" where
  "decode_stop rep env pid registers task s =
     (case task_phase task of
        PhaseEntry \<Rightarrow>
          (let (ev, d) = on_entry env pid registers (task_decoder task)
           in emit_optional rep ev pid
                (s\<lparr>ts_tasks := task_store pid
                     (task\<lparr>task_decoder := d, task_phase := PhaseExit\<rparr>) (ts_tasks s)\<rparr>))
      | PhaseExit \<Rightarrow>
          (let (ev, t) = on_exit pid registers (task_decoder task) (task_fds task)
           in emit_optional rep ev pid
                (s\<lparr>ts_tasks := task_store pid
                     (task\<lparr>task_fds := t, task_phase := PhaseEntry\<rparr>) (ts_tasks s)\<rparr>))
      | PhaseUnknown \<Rightarrow>
          s\<lparr>ts_tasks := task_store pid (task\<lparr>task_phase := PhaseEntry\<rparr>) (ts_tasks s)\<rparr>)"

definition handle_syscall ::
  "'k kernel \<Rightarrow> 'r reporter \<Rightarrow> stop \<Rightarrow> 'r trace_state \<Rightarrow> 'k \<Rightarrow>
     trace_outcome option \<times> 'r trace_state \<times> 'k" where
  "handle_syscall api rep st s k =
     (let stopped_pid = stop_pid st
      in case find_task (ts_tasks s) stopped_pid of
           None \<Rightarrow> (None, s\<lparr>ts_resume_current := True\<rparr>, k)
         | Some task \<Rightarrow>
             (case get_registers api stopped_pid k of
                (Inl err, k') \<Rightarrow>
                  if le_code err = ESRCH then
                    (None, s\<lparr>ts_tasks := erase_task stopped_pid (ts_tasks s),
                             ts_resume_current := True\<rparr>, k')
                  else (Some (Failed (GetRegistersFailed err)), s, k')
              | (Inr registers, k') \<Rightarrow>
                  (None, (decode_stop rep (k_memory api k') stopped_pid registers task s)
                           \<lparr>ts_resume_current := True\<rparr>, k')))"

definition handle_stop ::
  "'k kernel \<Rightarrow> 'r reporter \<Rightarrow> int \<Rightarrow> stop \<Rightarrow> 'r trace_state \<Rightarrow> 'k \<Rightarrow>
     trace_outcome option \<times> 'r trace_state \<times> 'k" where
  "handle_stop api rep root_pid st s k =
     (if kind st = StopExited \<or> kind st = StopSignaled then
        (let (out, s') = handle_gone rep root_pid st s in (out, s', k))
      else if kind st = StopPtraceEvent then handle_ptrace_event api rep st s k
      else if kind st \<noteq> StopSyscall then
        (None, s\<lparr>ts_pending_signal := resume_signal st, ts_resume_current := True\<rparr>, k)
      else handle_syscall api rep st s k)"

section \<open>The loop\<close>

definition trace_step ::
  "'k kernel \<Rightarrow> 'r reporter \<Rightarrow> int \<Rightarrow> 'r trace_state \<Rightarrow> 'k \<Rightarrow>
     (trace_outcome option \<times> 'r trace_state \<times> 'k) option" where
  "trace_step api rep root_pid s k =
     (case resume_task api s k of
        (Some err, s1, k1) \<Rightarrow> Some (Some (Failed err), s1, k1)
      | (None, s1, k1) \<Rightarrow>
          (case wait_for api (- 1) k1 of
             None \<Rightarrow> None
           | Some (Inl err, k2) \<Rightarrow> Some (Some (Failed (WaitFailed err)), s1, k2)
           | Some (Inr (stopped_pid, status), k2) \<Rightarrow>
               Some (handle_stop api rep root_pid (classify_stop stopped_pid status)
                       (s1\<lparr>ts_current_pid := stopped_pid\<rparr>) k2)))"

partial_function (option) trace_loop ::
  "'k kernel \<Rightarrow> 'r reporter \<Rightarrow> int \<Rightarrow> 'r trace_state \<Rightarrow> 'k \<Rightarrow>
     (trace_outcome \<times> 'r trace_state \<times> 'k) option" where
  "trace_loop api rep root_pid s k =
     (if registry_empty (ts_tasks s) then Some (Failed NoTasksLeft, s, k)
      else case trace_step api rep root_pid s k of
             None \<Rightarrow> None
           | Some (out, s', k') \<Rightarrow>
               (case out of
                  Some result \<Rightarrow> Some (result, s', k')
                | None \<Rightarrow> trace_loop api rep root_pid s' k'))"

definition initial_state :: "'r reporter \<Rightarrow> int \<Rightarrow> 'r \<Rightarrow> 'r trace_state" where
  "initial_state rep root_pid r =
     emit rep (TraceStarted root_pid empty_context) root_pid
       \<lparr>ts_tasks = insert_root root_pid [], ts_sequence = 0, ts_pending_signal = 0,
        ts_current_pid = root_pid, ts_resume_current = True, ts_reporter = r\<rparr>"

text \<open>The destructor of \<^verbatim>\<open>TraceSession\<close>: a root task that still exists is killed and
  reaped without waiting.\<close>

definition session_end :: "'k kernel \<Rightarrow> int \<Rightarrow> 'k \<Rightarrow> 'k" where
  "session_end api root_pid k =
     (if root_pid < 0 then k
      else case k_kill api root_pid 0 k of
             (None, k1) \<Rightarrow> k_reap api root_pid (snd (k_kill api root_pid SIGKILL k1))
           | (Some _, k1) \<Rightarrow> k1)"

text \<open>The parent's side of \<^verbatim>\<open>run\<close>, given what \<^verbatim>\<open>fork\<close> returned, and the overload
  that reports to the terminal.\<close>

definition trace_run ::
  "'k kernel \<Rightarrow> 'r reporter \<Rightarrow> int \<Rightarrow> 'r \<Rightarrow> 'k \<Rightarrow> (trace_outcome \<times> 'r \<times> 'k) option" where
  "trace_run api rep root_pid r k =
     (if root_pid < 0 then Some (Failed ForkFailed, r, k)
      else case wait_for api root_pid k of
             None \<Rightarrow> None
           | Some (Inl err, k1) \<Rightarrow> Some (Failed (InitialWaitFailed err), r, k1)
           | Some (Inr _, k1) \<Rightarrow>
               (case set_options api root_pid k1 of
                  (Inl err, k2) \<Rightarrow>
                    Some (Failed (SetOptionsFailed err), r, session_end api root_pid k2)
                | (Inr _, k2) \<Rightarrow>
                    map_option (\<lambda>(out, s, k3). (out, ts_reporter s, session_end api root_pid k3))
                      (trace_loop api rep root_pid (initial_state rep root_pid r) k2)))"

definition terminal_reporter :: "string reporter" where
  "terminal_reporter =
     \<lparr>rep_report = terminal_report, rep_stop_requested = default_stop_requested\<rparr>"

definition trace_run_terminal ::
  "'k kernel \<Rightarrow> int \<Rightarrow> string \<Rightarrow> 'k \<Rightarrow> (trace_outcome \<times> string \<times> 'k) option" where
  "trace_run_terminal api root_pid out k = trace_run api terminal_reporter root_pid out k"

section \<open>What an emission changes\<close>

lemma emit_simps [simp]:
  "ts_tasks (emit rep e p s) = ts_tasks s"
  "ts_sequence (emit rep e p s) = ts_sequence s + 1"
  "ts_current_pid (emit rep e p s) = ts_current_pid s"
  "ts_resume_current (emit rep e p s) = ts_resume_current s"
  "ts_reporter (emit rep e p s) =
     rep_report rep (with_context \<lparr>ctx_pid = p, ctx_sequence = ts_sequence s\<rparr> e) (ts_reporter s)"
  "ts_pending_signal (emit rep e p s) =
     (if rep_stop_requested rep (ts_reporter (emit rep e p s)) then SIGKILL else ts_pending_signal s)"
  by (simp_all add: emit_def Let_def)

lemma emit_optional_simps [simp]:
  "ts_tasks (emit_optional rep e p s) = ts_tasks s"
  "ts_current_pid (emit_optional rep e p s) = ts_current_pid s"
  "ts_resume_current (emit_optional rep e p s) = ts_resume_current s"
  by (simp_all add: emit_optional_def split: option.splits)

section \<open>The stream of events\<close>

text \<open>Between two states of the tracer the reporter has received the events \<open>es\<close>, numbered
  consecutively from the first state's sequence number.\<close>

definition stamped :: "64 word \<Rightarrow> event list \<Rightarrow> bool" where
  "stamped n es \<longleftrightarrow>
     map (\<lambda>e. ctx_sequence (context_of e)) es = map (\<lambda>i. n + word_of_nat i) [0..<length es]"

definition emitted :: "'r reporter \<Rightarrow> 'r trace_state \<Rightarrow> 'r trace_state \<Rightarrow> event list \<Rightarrow> bool" where
  "emitted rep s s' es \<longleftrightarrow>
     ts_reporter s' = fold (rep_report rep) es (ts_reporter s) \<and>
     ts_sequence s' = ts_sequence s + word_of_nat (length es) \<and>
     stamped (ts_sequence s) es"

lemma stamped_append:
  "stamped n (es @ fs) \<longleftrightarrow> stamped n es \<and> stamped (n + word_of_nat (length es)) fs"
proof -
  have "map (\<lambda>i. i + length es) [0..<length fs] = [length es..<length es + length fs]"
    unfolding map_add_upt by (simp only: add.commute)
  then have upt: "[0..<length es + length fs] = [0..<length es] @ map (\<lambda>i. i + length es) [0..<length fs]"
    using upt_add_eq_append [of 0 "length es" "length fs"] by simp
  have shift: "n + word_of_nat (i + length es) = n + word_of_nat (length es) + word_of_nat i" for i
    by (simp add: ac_simps)
  show ?thesis by (simp add: stamped_def upt o_def shift del: of_nat_add)
qed

lemma stamped_single: "stamped n [e] \<longleftrightarrow> ctx_sequence (context_of e) = n"
  by (simp add: stamped_def)

lemma emitted_refl: "ts_reporter s' = ts_reporter s \<Longrightarrow> ts_sequence s' = ts_sequence s \<Longrightarrow> emitted rep s s' []"
  by (simp add: emitted_def stamped_def)

lemma emitted_trans: "emitted rep s s' es \<Longrightarrow> emitted rep s' s'' fs \<Longrightarrow> emitted rep s s'' (es @ fs)"
  by (auto simp: emitted_def stamped_append)

text \<open>Only the reporter and the counter matter.\<close>

lemma emitted_updates [simp]:
  "emitted rep (s\<lparr>ts_tasks := t\<rparr>) s' es = emitted rep s s' es"
  "emitted rep s (s'\<lparr>ts_tasks := t\<rparr>) es = emitted rep s s' es"
  "emitted rep s (s'\<lparr>ts_resume_current := b\<rparr>) es = emitted rep s s' es"
  "emitted rep s (s'\<lparr>ts_pending_signal := sig\<rparr>) es = emitted rep s s' es"
  "emitted rep (s\<lparr>ts_current_pid := p\<rparr>) s' es = emitted rep s s' es"
  by (simp_all add: emitted_def)

lemma emitted_self [simp]: "emitted rep s s []"
  by (simp add: emitted_refl)

lemma emitted_emit:
  "emitted rep s (emit rep e p s) [with_context \<lparr>ctx_pid = p, ctx_sequence = ts_sequence s\<rparr> e]"
  by (simp add: emitted_def stamped_single)

text \<open>Some events were emitted.\<close>

definition progressed :: "'r reporter \<Rightarrow> 'r trace_state \<Rightarrow> 'r trace_state \<Rightarrow> bool" where
  "progressed rep s s' \<longleftrightarrow> (\<exists>es. emitted rep s s' es)"

lemma progressed_updates [simp]:
  "progressed rep (s\<lparr>ts_tasks := t\<rparr>) s' = progressed rep s s'"
  "progressed rep s (s'\<lparr>ts_tasks := t\<rparr>) = progressed rep s s'"
  "progressed rep s (s'\<lparr>ts_resume_current := b\<rparr>) = progressed rep s s'"
  "progressed rep s (s'\<lparr>ts_pending_signal := sig\<rparr>) = progressed rep s s'"
  by (simp_all add: progressed_def)

lemma progressed_self [simp]: "progressed rep s s"
  unfolding progressed_def by (rule exI [of _ "[]"]) simp

lemma progressed_emit [simp]: "progressed rep s (emit rep e p (s\<lparr>ts_tasks := t\<rparr>))"
  unfolding progressed_def using emitted_emit [of rep "s\<lparr>ts_tasks := t\<rparr>" e p] by auto

lemma progressed_emit_optional [simp]: "progressed rep s (emit_optional rep e p (s\<lparr>ts_tasks := t\<rparr>))"
  by (cases e) (simp_all add: emit_optional_def)

text \<open>A task that is gone is reported, and the end of the root task ends the trace.\<close>

lemma emitted_gone:
  assumes "handle_gone rep root st s = (out, s')"
  shows "\<exists>es. emitted rep s s' es \<and>
       (out = None \<or> es \<noteq> [] \<and>
         (\<exists>status signaled ctx. last es = TraceFinished root status signaled ctx \<and>
            out = Some (Finished (if signaled then 128 + status else status))))"
proof -
  define p where "p = stop_pid st"
  define b where "b \<longleftrightarrow> kind st = StopSignaled"
  define n where "n = (if kind st = StopSignaled then signal st else exit_status st)"
  define e1 where "e1 = with_context \<lparr>ctx_pid = p, ctx_sequence = ts_sequence s\<rparr>
    (ProcessExited p n b empty_context)"
  define s2 where "s2 = (emit rep (ProcessExited p n b empty_context) p s)
    \<lparr>ts_tasks := erase_task p (ts_tasks s)\<rparr>"
  have eq: "(out, s') = (if p = root
      then (Some (Finished (if b then 128 + n else n)), emit rep (TraceFinished p n b empty_context) p s2)
      else (None, s2))"
    unfolding assms [symmetric] handle_gone_def Let_def p_def b_def n_def s2_def by simp
  have one: "emitted rep s s2 [e1]"
    unfolding s2_def e1_def emitted_updates by (rule emitted_emit)
  define e2 where "e2 = with_context \<lparr>ctx_pid = p, ctx_sequence = ts_sequence s2\<rparr>
    (TraceFinished p n b empty_context)"
  have two: "emitted rep s (emit rep (TraceFinished p n b empty_context) p s2) [e1, e2]"
    using emitted_trans [OF one emitted_emit [of rep s2 "TraceFinished p n b empty_context" p]]
    unfolding e2_def [symmetric] by simp
  have "e2 = TraceFinished p n b \<lparr>ctx_pid = p, ctx_sequence = ts_sequence s2\<rparr>"
    by (simp add: e2_def)
  with eq one two show ?thesis
    by (cases "p = root") (fastforce intro: exI [of _ "[e1, e2]"] exI [of _ "[e1]"])+
qed

lemma progressed_ptrace_event:
  assumes "handle_ptrace_event api rep st s k = (out, s', k')"
  shows "progressed rep s s' \<and> (\<forall>code. out \<noteq> Some (Finished code))"
  using assms unfolding handle_ptrace_event_def Let_def
  by (auto split: sum.splits prod.splits option.splits if_splits)

lemma progressed_decode_stop [simp]: "progressed rep s (decode_stop rep env p regs task s)"
  by (cases "task_phase task") (auto simp: decode_stop_def split: prod.splits)

lemma progressed_syscall:
  assumes "handle_syscall api rep st s k = (out, s', k')"
  shows "progressed rep s s' \<and> (\<forall>code. out \<noteq> Some (Finished code))"
  using assms unfolding handle_syscall_def Let_def
  by (auto split: sum.splits prod.splits option.splits if_splits)

lemma emitted_stop:
  assumes "handle_stop api rep root st s k = (out, s', k')"
  shows "\<exists>es. emitted rep s s' es \<and>
       (\<forall>code. out = Some (Finished code) \<longrightarrow> es \<noteq> [] \<and>
         (\<exists>status signaled ctx. last es = TraceFinished root status signaled ctx \<and>
            code = (if signaled then 128 + status else status)))"
proof (cases "kind st = StopExited \<or> kind st = StopSignaled")
  case True
  with assms have "handle_gone rep root st s = (out, s')"
    by (auto simp: handle_stop_def split: prod.splits)
  from emitted_gone [OF this] show ?thesis by fastforce
next
  case False
  with assms progressed_ptrace_event [of api rep st s k out s' k']
    progressed_syscall [of api rep st s k out s' k']
  have "progressed rep s s' \<and> (\<forall>code. out \<noteq> Some (Finished code))"
    by (auto simp: handle_stop_def split: if_splits)
  then show ?thesis by (auto simp: progressed_def)
qed

lemma resume_task_frame:
  assumes "resume_task api s k = (err, s', k')"
  shows "emitted rep s s' []" "ts_tasks s' = ts_tasks s" "ts_current_pid s' = ts_current_pid s"
  using assms
  by (auto simp: resume_task_def emitted_refl Let_def split: prod.splits sum.splits option.splits if_splits)

text \<open>An iteration that returns either fails or handles one stop.\<close>

lemma trace_step_cases:
  assumes "trace_step api rep root s k = Some (out, s', k')"
  obtains (failed) err where "out = Some (Failed err)" "emitted rep s s' []" "ts_tasks s' = ts_tasks s"
  | (handled) s1 pid status k2 where
      "emitted rep s s1 []" "ts_tasks s1 = ts_tasks s" "ts_current_pid s1 = pid"
      "handle_stop api rep root (classify_stop pid status) s1 k2 = (out, s', k')"
proof -
  obtain err s1 k1 where r: "resume_task api s k = (err, s1, k1)" by (cases "resume_task api s k") auto
  note frame = resume_task_frame [OF r]
  show ?thesis
  proof (cases err)
    case (Some e)
    with assms r frame(1) [of rep] frame(2) failed [of e] show ?thesis by (simp add: trace_step_def)
  next
    case None
    then obtain w k2 where w: "wait_for api (- 1) k1 = Some (w, k2)"
      using assms r by (auto simp: trace_step_def split: option.splits)
    show ?thesis
    proof (cases w)
      case (Inl e)
      with None assms r w frame(1) [of rep] frame(2) failed [of "WaitFailed e"] show ?thesis
        by (simp add: trace_step_def)
    next
      case (Inr ps)
      obtain pid status where "ps = (pid, status)" by fastforce
      with Inr None assms r w frame(1) [of rep] frame(2)
        handled [of "s1\<lparr>ts_current_pid := pid\<rparr>" pid status k2] show ?thesis
        by (simp add: trace_step_def emitted_refl emitted_def)
    qed
  qed
qed

lemma emitted_step:
  assumes "trace_step api rep root s k = Some (out, s', k')"
  shows "\<exists>es. emitted rep s s' es \<and>
       (\<forall>code. out = Some (Finished code) \<longrightarrow> es \<noteq> [] \<and>
         (\<exists>status signaled ctx. last es = TraceFinished root status signaled ctx \<and>
            code = (if signaled then 128 + status else status)))"
  using assms
proof (cases rule: trace_step_cases)
  case (handled s1 pid status k2)
  from emitted_stop [OF handled(4)] emitted_trans [OF handled(1)] show ?thesis by fastforce
qed auto

section \<open>Reachable states\<close>

inductive trace_reach ::
  "'k kernel \<Rightarrow> 'r reporter \<Rightarrow> int \<Rightarrow> 'r trace_state \<Rightarrow> 'k \<Rightarrow> 'r trace_state \<Rightarrow> 'k \<Rightarrow> bool"
  for api rep root s0 k0 where
  start: "trace_reach api rep root s0 k0 s0 k0"
| step: "trace_reach api rep root s0 k0 s k \<Longrightarrow> \<not> registry_empty (ts_tasks s) \<Longrightarrow>
    trace_step api rep root s k = Some (None, s', k') \<Longrightarrow> trace_reach api rep root s0 k0 s' k'"

lemma trace_reach_trans:
  "trace_reach api rep root s1 k1 s2 k2 \<Longrightarrow> trace_reach api rep root s0 k0 s1 k1 \<Longrightarrow>
     trace_reach api rep root s0 k0 s2 k2"
  by (induction rule: trace_reach.induct) (auto intro: trace_reach.step)

text \<open>The loop returns out of a reachable state: its registry is empty, or its iteration ends
  the trace.\<close>

definition loop_end ::
  "'k kernel \<Rightarrow> 'r reporter \<Rightarrow> int \<Rightarrow> 'r trace_state \<Rightarrow> 'k \<Rightarrow>
     trace_outcome \<times> 'r trace_state \<times> 'k \<Rightarrow> bool" where
  "loop_end api rep root s k res \<longleftrightarrow>
     (\<exists>s1 k1. trace_reach api rep root s k s1 k1 \<and>
       (registry_empty (ts_tasks s1) \<and> res = (Failed NoTasksLeft, s1, k1) \<or>
        \<not> registry_empty (ts_tasks s1) \<and>
        trace_step api rep root s1 k1 = Some (Some (fst res), snd res)))"

lemma trace_loop_end:
  "trace_loop api rep root s k = Some res \<Longrightarrow> loop_end api rep root s k res"
proof (rule trace_loop.raw_induct [where P = loop_end])
  fix loop :: "'k kernel \<Rightarrow> 'r reporter \<Rightarrow> int \<Rightarrow> 'r trace_state \<Rightarrow> 'k \<Rightarrow>
    (trace_outcome \<times> 'r trace_state \<times> 'k) option"
  fix api :: "'k kernel" and rep :: "'r reporter" and root s k res
  assume IH: "\<And>api rep root s k y. loop api rep root s k = Some y \<Longrightarrow> loop_end api rep root s k y"
  assume body: "(if registry_empty (ts_tasks s) then Some (Failed NoTasksLeft, s, k)
      else case trace_step api rep root s k of None \<Rightarrow> None
        | Some (out, s', k') \<Rightarrow> (case out of None \<Rightarrow> loop api rep root s' k'
            | Some result \<Rightarrow> Some (result, s', k'))) = Some res"
  show "loop_end api rep root s k res"
  proof (cases "registry_empty (ts_tasks s)")
    case True
    with body show ?thesis by (auto simp: loop_end_def intro: trace_reach.start)
  next
    case False
    with body obtain o1 s1 k1 where step: "trace_step api rep root s k = Some (o1, s1, k1)"
      by (auto split: option.splits)
    show ?thesis
    proof (cases o1)
      case None
      have reach: "trace_reach api rep root s k s1 k1"
        using trace_reach.step [OF trace_reach.start False] step None by simp
      have "loop api rep root s1 k1 = Some res" using body False step None by simp
      from IH [OF this] show ?thesis
        unfolding loop_end_def using trace_reach_trans [OF _ reach] by blast
    next
      case (Some x)
      with body False step have "res = (x, s1, k1)" by simp
      with False step Some show ?thesis
        unfolding loop_end_def by (intro exI [of _ s] exI [of _ k]) (simp add: trace_reach.start)
    qed
  qed
qed

lemma trace_reach_emitted:
  "trace_reach api rep root s0 k0 s k \<Longrightarrow> \<exists>es. emitted rep s0 s es"
proof (induction rule: trace_reach.induct)
  case (step s k s' k')
  then show ?case using emitted_step [OF step.hyps(3)] emitted_trans by blast
qed (use emitted_self in blast)

section \<open>The registry stays well formed, and tasks do not interfere\<close>

lemma registry_wf_gone:
  "handle_gone rep root st s = (out, s') \<Longrightarrow> registry_wf (ts_tasks s) \<Longrightarrow> registry_wf (ts_tasks s')"
  by (auto simp: handle_gone_def Let_def registry_wf_erase split: if_splits)

lemma registry_wf_ptrace_event:
  assumes "handle_ptrace_event api rep st s k = (out, s', k')" "registry_wf (ts_tasks s)"
  shows "registry_wf (ts_tasks s')"
proof -
  have fds: "find_task (ts_tasks s) p = Some t \<Longrightarrow> fd_wf (task_fds t)" for p t
    using find_task_wf [OF assms(2)] by (auto simp: task_wf_def)
  have phase: "find_task (ts_tasks s) p = Some t \<Longrightarrow>
      registry_wf (task_store p (t\<lparr>task_phase := ph\<rparr>) (ts_tasks s))" for p t ph
    using find_task_wf [OF assms(2)] by (intro registry_wf_store [OF assms(2)]) (auto simp: task_wf_def)
  show ?thesis
    using assms fds phase unfolding handle_ptrace_event_def Let_def
    by (auto simp: registry_wf_insert_child split: sum.splits prod.splits option.splits if_splits)
qed

lemma registry_wf_decode_stop:
  assumes "registry_wf (ts_tasks s)" "task_wf p task"
  shows "registry_wf (ts_tasks (decode_stop rep env p regs task s))"
proof -
  have "task_wf p (task\<lparr>task_decoder := d, task_phase := ph\<rparr>)"
    "task_wf p (task\<lparr>task_phase := ph\<rparr>)" for d ph
    using assms(2) by (auto simp: task_wf_def)
  moreover have "task_wf p (task\<lparr>task_fds := t, task_phase := PhaseEntry\<rparr>)"
    if "on_exit p regs (task_decoder task) (task_fds task) = (ev, t)" for ev t
    using on_exit_fd_wf [of "task_fds task" p regs "task_decoder task"] assms(2) that
    by (auto simp: task_wf_def)
  ultimately show ?thesis
    using registry_wf_store [OF assms(1)]
    by (cases "task_phase task") (auto simp: decode_stop_def split: prod.splits)
qed

lemma registry_wf_syscall:
  assumes "handle_syscall api rep st s k = (out, s', k')" "registry_wf (ts_tasks s)"
  shows "registry_wf (ts_tasks s')"
  using assms find_task_wf [OF assms(2)] registry_wf_decode_stop [OF assms(2)]
  unfolding handle_syscall_def Let_def
  by (auto simp: registry_wf_erase split: sum.splits prod.splits option.splits if_splits)

lemma registry_wf_stop:
  assumes "handle_stop api rep root st s k = (out, s', k')" "registry_wf (ts_tasks s)"
  shows "registry_wf (ts_tasks s')"
  using assms registry_wf_gone [of rep root st s out s'] registry_wf_ptrace_event [of api rep st s k out s' k']
    registry_wf_syscall [of api rep st s k out s' k']
  by (auto simp: handle_stop_def split: if_splits prod.splits)

lemma registry_wf_step:
  assumes "trace_step api rep root s k = Some (out, s', k')" "registry_wf (ts_tasks s)"
  shows "registry_wf (ts_tasks s')"
  using assms(1)
proof (cases rule: trace_step_cases)
  case (handled s1 pid status k2)
  with registry_wf_stop [OF handled(4)] assms(2) show ?thesis by simp
qed (use assms(2) in simp)

lemma trace_reach_registry_wf:
  "trace_reach api rep root s0 k0 s k \<Longrightarrow> registry_wf (ts_tasks s0) \<Longrightarrow> registry_wf (ts_tasks s)"
  by (induction rule: trace_reach.induct) (auto intro: registry_wf_step)

text \<open>What handling a stop of one task does to the others.\<close>

definition others_kept :: "int \<Rightarrow> 'r trace_state \<Rightarrow> 'r trace_state \<Rightarrow> bool" where
  "others_kept pid s s' \<longleftrightarrow>
     (\<forall>q. q \<noteq> pid \<longrightarrow>
        find_task (ts_tasks s') q = find_task (ts_tasks s) q \<or>
        find_task (ts_tasks s) q = None \<and>
        (\<exists>parent. find_task (ts_tasks s) pid = Some parent \<and>
           find_task (ts_tasks s') q = Some (child_task q pid (task_fds parent))))"

lemma others_kept_self [simp]: "others_kept pid s s"
  by (simp add: others_kept_def)

lemma others_kept_updates [simp]:
  "others_kept pid s (s'\<lparr>ts_resume_current := b\<rparr>) = others_kept pid s s'"
  "others_kept pid s (s'\<lparr>ts_pending_signal := sig\<rparr>) = others_kept pid s s'"
  "others_kept pid s (emit rep e p s') = others_kept pid s s'"
  "others_kept pid s (emit_optional rep e2 p s') = others_kept pid s s'"
  by (simp_all add: others_kept_def)

lemma others_kept_store [simp]: "others_kept pid s (s\<lparr>ts_tasks := task_store pid t (ts_tasks s)\<rparr>)"
  by (simp add: others_kept_def find_task_store)

lemma others_kept_erase [simp]: "others_kept pid s (s\<lparr>ts_tasks := erase_task pid (ts_tasks s)\<rparr>)"
  by (simp add: others_kept_def find_task_erase)

lemma others_kept_child:
  "find_task (ts_tasks s) pid = Some parent \<Longrightarrow>
     others_kept pid s (s\<lparr>ts_tasks := insert_child c pid (task_fds parent) (ts_tasks s)\<rparr>)"
  by (auto simp: others_kept_def insert_child_def find_task_emplace split: option.splits)

lemma others_kept_stop:
  assumes "handle_stop api rep root st s k = (out, s', k')"
  shows "others_kept (stop_pid st) s s'"
proof -
  have gone: "others_kept (stop_pid st) s (snd (handle_gone rep root st s))"
    using find_task_erase by (auto simp: handle_gone_def Let_def others_kept_def)
  have event: "others_kept (stop_pid st) s (fst (snd (handle_ptrace_event api rep st s k)))"
    using others_kept_child [of s "stop_pid st"]
    by (auto simp: handle_ptrace_event_def Let_def split: sum.splits prod.splits option.splits)
  have decode: "others_kept p s (decode_stop rep env p regs task s)" for p env regs task
    by (cases "task_phase task") (auto simp: decode_stop_def split: prod.splits)
  have "others_kept (stop_pid st) s (fst (snd (handle_syscall api rep st s k)))"
    by (auto simp: handle_syscall_def Let_def decode split: sum.splits prod.splits option.splits)
  with assms gone event show ?thesis
    by (auto simp: handle_stop_def split: if_splits prod.splits)
qed

section \<open>The registry and the stream\<close>

text \<open>The tasks an event stream says are there: started or spawned, and not exited since.\<close>

fun announce :: "event \<Rightarrow> int set \<Rightarrow> int set" where
  "announce (TraceStarted pid c) A = insert pid A"
| "announce (ProcessSpawned pid parent c) A = insert pid A"
| "announce (ProcessExited pid status signaled c) A = A - {pid}"
| "announce e A = A"

definition announced :: "event list \<Rightarrow> int set" where
  "announced es = fold announce es {}"

text \<open>The registered tasks are among those announced, and exactly those when \<open>complete\<close>.\<close>

definition registered :: "bool \<Rightarrow> registry \<Rightarrow> int set \<Rightarrow> bool" where
  "registered complete tasks A \<longleftrightarrow>
     dom (find_task tasks) \<subseteq> A \<and> (complete \<longrightarrow> A \<subseteq> dom (find_task tasks))"

definition never_gone :: "'k kernel \<Rightarrow> bool" where
  "never_gone api \<longleftrightarrow> (\<forall>pid k. fst (k_get_registers api pid k) \<noteq> Inl ESRCH)"

lemma announce_with_context [simp]: "announce (with_context c e) = announce e"
  by (rule ext) (cases e, simp_all)

text \<open>What the decoder reports says nothing of tasks coming and going.\<close>

lemma announce_decoded:
  "pred_option (\<lambda>e. announce e A = A) (fst (on_entry env pid regs d))"
  "pred_option (\<lambda>e. announce e A = A) (fst (on_exit pid regs d t))"
  unfolding on_entry_event by (simp_all add: on_exit_unfold Let_def split: option.splits)

text \<open>What a step leaves registered, for the events it reports.\<close>

definition follows :: "bool \<Rightarrow> 'r reporter \<Rightarrow> 'r trace_state \<Rightarrow> 'r trace_state \<Rightarrow> bool" where
  "follows complete rep s s' \<longleftrightarrow>
     (\<exists>es. emitted rep s s' es \<and>
        (\<forall>A. registered complete (ts_tasks s) A \<longrightarrow> registered complete (ts_tasks s') (fold announce es A)))"

lemma follows_silent:
  "emitted rep s s' [] \<Longrightarrow> (\<And>A. registered b (ts_tasks s) A \<Longrightarrow> registered b (ts_tasks s') A) \<Longrightarrow>
     follows b rep s s'"
  unfolding follows_def by (rule exI [of _ "[]"]) simp

lemma follows_emit:
  assumes "\<And>A. registered b (ts_tasks s) A \<Longrightarrow> registered b t (announce e A)"
  shows "follows b rep s (emit rep e p (s\<lparr>ts_tasks := t\<rparr>))"
  unfolding follows_def
  by (rule exI [of _ "[with_context \<lparr>ctx_pid = p, ctx_sequence = ts_sequence s\<rparr> e]"])
    (use emitted_emit [of rep "s\<lparr>ts_tasks := t\<rparr>" e p] assms in simp)

lemma follows_updates [simp]:
  "follows b rep s (s'\<lparr>ts_resume_current := x\<rparr>) = follows b rep s s'"
  "follows b rep s (s'\<lparr>ts_pending_signal := sig\<rparr>) = follows b rep s s'"
  by (simp_all add: follows_def)

lemma registered_store [simp]:
  "find_task tasks pid = Some t \<Longrightarrow> registered b (task_store pid t' tasks) A = registered b tasks A"
  by (auto simp: registered_def find_task_store)

lemma follows_self [simp]: "follows b rep s s"
  by (rule follows_silent) simp_all

lemma follows_decode_stop:
  assumes "find_task (ts_tasks s) p = Some task"
  shows "follows b rep s (decode_stop rep env p regs task s)"
proof -
  have store: "follows b rep s (emit_optional rep ev p (s\<lparr>ts_tasks := task_store p t (ts_tasks s)\<rparr>))"
    if "\<And>A. pred_option (\<lambda>e. announce e A = A) ev" for ev t
  proof (cases ev)
    case None
    then show ?thesis using assms by (auto simp: emit_optional_def intro: follows_silent)
  next
    case (Some e)
    with that assms show ?thesis by (auto simp: emit_optional_def intro: follows_emit)
  qed
  from assms have "follows b rep s (s\<lparr>ts_tasks := task_store p t (ts_tasks s)\<rparr>)" for t
    by (auto intro: follows_silent)
  with store announce_decoded(1) [of _ env p regs] announce_decoded(2) [of _ p regs] show ?thesis
    by (cases "task_phase task") (simp_all add: decode_stop_def split_beta Let_def)
qed

lemma follows_syscall:
  assumes "handle_syscall api rep st s k = (out, s', k')" "b \<longrightarrow> never_gone api"
  shows "follows b rep s s'"
proof -
  have erase: "follows False rep s (s\<lparr>ts_tasks := erase_task p (ts_tasks s)\<rparr>)" for p
    by (rule follows_silent) (auto simp: registered_def find_task_erase)
  have "\<not> b" if "get_registers api p k1 = (Inl err, k2)" "le_code err = ESRCH" for p k1 err k2
    using that assms(2) unfolding never_gone_def
    by (auto simp: get_registers_def split: prod.splits sum.splits) (metis fst_conv)
  with assms(1) erase show ?thesis
    unfolding handle_syscall_def Let_def
    by (auto simp: follows_decode_stop split: option.splits sum.splits prod.splits if_splits)
qed

lemma follows_ptrace_event:
  assumes "handle_ptrace_event api rep st s k = (out, s', k')"
  shows "follows b rep s s'"
proof -
  have child: "follows b rep s (emit rep (ProcessSpawned c p empty_context) p
      (s\<lparr>ts_tasks := insert_child c p fds (ts_tasks s)\<rparr>))" for c p fds
    by (rule follows_emit) (auto simp: registered_def insert_child_def find_task_emplace)
  have exec: "follows b rep s (s\<lparr>ts_tasks := task_store p t' (ts_tasks s)\<rparr>)"
    if "find_task (ts_tasks s) p = Some t" for p t t'
    using that by (auto intro: follows_silent)
  show ?thesis
    using assms child exec unfolding handle_ptrace_event_def Let_def
    by (auto split: sum.splits prod.splits option.splits if_splits)
qed

lemma follows_gone:
  assumes "handle_gone rep root st s = (out, s')"
  shows "follows b rep s s'"
proof -
  define e1 where "e1 = ProcessExited (stop_pid st)
    (if kind st = StopSignaled then signal st else exit_status st) (kind st = StopSignaled) empty_context"
  define e2 where "e2 = TraceFinished (stop_pid st)
    (if kind st = StopSignaled then signal st else exit_status st) (kind st = StopSignaled) empty_context"
  let ?s2 = "(emit rep e1 (stop_pid st) s)\<lparr>ts_tasks := erase_task (stop_pid st) (ts_tasks s)\<rparr>"
  let ?x1 = "with_context \<lparr>ctx_pid = stop_pid st, ctx_sequence = ts_sequence s\<rparr> e1"
  let ?x2 = "with_context \<lparr>ctx_pid = stop_pid st, ctx_sequence = ts_sequence ?s2\<rparr> e2"
  have erased: "registered b (erase_task (stop_pid st) (ts_tasks s)) (announce e1 A)"
    if "registered b (ts_tasks s) A" for A
    using that by (auto simp: registered_def find_task_erase e1_def)
  have one: "emitted rep s ?s2 [?x1]" using emitted_emit [of rep s e1 "stop_pid st"] by simp
  have two: "emitted rep s (emit rep e2 (stop_pid st) ?s2) [?x1, ?x2]"
    using emitted_trans [OF one emitted_emit [of rep ?s2 e2 "stop_pid st"]] by simp
  have "s' = ?s2 \<or> s' = emit rep e2 (stop_pid st) ?s2"
    using assms by (auto simp: handle_gone_def Let_def e1_def e2_def split: if_splits)
  moreover have "follows b rep s ?s2"
    unfolding follows_def using one erased by (intro exI [of _ "[?x1]"]) simp
  moreover have "follows b rep s (emit rep e2 (stop_pid st) ?s2)"
    unfolding follows_def using two erased by (intro exI [of _ "[?x1, ?x2]"]) (simp add: e2_def)
  ultimately show ?thesis by blast
qed

lemma follows_trans: "follows b rep s s' \<Longrightarrow> follows b rep s' s'' \<Longrightarrow> follows b rep s s''"
  unfolding follows_def by (metis emitted_trans fold_append comp_apply)

lemma follows_stop:
  assumes "handle_stop api rep root st s k = (out, s', k')" "b \<longrightarrow> never_gone api"
  shows "follows b rep s s'"
  using assms follows_gone [of rep root st s out s' b] follows_ptrace_event [of api rep st s k out s' k' b]
    follows_syscall [of api rep st s k out s' k' b]
  by (auto simp: handle_stop_def split: if_splits prod.splits)

lemma follows_step:
  assumes "trace_step api rep root s k = Some (out, s', k')" "b \<longrightarrow> never_gone api"
  shows "follows b rep s s'"
  using assms(1)
proof (cases rule: trace_step_cases)
  case failed
  then show ?thesis by (auto intro: follows_silent)
next
  case (handled s1 pid status k2)
  have "follows b rep s s1" using handled(1,2) by (auto intro: follows_silent)
  from follows_trans [OF this follows_stop [OF handled(4) assms(2)]] show ?thesis .
qed

lemma follows_reach:
  "trace_reach api rep root s0 k0 s k \<Longrightarrow> b \<longrightarrow> never_gone api \<Longrightarrow> follows b rep s0 s"
  by (induction rule: trace_reach.induct) (auto intro: follows_trans follows_step)

lemma initial_registered:
  "registered b (ts_tasks (initial_state rep root r)) {root}"
  by (simp add: registered_def initial_state_def insert_root_def find_task_emplace) (simp add: find_task_def dom_def)

section \<open>A scripted kernel\<close>

text \<open>A kernel that answers waits from a script, reports every child as process 8 and succeeds
  otherwise, and a reporter that keeps every event: the instances on which the properties below
  are exercised.\<close>

type_synonym script = "(int + int \<times> 32 word) list"

definition script_kernel :: "script kernel" where
  "script_kernel =
     \<lparr>k_waitpid = \<lambda>_ k. (case k of [] \<Rightarrow> (Inl 10, []) | a # k' \<Rightarrow> (a, k')),
      k_set_options = \<lambda>_ k. (None, k),
      k_syscall = \<lambda>_ _ k. (None, k),
      k_event_message = \<lambda>_ k. (Inr 8, k),
      k_get_registers = \<lambda>_ k. (Inr sample_regs, k),
      k_memory = \<lambda>_. silent_env,
      k_kill = \<lambda>_ _ k. (Some ESRCH, k),
      k_reap = \<lambda>_ k. k\<rparr>"

definition keep_all :: "event list reporter" where
  "keep_all = \<lparr>rep_report = \<lambda>e es. es @ [e], rep_stop_requested = \<lambda>_. False\<rparr>"

lemma script_wait:
  "wait_for script_kernel p (Inr a # k) = Some (Inr a, k)"
  "wait_for script_kernel p (Inl EINTR # k) = wait_for script_kernel p k"
  by (subst wait_for.simps, simp add: script_kernel_def)+

lemma script_resume:
  "resume_task script_kernel s k =
     (None, if ts_resume_current s then s\<lparr>ts_pending_signal := 0, ts_resume_current := False\<rparr> else s, k)"
  by (simp add: resume_task_def wrapper_defs script_kernel_def)

lemma script_step:
  "trace_step script_kernel rep root s (Inr (p, status) # k) =
     Some (handle_stop script_kernel rep root (classify_stop p status)
       ((if ts_resume_current s then s\<lparr>ts_pending_signal := 0, ts_resume_current := False\<rparr> else s)
          \<lparr>ts_current_pid := p\<rparr>) k)"
  by (simp add: trace_step_def script_resume script_wait)

section \<open>Properties\<close>

lemma trace_run_numbered:
  assumes "trace_run api rep root r k = Some (Finished code, r', k')"
  shows "\<exists>es status signaled ctx.
    r' = fold (rep_report rep) es r \<and> es \<noteq> [] \<and>
    hd es = TraceStarted root \<lparr>ctx_pid = root, ctx_sequence = 0\<rparr> \<and>
    map (\<lambda>e. ctx_sequence (context_of e)) es = map word_of_nat [0..<length es] \<and>
    last es = TraceFinished root status signaled ctx \<and>
    code = (if signaled then 128 + status else status)"
proof -
  let ?s0 = "initial_state rep root r"
  from assms obtain k2 s' k3 where loop: "trace_loop api rep root ?s0 k2 = Some (Finished code, s', k3)"
    and r': "r' = ts_reporter s'"
    by (auto simp: trace_run_def split: option.splits sum.splits prod.splits if_splits)
  from trace_loop_end [OF loop] obtain s1 k1 where reach: "trace_reach api rep root ?s0 k2 s1 k1"
    and step: "trace_step api rep root s1 k1 = Some (Some (Finished code), s', k3)"
    by (auto simp: loop_end_def)
  from trace_reach_emitted [OF reach] obtain es1 where es1: "emitted rep ?s0 s1 es1" by blast
  from emitted_step [OF step] obtain es2 status signaled ctx where es2: "emitted rep s1 s' es2" "es2 \<noteq> []"
    "last es2 = TraceFinished root status signaled ctx" "code = (if signaled then 128 + status else status)"
    by blast
  let ?e0 = "TraceStarted root \<lparr>ctx_pid = root, ctx_sequence = 0\<rparr>"
  let ?es = "?e0 # es1 @ es2"
  have s0: "ts_reporter ?s0 = rep_report rep ?e0 r" "ts_sequence ?s0 = 1"
    by (simp_all add: initial_state_def)
  have "emitted rep ?s0 s' (es1 @ es2)" by (rule emitted_trans [OF es1 es2(1)])
  then have "ts_reporter s' = fold (rep_report rep) ?es r" and "stamped 1 (es1 @ es2)"
    by (simp_all add: emitted_def s0)
  moreover from this(2) have "stamped 0 ?es"
    using stamped_append [of 0 "[?e0]" "es1 @ es2"] by (simp add: stamped_single)
  then have "map (\<lambda>e. ctx_sequence (context_of e)) ?es = map word_of_nat [0..<length ?es]"
    unfolding stamped_def by (simp only: add_0)
  ultimately show ?thesis
    using r' es2 by (intro exI [of _ ?es] exI [of _ status] exI [of _ signaled] exI [of _ ctx]) simp
qed

text \<open>C1. The shape of a complete trace, for every kernel and every reporter: when the tracer
  finishes, the reporter has received a list of events that starts with the start of the trace,
  is numbered 0, 1, 2, ... without gaps, and ends with the end of the root process; the exit code
  is the root's exit status, or 128 plus its signal.\<close>

theorem trace_run_stream:
  assumes "trace_run api rep root r k = Some (Finished code, r', k')"
  shows "\<exists>es status signaled ctx.
    r' = fold (rep_report rep) es r \<and> es \<noteq> [] \<and>
    hd es = TraceStarted root \<lparr>ctx_pid = root, ctx_sequence = 0\<rparr> \<and>
    map (\<lambda>e. ctx_sequence (context_of e)) es = map word_of_nat [0..<length es] \<and>
    last es = TraceFinished root status signaled ctx \<and>
    code = (if signaled then 128 + status else status)"
  using assms by (rule trace_run_numbered)

definition exit_script :: script where
  "exit_script = [Inl EINTR, Inr (7, encode_status (Stopped 5 0)), Inr (7, encode_status (Exited 3))]"

lemma script_exit_run_any:
  "trace_run script_kernel rep 7 r exit_script =
     Some (Finished 3,
       fold (rep_report rep)
         [TraceStarted 7 \<lparr>ctx_pid = 7, ctx_sequence = 0\<rparr>,
          ProcessExited 7 3 False \<lparr>ctx_pid = 7, ctx_sequence = 1\<rparr>,
          TraceFinished 7 3 False \<lparr>ctx_pid = 7, ctx_sequence = 2\<rparr>] r, [])"
proof -
  have cls: "classify_stop 7 (encode_status (Exited 3)) =
      \<lparr>stop_pid = 7, raw_status = encode_status (Exited 3), kind = StopExited, signal = 0,
       ptrace_event = 0, exit_status = 3\<rparr>"
    by (subst classify_encoded) simp_all
  have w: "wait_for script_kernel 7 exit_script =
      Some (Inr (7, encode_status (Stopped 5 0)), [Inr (7, encode_status (Exited 3))])"
    by (simp add: exit_script_def script_wait del: encode_status.simps)
  have gone: "snd (handle_stop script_kernel rep 7 (classify_stop 7 (encode_status (Exited 3))) s []) =
      (snd (handle_gone rep 7 (classify_stop 7 (encode_status (Exited 3))) s), [])"
    "fst (handle_stop script_kernel rep 7 (classify_stop 7 (encode_status (Exited 3))) s []) =
      Some (Finished 3)" for s
    unfolding cls by (simp_all add: handle_stop_def handle_gone_def Let_def)
  have tasks: "\<not> registry_empty (ts_tasks (initial_state rep 7 r))"
    by (simp add: initial_state_def insert_root_def registry_emplace_def registry_empty_def)
  have step: "trace_step script_kernel rep 7 (initial_state rep 7 r)
      [Inr (7, encode_status (Exited 3))] = Some (Some (Finished 3),
        snd (handle_gone rep 7 (classify_stop 7 (encode_status (Exited 3)))
          ((initial_state rep 7 r)
            \<lparr>ts_pending_signal := 0, ts_resume_current := False, ts_current_pid := 7\<rparr>)), [])"
    unfolding script_step by (rule arg_cong [of _ _ Some], rule prod_eqI)
      (simp_all only: gone fst_conv snd_conv, simp_all add: initial_state_def)
  have "trace_loop script_kernel rep 7 (initial_state rep 7 r)
      [Inr (7, encode_status (Exited 3))] = Some (Finished 3,
        snd (handle_gone rep 7 (classify_stop 7 (encode_status (Exited 3)))
          ((initial_state rep 7 r)
            \<lparr>ts_pending_signal := 0, ts_resume_current := False, ts_current_pid := 7\<rparr>)), [])"
    by (subst trace_loop.simps) (simp only: tasks step if_False option.case prod.case)
  moreover have "ts_reporter (snd (handle_gone rep 7 (classify_stop 7 (encode_status (Exited 3)))
          ((initial_state rep 7 r)
            \<lparr>ts_pending_signal := 0, ts_resume_current := False, ts_current_pid := 7\<rparr>))) =
      fold (rep_report rep) [TraceStarted 7 \<lparr>ctx_pid = 7, ctx_sequence = 0\<rparr>,
        ProcessExited 7 3 False \<lparr>ctx_pid = 7, ctx_sequence = 1\<rparr>,
        TraceFinished 7 3 False \<lparr>ctx_pid = 7, ctx_sequence = 2\<rparr>] r"
    unfolding cls by (simp add: handle_gone_def Let_def initial_state_def)
  moreover have "k_set_options script_kernel 7 k = (None, k)" "session_end script_kernel 7 k = k" for k
    by (simp_all add: session_end_def script_kernel_def)
  ultimately show ?thesis
    unfolding trace_run_def w by (simp add: wrapper_defs)
qed

lemma script_exit_run:
  "trace_run script_kernel keep_all 7 [] exit_script =
     Some (Finished 3,
       [TraceStarted 7 \<lparr>ctx_pid = 7, ctx_sequence = 0\<rparr>,
        ProcessExited 7 3 False \<lparr>ctx_pid = 7, ctx_sequence = 1\<rparr>,
        TraceFinished 7 3 False \<lparr>ctx_pid = 7, ctx_sequence = 2\<rparr>], [])"
  by (simp add: script_exit_run_any keep_all_def)

theorem trace_run_stream_witness:
  "\<exists>es status signaled ctx.
    [TraceStarted 7 \<lparr>ctx_pid = 7, ctx_sequence = 0\<rparr>,
     ProcessExited 7 3 False \<lparr>ctx_pid = 7, ctx_sequence = 1\<rparr>,
     TraceFinished 7 3 False \<lparr>ctx_pid = 7, ctx_sequence = 2\<rparr>] =
       fold (rep_report keep_all) es [] \<and> es \<noteq> [] \<and>
    last es = TraceFinished 7 status signaled ctx \<and>
    (3::int) = (if signaled then 128 + status else status)"
  using trace_run_stream [OF script_exit_run] by blast

text \<open>C18. The registry and the reported stream agree: in every state the loop can reach, each registered
  task has been announced to the reporter (the start of the trace or a spawn event) and has not been
  reported as exited since; and the registry holds exactly those tasks when the kernel never answers
  \<^verbatim>\<open>PTRACE_GETREGS\<close> with \<^verbatim>\<open>ESRCH\<close>, the only answer on which the tracer drops a task without an event.\<close>

theorem registry_follows_stream:
  assumes "trace_reach api rep root (initial_state rep root r) k0 s k"
  shows "\<exists>es. ts_reporter s = fold (rep_report rep) es r \<and>
    dom (find_task (ts_tasks s)) \<subseteq> announced es \<and>
    ((\<forall>pid k. fst (k_get_registers api pid k) \<noteq> Inl ESRCH) \<longrightarrow>
       dom (find_task (ts_tasks s)) = announced es)"
proof -
  let ?s0 = "initial_state rep root r"
  let ?e0 = "TraceStarted root \<lparr>ctx_pid = root, ctx_sequence = 0\<rparr>"
  have "follows (never_gone api) rep ?s0 s" by (rule follows_reach [OF assms]) simp
  then obtain es where
    es: "emitted rep ?s0 s es" "registered (never_gone api) (ts_tasks s) (fold announce es {root})"
    using initial_registered [of "never_gone api" rep root r] unfolding follows_def by blast
  have "ts_reporter ?s0 = rep_report rep ?e0 r" by (simp add: initial_state_def)
  with es(1) have "ts_reporter s = fold (rep_report rep) (?e0 # es) r" by (simp add: emitted_def)
  moreover have "announced (?e0 # es) = fold announce es {root}" by (simp add: announced_def)
  moreover have "dom (find_task (ts_tasks s)) \<subseteq> fold announce es {root}"
    "never_gone api \<Longrightarrow> dom (find_task (ts_tasks s)) = fold announce es {root}"
    using es(2) by (auto simp only: registered_def)
  ultimately show ?thesis
    unfolding never_gone_def [symmetric] by (intro exI [of _ "?e0 # es"] conjI impI) simp_all
qed

definition forked_state :: "event list trace_state" where
  "forked_state =
     \<lparr>ts_tasks = insert_child 8 7 fd_empty (insert_root 7 []), ts_sequence = 2, ts_pending_signal = 0,
      ts_current_pid = 7, ts_resume_current = True,
      ts_reporter = [TraceStarted 7 \<lparr>ctx_pid = 7, ctx_sequence = 0\<rparr>,
                     ProcessSpawned 8 7 \<lparr>ctx_pid = 7, ctx_sequence = 1\<rparr>]\<rparr>"

lemma script_fork_step:
  "trace_step script_kernel keep_all 7 (initial_state keep_all 7 [])
     [Inr (7, encode_status (Stopped 5 1))] =
   Some (None, forked_state, [])"
proof -
  have cls: "classify_stop 7 (encode_status (Stopped 5 1)) =
      \<lparr>stop_pid = 7, raw_status = encode_status (Stopped 5 1), kind = StopPtraceEvent, signal = 5,
       ptrace_event = 1, exit_status = 0\<rparr>"
    by (subst classify_encoded) simp_all
  have msg: "k_event_message script_kernel p k = (Inr 8, k)" "to_int 8 = 8" for p k
    by (simp_all add: script_kernel_def to_int_def)
  show ?thesis
    unfolding script_step cls
    by (simp add: handle_stop_def handle_ptrace_event_def wrapper_defs msg initial_state_def emit_def keep_all_def
        find_task_def insert_root_def registry_emplace_def new_task_def forked_state_def)
qed

lemma forked_child: "find_task (ts_tasks forked_state) 8 = Some (child_task 8 7 fd_empty)"
  by (simp add: forked_state_def find_task_def insert_child_def insert_root_def registry_emplace_def)

lemma script_fork_reach:
  "trace_reach script_kernel keep_all 7 (initial_state keep_all 7 [])
     [Inr (7, encode_status (Stopped 5 1))] forked_state []"
proof -
  have "\<not> registry_empty (ts_tasks (initial_state keep_all 7 []))"
    by (simp add: initial_state_def insert_root_def registry_emplace_def registry_empty_def)
  from trace_reach.step [OF trace_reach.start this script_fork_step] show ?thesis .
qed

theorem registry_follows_stream_witness:
  "\<exists>es. ts_reporter forked_state = fold (rep_report keep_all) es [] \<and>
     dom (find_task (ts_tasks forked_state)) = announced es"
proof -
  have "\<forall>pid k. fst (k_get_registers script_kernel pid k) \<noteq> Inl ESRCH" by (simp add: script_kernel_def)
  with registry_follows_stream [OF script_fork_reach] show ?thesis by blast
qed

text \<open>C29. Isolation: handling a stop of one task never changes another one; the only task that
  can appear is a new child, which starts in the entry phase with a copy of the descriptors of
  the task that stopped.\<close>

theorem trace_step_isolates_tasks:
  assumes "trace_step api rep root s k = Some (out, s', k')" "q \<noteq> ts_current_pid s'"
  shows "find_task (ts_tasks s') q = find_task (ts_tasks s) q \<or>
    find_task (ts_tasks s) q = None \<and>
    (\<exists>parent. find_task (ts_tasks s) (ts_current_pid s') = Some parent \<and>
       find_task (ts_tasks s') q = Some (child_task q (ts_current_pid s') (task_fds parent)))"
  using assms(1)
proof (cases rule: trace_step_cases)
  case (handled s1 pid status k2)
  have pid: "stop_pid (classify_stop pid status) = pid"
    by (simp add: classify_stop_def Let_def)
  have cur: "ts_current_pid s' = ts_current_pid s1"
    using handled(4)
    by (auto simp: handle_stop_def handle_gone_def handle_ptrace_event_def handle_syscall_def decode_stop_def
        Let_def split: if_splits prod.splits sum.splits option.splits syscall_phase.splits)
  from others_kept_stop [OF handled(4)] assms(2) cur handled(2,3) show ?thesis
    unfolding pid others_kept_def by simp
qed simp

theorem trace_step_isolates_tasks_witness:
  "(8::int) \<noteq> ts_current_pid forked_state \<and>
   (find_task (ts_tasks forked_state) 8 = find_task (ts_tasks (initial_state keep_all 7 [])) 8 \<or>
    find_task (ts_tasks (initial_state keep_all 7 [])) 8 = None)"
proof -
  have "(8::int) \<noteq> ts_current_pid forked_state" by (simp add: forked_state_def)
  from this trace_step_isolates_tasks [OF script_fork_step this] show ?thesis by (elim disjE) simp_all
qed

lemma emit_kills:
  "rep_stop_requested rep (ts_reporter (emit rep e p s)) \<Longrightarrow> ts_pending_signal (emit rep e p s) = SIGKILL"
  by simp

lemma emit_optional_kills:
  "ts_sequence (emit_optional rep e p s) \<noteq> ts_sequence s \<Longrightarrow>
   rep_stop_requested rep (ts_reporter (emit_optional rep e p s)) \<Longrightarrow>
   ts_pending_signal (emit_optional rep e p s) = SIGKILL"
  by (cases e) (simp_all add: emit_optional_def)

lemma decode_stop_kills:
  assumes "ts_sequence (decode_stop rep env p regs task s) \<noteq> ts_sequence s"
    "rep_stop_requested rep (ts_reporter (decode_stop rep env p regs task s))"
  shows "ts_pending_signal (decode_stop rep env p regs task s) = SIGKILL"
proof (cases "task_phase task")
  case PhaseEntry
  obtain ev d where d: "on_entry env p regs (task_decoder task) = (ev, d)" by fastforce
  show ?thesis
    using assms emit_optional_kills [of rep ev p
      "s\<lparr>ts_tasks := task_store p (task\<lparr>task_decoder := d, task_phase := PhaseExit\<rparr>) (ts_tasks s)\<rparr>"]
    by (simp add: decode_stop_def PhaseEntry d)
next
  case PhaseExit
  obtain ev t where t: "on_exit p regs (task_decoder task) (task_fds task) = (ev, t)" by fastforce
  show ?thesis
    using assms emit_optional_kills [of rep ev p
      "s\<lparr>ts_tasks := task_store p (task\<lparr>task_fds := t, task_phase := PhaseEntry\<rparr>) (ts_tasks s)\<rparr>"]
    by (simp add: decode_stop_def PhaseExit t)
next
  case PhaseUnknown
  with assms show ?thesis by (simp add: decode_stop_def)
qed

lemma decode_stop_frame [simp]:
  "ts_current_pid (decode_stop rep env p regs task s) = ts_current_pid s"
  by (cases "task_phase task") (auto simp: decode_stop_def split: prod.splits)

lemma handle_stop_kills:
  assumes "kind st = StopSyscall \<or> kind st = StopPtraceEvent"
    and "handle_stop api rep root st s k = (None, s', k')"
    and "ts_sequence s' \<noteq> ts_sequence s"
    and "rep_stop_requested rep (ts_reporter s')"
  shows "ts_pending_signal s' = SIGKILL \<and> ts_resume_current s' \<and> ts_current_pid s' = ts_current_pid s"
  using assms(1)
proof
  assume "kind st = StopSyscall"
  with assms(2) have "handle_syscall api rep st s k = (None, s', k')" by (simp add: handle_stop_def)
  with assms(3,4) decode_stop_kills show ?thesis
    by (auto simp: handle_syscall_def Let_def split: option.splits sum.splits prod.splits if_splits)
next
  assume "kind st = StopPtraceEvent"
  with assms(2) have "handle_ptrace_event api rep st s k = (None, s', k')" by (simp add: handle_stop_def)
  with assms(3,4) show ?thesis
    by (auto simp: handle_ptrace_event_def Let_def split: option.splits sum.splits prod.splits if_splits)
qed

text \<open>Enforcement: when the event reported for a system call or a new process makes the
  reporter ask for a stop, the very next call the tracer makes is to resume that task with
  \<^verbatim>\<open>SIGKILL\<close>, before any further wait.\<close>

theorem stop_request_kills_task:
  assumes "kind st = StopSyscall \<or> kind st = StopPtraceEvent"
    and "handle_stop api rep root st s k = (None, s', k')"
    and "ts_sequence s' \<noteq> ts_sequence s"
    and "rep_stop_requested rep (ts_reporter s')"
  shows "snd (snd (resume_task api s' k')) = snd (k_syscall api (ts_current_pid s) SIGKILL k') \<and>
    ts_pending_signal s' = SIGKILL \<and> ts_resume_current s'"
  using handle_stop_kills [OF assms]
  by (auto simp: resume_task_def Let_def wrapper_state_pair split: prod.splits sum.splits)

definition stop_at_spawn :: "bool reporter" where
  "stop_at_spawn = \<lparr>rep_report = \<lambda>e b. b \<or> is_process_spawned e, rep_stop_requested = \<lambda>b. b\<rparr>"

definition fork_stop :: stop where
  "fork_stop = \<lparr>stop_pid = 7, raw_status = encode_status (Stopped 5 1), kind = StopPtraceEvent,
     signal = 5, ptrace_event = PTRACE_EVENT_FORK, exit_status = 0\<rparr>"

theorem stop_request_kills_task_witness:
  "\<exists>s'. handle_stop script_kernel stop_at_spawn 7 fork_stop (initial_state stop_at_spawn 7 False) [] =
     (None, s', []) \<and> ts_pending_signal s' = SIGKILL"
proof -
  obtain s' where s': "handle_stop script_kernel stop_at_spawn 7 fork_stop
      (initial_state stop_at_spawn 7 False) [] = (None, s', [])"
    and seq: "ts_sequence s' = 2" and rep: "ts_reporter s'"
    by (simp add: handle_stop_def handle_ptrace_event_def wrapper_defs fork_stop_def script_kernel_def initial_state_def
        emit_def stop_at_spawn_def find_task_def insert_root_def registry_emplace_def)
  have "kind fork_stop = StopSyscall \<or> kind fork_stop = StopPtraceEvent" by (simp add: fork_stop_def)
  from stop_request_kills_task [OF this s'] seq rep s' show ?thesis
    by (simp add: initial_state_def) (simp add: stop_at_spawn_def)
qed

text \<open>C17. Liveness at the end of the root process: whatever the state, once the root task has been
  resumed and its termination is waited for, the loop returns, with the process's exit status or
  128 plus the fatal signal.\<close>

theorem trace_loop_returns_at_root_exit:
  assumes "\<not> registry_empty (ts_tasks s)"
    and "resume_task api s k = (None, s1, k1)"
    and "wait_for api (- 1) k1 = Some (Inr (root, encode_status r), k2)"
    and "valid_report r" and "\<forall>sig ev. r \<noteq> Stopped sig ev"
  shows "\<exists>s'. trace_loop api rep root s k =
    Some (Finished (case r of Exited code \<Rightarrow> int code | Killed sig _ \<Rightarrow> 128 + int sig | Stopped _ _ \<Rightarrow> 0), s', k2)"
proof -
  let ?code = "case r of Exited code \<Rightarrow> int code | Killed sig _ \<Rightarrow> 128 + int sig | Stopped _ _ \<Rightarrow> 0"
  have step: "trace_step api rep root s k = Some (handle_stop api rep root
      (classify_stop root (encode_status r)) (s1\<lparr>ts_current_pid := root\<rparr>) k2)"
    using assms(2,3) by (simp add: trace_step_def)
  obtain out s' where hs: "handle_stop api rep root (classify_stop root (encode_status r))
      (s1\<lparr>ts_current_pid := root\<rparr>) k2 = (out, s', k2)" and out: "out = Some (Finished ?code)"
    unfolding classify_encoded [OF assms(4)] using assms(5)
    by (cases r) (simp_all add: handle_stop_def handle_gone_def Let_def)
  show ?thesis
    by (subst trace_loop.simps) (simp add: assms(1) step hs out)
qed

theorem trace_loop_returns_at_root_exit_witness:
  "\<exists>s'. trace_loop script_kernel keep_all 7 (initial_state keep_all 7 [])
     [Inr (7, encode_status (Killed 9 False))] = Some (Finished 137, s', [])"
proof -
  have ne: "\<not> registry_empty (ts_tasks (initial_state keep_all 7 []))"
    by (simp add: initial_state_def insert_root_def registry_emplace_def registry_empty_def)
  show ?thesis
    using trace_loop_returns_at_root_exit [OF ne script_resume script_wait(1), of "Killed 9 False" keep_all]
    by simp
qed

text \<open>Two interrupted waits and an answer.\<close>

theorem wait_for_retries_witness:
  "wait_for script_kernel 7 [Inl EINTR, Inl EINTR, Inr (7, 0)] = Some (Inr (7, 0), [])"
proof -
  let ?ks = "\<lambda>i. drop i [Inl EINTR, Inl EINTR, Inr (7, 0)] :: script"
  have "\<forall>i < 2. k_waitpid script_kernel 7 (?ks i) = (Inl EINTR, ?ks (Suc i))"
    by (simp add: script_kernel_def less_Suc_eq numeral_2_eq_2)
  moreover have "k_waitpid script_kernel 7 (?ks 2) = (Inr (7, 0), [])"
    by (simp add: script_kernel_def)
  ultimately show ?thesis using wait_for_retries [of 2 script_kernel 7 ?ks "Inr (7, 0)" "[]"] by simp
qed

end
