(* ===== verification/Policy_Engine.thy ===== *)
theory Policy_Engine
  imports Event_Model
begin

text \<open>
  The policy engine (\<^verbatim>\<open>src/policy/policy.cpp\<close>) and the reporter that puts it in front of
  another reporter (\<^verbatim>\<open>src/policy/policy_reporter.cpp\<close>). The engine's members are a record;
  the reference \<^verbatim>\<open>downstream_\<close> is the state of the downstream reporter, whose
  \<^verbatim>\<open>report\<close> is a parameter.
\<close>

section \<open>The engine\<close>

datatype decision = Allow | Deny

record violation =
  v_rule :: string
  v_resource :: string
  v_context :: event_context

record policy_config =
  denied_paths :: "string list"
  denied_endpoints :: "string list"
  denied_syscalls :: "string list"
  max_processes :: "64 word"

record policy_engine =
  pe_config :: policy_config
  pe_violations :: "violation list"
  pe_process_count :: "64 word"

definition new_engine :: "policy_config \<Rightarrow> policy_engine" where
  "new_engine config = \<lparr>pe_config = config, pe_violations = [], pe_process_count = 0\<rparr>"

text \<open>The two visitors at the head of \<^verbatim>\<open>evaluate\<close>: the resource is the path if the event
  has one, else the endpoint if it has one, else empty; only a failed system call has a
  system-call name.\<close>

definition event_resource :: "event \<Rightarrow> string" where
  "event_resource e =
     (case path_of e of Some p \<Rightarrow> p
      | None \<Rightarrow> (case endpoint_of e of Some p \<Rightarrow> p | None \<Rightarrow> []))"

definition event_syscall :: "event \<Rightarrow> string" where
  "event_syscall e = (case syscall_of e of Some (s, _) \<Rightarrow> s | None \<Rightarrow> [])"

definition push_violation :: "string \<Rightarrow> string \<Rightarrow> event \<Rightarrow> policy_engine \<Rightarrow> policy_engine" where
  "push_violation rule resource e eng =
     eng\<lparr>pe_violations := pe_violations eng @
           [\<lparr>v_rule = rule, v_resource = resource, v_context = context_of e\<rparr>]\<rparr>"

definition evaluate :: "event \<Rightarrow> policy_engine \<Rightarrow> decision \<times> policy_engine" where
  "evaluate e eng0 =
     (let config = pe_config eng0;
          resource = event_resource e;
          syscall = event_syscall e;
          process_spawn = is_process_spawned e;
          eng = (if process_spawn
                 then eng0\<lparr>pe_process_count := pe_process_count eng0 + 1\<rparr> else eng0)
      in if list_ex (\<lambda>denied. starts_with resource denied) (denied_paths config) then
           (Deny, push_violation ''denied-path'' resource e eng)
         else if list_ex (\<lambda>denied. resource \<noteq> [] \<and> starts_with resource denied)
                   (denied_endpoints config) then
           (Deny, push_violation ''denied-endpoint'' resource e eng)
         else if list_ex (\<lambda>denied. syscall = denied) (denied_syscalls config) then
           (Deny, push_violation ''denied-syscall'' syscall e eng)
         else if process_spawn \<and> max_processes config \<noteq> 0 \<and>
                 pe_process_count eng > max_processes config then
           (Deny, push_violation ''process-limit'' ''process'' e eng)
         else (Allow, eng))"

section \<open>The policy reporter\<close>

record 'r policy_reporter =
  pr_engine :: policy_engine
  pr_downstream :: 'r
  pr_denied :: bool

definition new_policy_reporter :: "policy_config \<Rightarrow> 'r \<Rightarrow> 'r policy_reporter" where
  "new_policy_reporter config downstream =
     \<lparr>pr_engine = new_engine config, pr_downstream = downstream, pr_denied = False\<rparr>"

definition violation_event :: "violation \<Rightarrow> event" where
  "violation_event v = PolicyViolation (v_rule v) (v_resource v) (v_context v)"

definition policy_report ::
  "(event \<Rightarrow> 'r \<Rightarrow> 'r) \<Rightarrow> event \<Rightarrow> 'r policy_reporter \<Rightarrow> 'r policy_reporter" where
  "policy_report report e r0 =
     (let r = r0\<lparr>pr_downstream := report e (pr_downstream r0)\<rparr>
      in case evaluate e (pr_engine r) of
           (Deny, eng) \<Rightarrow>
             r\<lparr>pr_engine := eng, pr_denied := True,
               pr_downstream :=
                 report (violation_event (last (pe_violations eng))) (pr_downstream r)\<rparr>
         | (Allow, eng) \<Rightarrow> r\<lparr>pr_engine := eng\<rparr>)"

section \<open>What a decision means\<close>

text \<open>The policy, stated without the engine. What an event touches is read off its struct: the path
  of a file event, the endpoint of a network event. The other structs, \<^verbatim>\<open>FileRenamed\<close> among them, touch
  nothing, and only a failed call is known by name.\<close>

fun touched :: "event \<Rightarrow> string" where
  "touched (FileOpened fd path c) = path"
| "touched (FileRead fd path n c) = path"
| "touched (FileWritten fd path n c) = path"
| "touched (FileClosed fd path c) = path"
| "touched (FileDeleted path c) = path"
| "touched (DirectoryCreated path c) = path"
| "touched (FileModeChanged path m c) = path"
| "touched (ProcessExec pid path c) = path"
| "touched (NetworkConnected fd endpoint c) = endpoint"
| "touched (NetworkBound fd endpoint c) = endpoint"
| "touched (NetworkAccepted fd endpoint c) = endpoint"
| "touched e = []"

fun called :: "event \<Rightarrow> string" where
  "called (SyscallFailed pid name err c) = name"
| "called e = []"

definition spawns :: "event list \<Rightarrow> nat" where
  "spawns es = length (filter is_process_spawned es)"

text \<open>The rules an event breaks after a history of events, each with the resource it is broken with.
  The number of processes is the whole number of spawn events, taken modulo the width of the counter.\<close>

inductive breaks :: "policy_config \<Rightarrow> event list \<Rightarrow> event \<Rightarrow> string \<Rightarrow> string \<Rightarrow> bool"
  for config before e
where
  path: "d \<in> set (denied_paths config) \<Longrightarrow> prefix d (touched e) \<Longrightarrow>
    breaks config before e ''denied-path'' (touched e)"
| endpoint: "d \<in> set (denied_endpoints config) \<Longrightarrow> prefix d (touched e) \<Longrightarrow> touched e \<noteq> [] \<Longrightarrow>
    breaks config before e ''denied-endpoint'' (touched e)"
| syscall: "called e \<in> set (denied_syscalls config) \<Longrightarrow>
    breaks config before e ''denied-syscall'' (called e)"
| limit: "e = ProcessSpawned child parent c \<Longrightarrow> max_processes config \<noteq> 0 \<Longrightarrow>
    unat (max_processes config) < spawns (before @ [e]) mod 2 ^ 64 \<Longrightarrow>
    breaks config before e ''process-limit'' ''process''"

text \<open>When an event breaks several rules, the one of the smallest rank is the one reported.\<close>

definition rule_rank :: "string \<Rightarrow> nat" where
  "rule_rank rule =
     (if rule = ''denied-path'' then 0 else if rule = ''denied-endpoint'' then 1
      else if rule = ''denied-syscall'' then 2 else 3)"

definition decides :: "policy_config \<Rightarrow> event list \<Rightarrow> event \<Rightarrow> string \<Rightarrow> string \<Rightarrow> bool" where
  "decides config before e rule resource \<longleftrightarrow>
     breaks config before e rule resource \<and>
     (\<forall>rule' resource'. breaks config before e rule' resource' \<longrightarrow> rule_rank rule \<le> rule_rank rule')"

definition spawned_after :: "event \<Rightarrow> 64 word \<Rightarrow> 64 word" where
  "spawned_after e n = (if is_process_spawned e then n + 1 else n)"

lemma event_resource_touched: "event_resource e = touched e"
  by (cases e) (simp_all add: event_resource_def)

lemma event_syscall_called: "event_syscall e = called e"
  by (cases e) (simp_all add: event_syscall_def)

lemma is_process_spawned_iff: "is_process_spawned e \<longleftrightarrow> (\<exists>child parent c. e = ProcessSpawned child parent c)"
  by (cases e) simp_all

lemma breaks_iff:
  "breaks config before e rule resource \<longleftrightarrow>
     rule = ''denied-path'' \<and> resource = touched e \<and>
       (\<exists>d \<in> set (denied_paths config). prefix d (touched e)) \<or>
     rule = ''denied-endpoint'' \<and> resource = touched e \<and> touched e \<noteq> [] \<and>
       (\<exists>d \<in> set (denied_endpoints config). prefix d (touched e)) \<or>
     rule = ''denied-syscall'' \<and> resource = called e \<and> called e \<in> set (denied_syscalls config) \<or>
     rule = ''process-limit'' \<and> resource = ''process'' \<and> is_process_spawned e \<and>
       max_processes config \<noteq> 0 \<and> unat (max_processes config) < spawns (before @ [e]) mod 2 ^ 64"
  (is "_ \<longleftrightarrow> ?p \<or> ?e \<or> ?s \<or> ?l")
proof
  assume "breaks config before e rule resource"
  then show "?p \<or> ?e \<or> ?s \<or> ?l"
  proof cases
    case (path d) then have ?p by blast then show ?thesis ..
  next
    case (endpoint d) then have ?e by blast then show ?thesis by (rule disjI1 [THEN disjI2])
  next
    case syscall then have ?s by blast then show ?thesis by (rule disjI1 [THEN disjI2, THEN disjI2])
  next
    case (limit child parent c)
    then have ?l unfolding is_process_spawned_iff by blast
    then show ?thesis by (rule disjI2 [THEN disjI2, THEN disjI2])
  qed
next
  assume "?p \<or> ?e \<or> ?s \<or> ?l"
  then show "breaks config before e rule resource"
    unfolding is_process_spawned_iff by (elim disjE conjE bexE exE) (blast intro: breaks.intros)+
qed

lemma rule_rank_simps [simp]:
  "rule_rank ''denied-path'' = 0" "rule_rank ''denied-endpoint'' = 1"
  "rule_rank ''denied-syscall'' = 2" "rule_rank ''process-limit'' = 3"
  by (simp_all add: rule_rank_def)

lemma evaluate_config [simp]: "pe_config (snd (evaluate e eng)) = pe_config eng"
  by (simp add: evaluate_def push_violation_def Let_def)

lemma evaluate_count [simp]:
  "pe_process_count (snd (evaluate e eng)) = spawned_after e (pe_process_count eng)"
  by (simp add: evaluate_def push_violation_def Let_def spawned_after_def)

lemma evaluate_allow_violations:
  "fst (evaluate e eng) = Allow \<Longrightarrow> pe_violations (snd (evaluate e eng)) = pe_violations eng"
  by (auto simp: evaluate_def Let_def split: if_splits)

lemma evaluate_deny_violations:
  "fst (evaluate e eng) = Deny \<Longrightarrow>
     \<exists>v. pe_violations (snd (evaluate e eng)) = pe_violations eng @ [v] \<and>
         v_context v = context_of e"
  by (auto simp: evaluate_def push_violation_def Let_def split: if_splits)

lemma count_exceeds:
  "max_processes config < spawned_after e (word_of_nat (spawns before)) \<longleftrightarrow>
     unat (max_processes config) < spawns (before @ [e]) mod 2 ^ 64"
proof -
  have "spawned_after e (word_of_nat (spawns before)) = (word_of_nat (spawns (before @ [e])) :: 64 word)"
    by (simp add: spawned_after_def spawns_def)
  then show ?thesis by (simp add: word_less_nat_alt unat_of_nat)
qed

text \<open>The engine that has counted a history judges the next event by the rules.\<close>

lemma evaluate_judges:
  assumes "pe_config eng = config" and "pe_process_count eng = word_of_nat (spawns before)"
  shows "fst (evaluate e eng) = Allow \<and> pe_violations (snd (evaluate e eng)) = pe_violations eng \<and>
      (\<nexists>rule resource. breaks config before e rule resource) \<or>
    fst (evaluate e eng) = Deny \<and>
      (\<exists>rule resource. decides config before e rule resource \<and>
        pe_violations (snd (evaluate e eng)) = pe_violations eng @
          [\<lparr>v_rule = rule, v_resource = resource, v_context = context_of e\<rparr>])"
proof -
  have counted: "(if is_process_spawned e then eng\<lparr>pe_process_count := pe_process_count eng + 1\<rparr> else eng) =
      eng\<lparr>pe_process_count := spawned_after e (word_of_nat (spawns before))\<rparr>"
    using assms(2) by (simp add: spawned_after_def)
  show ?thesis
    unfolding evaluate_def Let_def counted
    by (auto simp: assms(1) event_resource_touched event_syscall_called list_ex_iff starts_with_prefix
        push_violation_def decides_def breaks_iff count_exceeds)
qed

section \<open>Runs of the policy reporter\<close>

text \<open>The events the downstream reporter receives for a list of events: each event, followed
  by the violation it causes.\<close>

fun policy_stream :: "policy_engine \<Rightarrow> event list \<Rightarrow> event list" where
  "policy_stream eng [] = []"
| "policy_stream eng (e # es) =
     (case evaluate e eng of
        (Deny, eng') \<Rightarrow> e # violation_event (last (pe_violations eng')) # policy_stream eng' es
      | (Allow, eng') \<Rightarrow> e # policy_stream eng' es)"

fun run_engine :: "policy_engine \<Rightarrow> event list \<Rightarrow> policy_engine" where
  "run_engine eng [] = eng"
| "run_engine eng (e # es) = run_engine (snd (evaluate e eng)) es"

lemma policy_report_simps:
  "pr_engine (policy_report rep e r) = snd (evaluate e (pr_engine r))"
  "pr_denied (policy_report rep e r) \<longleftrightarrow> pr_denied r \<or> fst (evaluate e (pr_engine r)) = Deny"
  by (auto simp: policy_report_def Let_def split: prod.splits decision.splits)

interpretation policy_sink: event_sink "policy_report rep" pr_denied for rep
  by unfold_locales (simp add: policy_report_simps)

lemma fold_policy_report_engine:
  "pr_engine (fold (policy_report rep) es r) = run_engine (pr_engine r) es"
  by (induction es arbitrary: r) (simp_all add: policy_report_simps)

lemma fold_policy_report_downstream:
  "pr_downstream (fold (policy_report rep) es r) =
     fold rep (policy_stream (pr_engine r) es) (pr_downstream r)"
proof (induction es arbitrary: r)
  case (Cons e es)
  obtain dec eng where ev: "evaluate e (pr_engine r) = (dec, eng)" by fastforce
  have "pr_engine (policy_report rep e r) = eng" using ev by (simp add: policy_report_simps)
  with Cons ev show ?case
    by (cases dec) (simp_all add: policy_report_def Let_def)
qed simp

lemma run_engine_config [simp]: "pe_config (run_engine eng es) = pe_config eng"
  by (induction es arbitrary: eng) simp_all

lemma run_engine_count:
  "pe_process_count (run_engine eng es) = pe_process_count eng + word_of_nat (spawns es)"
  by (induction es arbitrary: eng) (auto simp: spawned_after_def spawns_def)

text \<open>The reporter's flag and the engine's list always agree.\<close>

definition policy_inv :: "'r policy_reporter \<Rightarrow> bool" where
  "policy_inv r \<longleftrightarrow> (pr_denied r \<longleftrightarrow> pe_violations (pr_engine r) \<noteq> [])"

lemma policy_inv_new: "policy_inv (new_policy_reporter config downstream)"
  by (simp add: policy_inv_def new_policy_reporter_def new_engine_def)

lemma policy_inv_report: "policy_inv r \<Longrightarrow> policy_inv (policy_report rep e r)"
proof (cases "fst (evaluate e (pr_engine r))")
  case Allow
  assume "policy_inv r"
  with Allow evaluate_allow_violations [OF Allow] show ?thesis
    by (simp add: policy_inv_def policy_report_simps)
next
  case Deny
  with evaluate_deny_violations [OF Deny] show ?thesis
    by (auto simp: policy_inv_def policy_report_simps)
qed

lemma policy_inv_fold: "policy_inv r \<Longrightarrow> policy_inv (fold (policy_report rep) es r)"
  by (induction es arbitrary: r) (simp_all add: policy_inv_report)

lemma run_engine_violations_mono:
  "prefix (pe_violations eng) (pe_violations (run_engine eng es))"
proof (induction es arbitrary: eng)
  case (Cons e es)
  have "prefix (pe_violations eng) (pe_violations (snd (evaluate e eng)))"
    by (cases "fst (evaluate e eng)") (auto dest: evaluate_allow_violations evaluate_deny_violations)
  with Cons [of "snd (evaluate e eng)"] show ?case by (auto intro: prefix_order.trans)
qed simp

section \<open>Properties\<close>

lemma policy_stream_length:
  "length (policy_stream eng es) + length (pe_violations eng) =
     length es + length (pe_violations (run_engine eng es))"
proof (induction es arbitrary: eng)
  case (Cons e es)
  obtain dec eng' where ev: "evaluate e eng = (dec, eng')" by fastforce
  show ?case
  proof (cases dec)
    case Allow
    with ev evaluate_allow_violations [of e eng] Cons [of eng'] show ?thesis by simp
  next
    case Deny
    with ev evaluate_deny_violations [of e eng] Cons [of eng'] show ?thesis by auto
  qed
qed simp

lemma policy_stream_subseq: "subseq es (policy_stream eng es)"
  by (induction es arbitrary: eng) (auto split: prod.splits decision.splits)

lemma run_engine_snoc: "run_engine eng (es @ [e]) = snd (evaluate e (run_engine eng es))"
  by (induction es arbitrary: eng) simp_all

lemma run_engine_judges:
  "fst (evaluate e (run_engine (new_engine config) before)) = Allow \<and>
      pe_violations (run_engine (new_engine config) (before @ [e])) =
        pe_violations (run_engine (new_engine config) before) \<and>
      (\<nexists>rule resource. breaks config before e rule resource) \<or>
    fst (evaluate e (run_engine (new_engine config) before)) = Deny \<and>
      (\<exists>rule resource. decides config before e rule resource \<and>
        pe_violations (run_engine (new_engine config) (before @ [e])) =
          pe_violations (run_engine (new_engine config) before) @
          [\<lparr>v_rule = rule, v_resource = resource, v_context = context_of e\<rparr>])"
proof -
  have "pe_config (run_engine (new_engine config) before) = config"
    "pe_process_count (run_engine (new_engine config) before) = word_of_nat (spawns before)"
    by (simp_all add: run_engine_count) (simp_all add: new_engine_def)
  from evaluate_judges [OF this] show ?thesis by (simp add: run_engine_snoc)
qed

text \<open>C24. What the policy engine decides, over whole histories and stated without the engine: after any
  events, the next one is denied if and only if it breaks a rule (what the event touches begins with a
  denied path or a denied endpoint, it is a failed call denied by name, or it is a spawn and the spawns of
  the whole history, modulo the width of the counter, exceed the limit); what is then recorded is the rule
  of the first rank with its resource and the context of this event, once, and otherwise nothing. Renames,
  which have neither a path nor an endpoint member, touch nothing.\<close>

theorem evaluate_decides:
  "(fst (evaluate e (run_engine (new_engine config) before)) = Deny \<longleftrightarrow>
      (\<exists>rule resource. breaks config before e rule resource)) \<and>
   (pe_violations (snd (evaluate e (run_engine (new_engine config) before))) =
      pe_violations (run_engine (new_engine config) before) \<or>
    (\<exists>rule resource. decides config before e rule resource \<and>
      pe_violations (snd (evaluate e (run_engine (new_engine config) before))) =
        pe_violations (run_engine (new_engine config) before) @
          [\<lparr>v_rule = rule, v_resource = resource, v_context = context_of e\<rparr>])) \<and>
   (fst (evaluate e (run_engine (new_engine config) before)) = Allow \<longleftrightarrow>
      pe_violations (snd (evaluate e (run_engine (new_engine config) before))) =
      pe_violations (run_engine (new_engine config) before))"
  using run_engine_judges [of e config before] unfolding run_engine_snoc decides_def by fastforce

text \<open>What a run forwards for the events after a history: each event, and the violation it commits.\<close>

definition forwarded :: "policy_config \<Rightarrow> event list \<Rightarrow> event \<Rightarrow> event list \<Rightarrow> bool" where
  "forwarded config before e evs \<longleftrightarrow>
     evs = [e] \<and> (\<nexists>rule resource. breaks config before e rule resource) \<or>
     (\<exists>rule resource. decides config before e rule resource \<and>
        evs = [e, PolicyViolation rule resource (context_of e)])"

lemma policy_stream_append:
  "policy_stream eng (es @ fs) = policy_stream eng es @ policy_stream (run_engine eng es) fs"
  by (induction es arbitrary: eng) (auto split: prod.splits decision.splits)

lemma policy_stream_one: "forwarded config before e (policy_stream (run_engine (new_engine config) before) [e])"
  using run_engine_judges [of e config before]
  by (auto simp: forwarded_def run_engine_snoc violation_event_def decides_def split: prod.splits decision.splits)

lemma policy_stream_groups:
  "\<exists>groups. policy_stream (new_engine config) es = concat groups \<and> length groups = length es \<and>
     (\<forall>i < length es. forwarded config (take i es) (es ! i) (groups ! i))"
proof (induction es rule: rev_induct)
  case (snoc e es)
  then obtain groups where groups: "policy_stream (new_engine config) es = concat groups"
    "length groups = length es" "\<forall>i < length es. forwarded config (take i es) (es ! i) (groups ! i)" by blast
  let ?group = "policy_stream (run_engine (new_engine config) es) [e]"
  have "policy_stream (new_engine config) (es @ [e]) = concat (groups @ [?group])"
    by (simp add: policy_stream_append groups(1) del: policy_stream.simps)
  moreover have "forwarded config (take i (es @ [e])) ((es @ [e]) ! i) ((groups @ [?group]) ! i)"
    if "i < length (es @ [e])" for i
    using that groups(2,3) policy_stream_one [of config es e] by (auto simp: nth_append less_Suc_eq)
  ultimately show ?case using groups(2) by (metis length_append_singleton)
qed simp

lemma run_engine_violations_iff:
  "pe_violations (run_engine (new_engine config) es) \<noteq> [] \<longleftrightarrow>
     (\<exists>i < length es. \<exists>rule resource. breaks config (take i es) (es ! i) rule resource)"
proof (induction es rule: rev_induct)
  case (snoc e es)
  have "(\<exists>i < length (es @ [e]). \<exists>rule resource. breaks config (take i (es @ [e])) ((es @ [e]) ! i) rule resource) \<longleftrightarrow>
      (\<exists>i < length es. \<exists>rule resource. breaks config (take i es) (es ! i) rule resource) \<or>
      (\<exists>rule resource. breaks config es e rule resource)"
    by (simp add: Ex_less_Suc nth_append disj_commute cong: conj_cong)
  with snoc.IH run_engine_judges [of e config es] show ?case by (auto simp: decides_def)
qed (simp add: new_engine_def)

text \<open>C23. The policy reporter in front of another one, exactly: for any events and any downstream
  reporter, what the latter receives is one group per event in order, the event alone when it breaks no
  rule after the events before it, and otherwise the event followed by one violation event with the
  deciding rule, its resource and the context of the event; and the reporter asks for a stop if and only
  if some event broke a rule. The rules are stated over the history, not through the engine.\<close>

theorem policy_reporter_transparent:
  "(\<exists>groups. pr_downstream (fold (policy_report rep) es (new_policy_reporter config r)) =
        fold rep (concat groups) r \<and>
      length groups = length es \<and>
      (\<forall>i < length es. forwarded config (take i es) (es ! i) (groups ! i))) \<and>
   (pr_denied (fold (policy_report rep) es (new_policy_reporter config r)) \<longleftrightarrow>
      (\<exists>i < length es. \<exists>rule resource. breaks config (take i es) (es ! i) rule resource))"
proof -
  let ?r0 = "new_policy_reporter config r"
  have r0: "pr_downstream ?r0 = r" "pr_engine ?r0 = new_engine config" by (simp_all add: new_policy_reporter_def)
  have "policy_inv (fold (policy_report rep) es ?r0)" by (rule policy_inv_fold [OF policy_inv_new])
  then have "pr_denied (fold (policy_report rep) es ?r0) \<longleftrightarrow>
      (\<exists>i < length es. \<exists>rule resource. breaks config (take i es) (es ! i) rule resource)"
    by (simp add: policy_inv_def fold_policy_report_engine r0 run_engine_violations_iff)
  with policy_stream_groups [of config es] show ?thesis
    by (auto simp: fold_policy_report_downstream r0)
qed

theorem policy_reporter_transparent_witness:
  "pr_denied (fold (policy_report (\<lambda>e n. Suc n)) [FileDeleted ''/etc/passwd'' empty_context]
     (new_policy_reporter \<lparr>denied_paths = [''/etc''], denied_endpoints = [], denied_syscalls = [],
        max_processes = 0\<rparr> 0))"
proof -
  let ?es = "[FileDeleted ''/etc/passwd'' empty_context]"
  let ?config = "\<lparr>denied_paths = [''/etc''], denied_endpoints = [], denied_syscalls = [], max_processes = 0\<rparr>"
  have "breaks ?config (take 0 ?es) (?es ! 0) ''denied-path'' ''/etc/passwd''" by (simp add: breaks_iff)
  then show ?thesis
    unfolding policy_reporter_transparent [THEN conjunct2]
    by (intro exI [of _ 0] conjI exI) simp_all
qed

lemma limit_violated:
  assumes "max_processes config \<noteq> 0" "unat (max_processes config) < spawns es" "spawns es < 2 ^ 64"
  shows "\<exists>i < length es. \<exists>rule resource. breaks config (take i es) (es ! i) rule resource"
  using assms(2,3)
proof (induction es rule: rev_induct)
  case (snoc e es)
  show ?case
  proof (cases "unat (max_processes config) < spawns es")
    case True
    moreover have "spawns es < 2 ^ 64" using snoc.prems(2) by (simp add: spawns_def split: if_splits)
    ultimately obtain i rule resource where "i < length es" "breaks config (take i es) (es ! i) rule resource"
      using snoc.IH by blast
    then show ?thesis
      by (intro exI [of _ i] exI conjI) (simp_all add: nth_append)
  next
    case False
    with snoc.prems(1) have "is_process_spawned e" by (simp add: spawns_def split: if_splits)
    with assms(1) snoc.prems have "breaks config es e ''process-limit'' ''process''"
      by (simp add: breaks_iff)
    then show ?thesis by (intro exI [of _ "length es"] exI conjI) simp_all
  qed
qed (simp add: spawns_def)

text \<open>The process limit is enforced: with a configured limit, a run in which more processes
  were spawned than the limit (and fewer than the counter can hold) has asked for a stop.\<close>

theorem process_limit_enforced:
  assumes "max_processes config \<noteq> 0"
    and "unat (max_processes config) < spawns es" and "spawns es < 2 ^ 64"
  shows "pr_denied (fold (policy_report rep) es (new_policy_reporter config r))"
proof -
  have "pe_violations (run_engine (new_engine config) es) \<noteq> []"
    using limit_violated [OF assms] by (simp add: run_engine_violations_iff)
  moreover have "policy_inv (fold (policy_report rep) es (new_policy_reporter config r))"
    by (rule policy_inv_fold [OF policy_inv_new])
  ultimately show ?thesis
    by (simp add: policy_inv_def fold_policy_report_engine) (simp add: new_policy_reporter_def)
qed

theorem process_limit_enforced_witness:
  "pr_denied (fold (policy_report (\<lambda>e n. Suc n))
     [ProcessSpawned 11 10 empty_context, ProcessSpawned 12 10 empty_context]
     (new_policy_reporter \<lparr>denied_paths = [], denied_endpoints = [], denied_syscalls = [],
        max_processes = 1\<rparr> 0))"
  by (rule process_limit_enforced) (simp_all add: spawns_def)

end
