(* ===== verification/Policy_Trace.thy ===== *)
theory Policy_Trace
  imports Trace_Loop Policy_Engine
begin

text \<open>
  The tracer with the policy reporter in front of another reporter, as \<^verbatim>\<open>inspect\<close> in
  \<^verbatim>\<open>src/main.cpp\<close> and \<^verbatim>\<open>run\<close> in \<^verbatim>\<open>src/analyze/analyze.cpp\<close> set it up: what a whole run leaves in the
  reporter, and what the tracer does about a violation.
\<close>

text \<open>The policy reporter as the tracer sees it.\<close>

definition policy_over :: "(event \<Rightarrow> 'r \<Rightarrow> 'r) \<Rightarrow> 'r policy_reporter reporter" where
  "policy_over rep = \<lparr>rep_report = policy_report rep, rep_stop_requested = pr_denied\<rparr>"

lemma policy_over_simps [simp]:
  "rep_report (policy_over rep) = policy_report rep" "rep_stop_requested (policy_over rep) = pr_denied"
  by (simp_all add: policy_over_def)

section \<open>A whole run\<close>

text \<open>However a run ends, what it leaves in the reporter is the effect of some reports.\<close>

lemma trace_run_reports:
  assumes "trace_run api rep root r k = Some (out, r', k')"
  shows "\<exists>es. r' = fold (rep_report rep) es r"
proof -
  have loop: "\<exists>es. ts_reporter s' = fold (rep_report rep) es r"
    if t: "trace_loop api rep root (initial_state rep root r) k2 = Some (out, s', k3)" for k2 s' k3
  proof -
    let ?s0 = "initial_state rep root r"
    from trace_loop_end [OF t] obtain s1 k1 where reach: "trace_reach api rep root ?s0 k2 s1 k1"
      and last: "s1 = s' \<or> trace_step api rep root s1 k1 = Some (Some out, s', k3)"
      by (auto simp: loop_end_def)
    from trace_reach_emitted [OF reach] obtain es1 where "emitted rep ?s0 s1 es1" by blast
    moreover have "\<exists>es2. emitted rep s1 s' es2"
      using last emitted_step by (metis emitted_self)
    ultimately obtain es where "emitted rep ?s0 s' es" using emitted_trans by blast
    then have "ts_reporter s' =
        fold (rep_report rep) (TraceStarted root \<lparr>ctx_pid = root, ctx_sequence = 0\<rparr> # es) r"
      by (simp add: emitted_def initial_state_def)
    then show ?thesis by blast
  qed
  have "\<exists>es. r = fold (rep_report rep) es r" by (rule exI [of _ "[]"]) simp
  with assms loop show ?thesis
    by (auto simp: trace_run_def split: option.splits sum.splits prod.splits if_splits)
qed

text \<open>A run that ends has reported a gapless stream; the downstream reporter has received it with the
  violations added, and the engine has judged exactly it.\<close>

lemma policy_trace_run:
  assumes "trace_run api (policy_over rep) root (new_policy_reporter config r) k =
    Some (Finished code, reporter, k')"
  obtains es where "es \<noteq> []"
    "map (\<lambda>e. ctx_sequence (context_of e)) es = map word_of_nat [0..<length es]"
    "pr_downstream reporter = fold rep (policy_stream (new_engine config) es) r"
    "pr_engine reporter = run_engine (new_engine config) es"
    "policy_stream (new_engine config) es \<noteq> []"
    "hd es = TraceStarted root \<lparr>ctx_pid = root, ctx_sequence = 0\<rparr>"
    "\<exists>status signaled ctx. last es = TraceFinished root status signaled ctx \<and>
       code = (if signaled then 128 + status else status)"
proof -
  from trace_run_numbered [OF assms] obtain es where
    es: "reporter = fold (policy_report rep) es (new_policy_reporter config r)" "es \<noteq> []"
      "map (\<lambda>e. ctx_sequence (context_of e)) es = map word_of_nat [0..<length es]"
      "hd es = TraceStarted root \<lparr>ctx_pid = root, ctx_sequence = 0\<rparr>"
      "\<exists>status signaled ctx. last es = TraceFinished root status signaled ctx \<and>
         code = (if signaled then 128 + status else status)"
    unfolding policy_over_simps by blast
  moreover have "policy_stream (new_engine config) es \<noteq> []"
    using policy_stream_subseq [of es "new_engine config"] es(2) by auto
  ultimately show thesis
    using that by (simp add: fold_policy_report_downstream fold_policy_report_engine new_policy_reporter_def)
qed

section \<open>Enforcement\<close>

text \<open>Handling a system-call stop or a ptrace event reports nothing, or one event stamped with the
  stopped task and the current sequence number.\<close>

definition reported_once :: "'r reporter \<Rightarrow> int \<Rightarrow> 'r trace_state \<Rightarrow> 'r trace_state \<Rightarrow> bool" where
  "reported_once rep pid s s' \<longleftrightarrow>
     ts_reporter s' = ts_reporter s \<or>
     ts_sequence s' = ts_sequence s + 1 \<and>
     (\<exists>e. context_of e = \<lparr>ctx_pid = pid, ctx_sequence = ts_sequence s\<rparr> \<and>
        ts_reporter s' = rep_report rep e (ts_reporter s))"

lemma reported_once_updates [simp]:
  "reported_once rep pid s (s'\<lparr>ts_tasks := t\<rparr>) = reported_once rep pid s s'"
  "reported_once rep pid s (s'\<lparr>ts_resume_current := b\<rparr>) = reported_once rep pid s s'"
  "reported_once rep pid s s"
  by (simp_all add: reported_once_def)

lemma reported_once_emit [simp]: "reported_once rep pid s (emit rep e pid (s\<lparr>ts_tasks := t\<rparr>))"
  unfolding reported_once_def
  by (rule disjI2) (auto intro!: exI [of _ "with_context \<lparr>ctx_pid = pid, ctx_sequence = ts_sequence s\<rparr> e"])

lemma reported_once_decode [simp]: "reported_once rep pid s (decode_stop rep env pid regs task s)"
  by (cases "task_phase task")
    (auto simp: decode_stop_def emit_optional_def split: prod.splits option.splits)

lemma handle_stop_reports_once:
  assumes "kind st = StopSyscall \<or> kind st = StopPtraceEvent"
    and "handle_stop api rep root st s k = (None, s', k')"
  shows "reported_once rep (stop_pid st) s s'"
  using assms(1)
proof
  assume "kind st = StopSyscall"
  with assms(2) have "handle_syscall api rep st s k = (None, s', k')" by (simp add: handle_stop_def)
  then show ?thesis
    by (auto simp: handle_syscall_def Let_def split: option.splits sum.splits prod.splits if_splits)
next
  assume "kind st = StopPtraceEvent"
  with assms(2) have "handle_ptrace_event api rep st s k = (None, s', k')" by (simp add: handle_stop_def)
  then show ?thesis
    by (auto simp: handle_ptrace_event_def Let_def split: option.splits sum.splits prod.splits if_splits)
qed

text \<open>C3. A violation is an audit event, and the task is resumed with a request to kill it: when the handling of
  a system-call stop or of a ptrace event makes the policy engine record a violation, it records exactly
  one, for the one event that was reported, stamped with the stopped task and the current number; the
  downstream reporter has received that event and then the violation, both before the task runs on; and
  the next call of the tracer is to resume this task with \<^verbatim>\<open>SIGKILL\<close> as the signal argument of
  \<^verbatim>\<open>PTRACE_SYSCALL\<close>. Nothing is said of the task's death: ptrace(2) promises the delivery of that argument
  only at signal-delivery stops, and these are not.\<close>

theorem policy_violation_audited:
  assumes "kind st = StopSyscall \<or> kind st = StopPtraceEvent"
    and "handle_stop api (policy_over rep) root st s k = (None, s', k')"
    and "ts_current_pid s = stop_pid st"
    and "pe_violations (pr_engine (ts_reporter s')) \<noteq> pe_violations (pr_engine (ts_reporter s))"
  shows "\<exists>e rule resource ctx.
    context_of e = ctx \<and> ctx = \<lparr>ctx_pid = stop_pid st, ctx_sequence = ts_sequence s\<rparr> \<and>
    pe_violations (pr_engine (ts_reporter s')) = pe_violations (pr_engine (ts_reporter s)) @
      [\<lparr>v_rule = rule, v_resource = resource, v_context = ctx\<rparr>] \<and>
    pr_downstream (ts_reporter s') =
      rep (PolicyViolation rule resource ctx) (rep e (pr_downstream (ts_reporter s))) \<and>
    snd (snd (resume_task api s' k')) = snd (k_syscall api (stop_pid st) SIGKILL k')"
proof -
  from handle_stop_reports_once [OF assms(1,2)] assms(4) obtain e where
    e: "ts_sequence s' = ts_sequence s + 1" "context_of e = \<lparr>ctx_pid = stop_pid st, ctx_sequence = ts_sequence s\<rparr>"
      "ts_reporter s' = policy_report rep e (ts_reporter s)"
    by (auto simp: reported_once_def)
  obtain dec eng where ev: "evaluate e (pr_engine (ts_reporter s)) = (dec, eng)" by fastforce
  have dec: "dec = Deny"
    using assms(4) evaluate_allow_violations [of e "pr_engine (ts_reporter s)"] ev
    unfolding e(3) policy_report_simps by (cases dec) auto
  with evaluate_deny_violations [of e "pr_engine (ts_reporter s)"] ev obtain v where
    v: "pe_violations eng = pe_violations (pr_engine (ts_reporter s)) @ [v]" "v_context v = context_of e" by auto
  have "pr_denied (ts_reporter s')" unfolding e(3) policy_report_simps using ev dec by simp
  with handle_stop_kills [OF assms(1,2)] e(1)
  have "ts_pending_signal s' = SIGKILL" "ts_resume_current s'" "ts_current_pid s' = ts_current_pid s" by simp_all
  then have "snd (snd (resume_task api s' k')) = snd (k_syscall api (stop_pid st) SIGKILL k')"
    using assms(3) by (auto simp: resume_task_def Let_def wrapper_state_pair split: prod.splits sum.splits)
  moreover have "pr_downstream (ts_reporter s') = rep (violation_event v) (rep e (pr_downstream (ts_reporter s)))"
    "pe_violations (pr_engine (ts_reporter s')) = pe_violations (pr_engine (ts_reporter s)) @ [v]"
    unfolding e(3) using ev dec v(1) by (simp_all add: policy_report_def)
  moreover obtain rule resource where "v = \<lparr>v_rule = rule, v_resource = resource, v_context = context_of e\<rparr>"
    using v(2) by (cases v) simp
  ultimately show ?thesis
    unfolding e(2) violation_event_def
    by (intro exI [of _ e] exI [of _ rule] exI [of _ resource] exI conjI) (simp_all add: e(2))
qed

text \<open>A reporter whose limit of one process is used up, when the task forks.\<close>

definition used_up :: "nat policy_reporter" where
  "used_up = (let r = new_policy_reporter \<lparr>denied_paths = [], denied_endpoints = [], denied_syscalls = [],
                        max_processes = 1\<rparr> 0
              in r\<lparr>pr_engine := (pr_engine r)\<lparr>pe_process_count := 1\<rparr>\<rparr>)"

theorem policy_violation_audited_witness:
  "\<exists>s' v. handle_stop script_kernel (policy_over (\<lambda>e n. Suc n)) 7 fork_stop
      (initial_state (policy_over (\<lambda>e n. Suc n)) 7 used_up) [] = (None, s', []) \<and>
    pe_violations (pr_engine (ts_reporter s')) = [v] \<and> ctx_pid (v_context v) = 7"
proof -
  let ?rep = "policy_over (\<lambda>e (n :: nat). Suc n)"
  let ?s = "initial_state ?rep 7 used_up"
  have none: "pe_violations (pr_engine (ts_reporter ?s)) = []" "ts_current_pid ?s = stop_pid fork_stop"
    by (simp_all add: initial_state_def used_up_def new_policy_reporter_def new_engine_def policy_report_simps
        evaluate_def fork_stop_def Let_def emit_def)
  obtain s' where s': "handle_stop script_kernel ?rep 7 fork_stop ?s [] = (None, s', [])"
    and viol: "pe_violations (pr_engine (ts_reporter s')) \<noteq> []"
    by (simp add: handle_stop_def handle_ptrace_event_def wrapper_defs fork_stop_def script_kernel_def initial_state_def
        emit_def find_task_def insert_root_def registry_emplace_def used_up_def new_policy_reporter_def
        new_engine_def policy_report_simps evaluate_def push_violation_def Let_def)
  have k: "kind fork_stop = StopSyscall \<or> kind fork_stop = StopPtraceEvent" by (simp add: fork_stop_def)
  from policy_violation_audited [OF k s' none(2)] viol none(1) s' show ?thesis
    by (auto simp: fork_stop_def)
qed

end
