(* ===== verification/Risk_Engine.thy ===== *)
theory Risk_Engine
  imports Execell_Prelude
begin

text \<open>
  The risk engine (\<^verbatim>\<open>src/risk/risk.cpp\<close>): factors are accumulated, a direct rejection can be
  recorded, and \<^verbatim>\<open>assess\<close> turns them into a score, a level and an action. The enumerations
  carry the order in which the header declares them. Weights and the running sum are C
  \<^verbatim>\<open>int\<close>s, kept as integers; \<open>factor_sum_no_overflow\<close> bounds the sum below
  \<^verbatim>\<open>INT_MAX\<close> for every number of factors the callers can produce.
\<close>

section \<open>Levels and actions\<close>

datatype level = LevelNone | LevelLow | LevelMedium | LevelHigh | LevelCritical
datatype action = ActionAllow | ActionAudit | ActionReject

primrec level_rank :: "level \<Rightarrow> nat" where
  "level_rank LevelNone = 0"
| "level_rank LevelLow = 1"
| "level_rank LevelMedium = 2"
| "level_rank LevelHigh = 3"
| "level_rank LevelCritical = 4"

primrec action_rank :: "action \<Rightarrow> nat" where
  "action_rank ActionAllow = 0"
| "action_rank ActionAudit = 1"
| "action_rank ActionReject = 2"

lemma level_rank_inject: "level_rank a = level_rank b \<longleftrightarrow> a = b"
  by (cases a; cases b) simp_all

lemma action_rank_inject: "action_rank a = action_rank b \<longleftrightarrow> a = b"
  by (cases a; cases b) simp_all

instantiation level :: linorder
begin

definition less_eq_level :: "level \<Rightarrow> level \<Rightarrow> bool" where
  "less_eq_level a b \<longleftrightarrow> level_rank a \<le> level_rank b"

definition less_level :: "level \<Rightarrow> level \<Rightarrow> bool" where
  "less_level a b \<longleftrightarrow> level_rank a < level_rank b"

instance
  by standard (auto simp: less_eq_level_def less_level_def level_rank_inject)

end

instantiation action :: linorder
begin

definition less_eq_action :: "action \<Rightarrow> action \<Rightarrow> bool" where
  "less_eq_action a b \<longleftrightarrow> action_rank a \<le> action_rank b"

definition less_action :: "action \<Rightarrow> action \<Rightarrow> bool" where
  "less_action a b \<longleftrightarrow> action_rank a < action_rank b"

instance
  by standard (auto simp: less_eq_action_def less_action_def action_rank_inject)

end

primrec level_to_string :: "level \<Rightarrow> string" where
  "level_to_string LevelNone = ''none''"
| "level_to_string LevelLow = ''low''"
| "level_to_string LevelMedium = ''medium''"
| "level_to_string LevelHigh = ''high''"
| "level_to_string LevelCritical = ''critical''"

primrec action_to_string :: "action \<Rightarrow> string" where
  "action_to_string ActionAllow = ''allow''"
| "action_to_string ActionAudit = ''audit''"
| "action_to_string ActionReject = ''reject''"

section \<open>The engine\<close>

record factor =
  factor_name :: string
  factor_weight :: int
  factor_explanation :: string

record finding =
  finding_id :: string
  finding_resource :: string
  finding_pid :: int
  finding_sequence :: "64 word"
  finding_explanation :: string
  finding_weight :: int

record assessment =
  score :: int
  level :: level
  action :: action
  factors :: "factor list"
  findings :: "finding list"

record risk_engine =
  re_factors :: "factor list"
  re_direct_reject :: bool

definition new_risk_engine :: risk_engine where
  "new_risk_engine = \<lparr>re_factors = [], re_direct_reject = False\<rparr>"

definition risk_add :: "string \<Rightarrow> int \<Rightarrow> string \<Rightarrow> risk_engine \<Rightarrow> risk_engine" where
  "risk_add name weight explanation e =
     e\<lparr>re_factors := re_factors e @
         [\<lparr>factor_name = name, factor_weight = max 0 weight, factor_explanation = explanation\<rparr>]\<rparr>"

definition risk_reject :: "string \<Rightarrow> string \<Rightarrow> risk_engine \<Rightarrow> risk_engine" where
  "risk_reject name explanation e =
     e\<lparr>re_factors := re_factors e @
         [\<lparr>factor_name = name, factor_weight = 0, factor_explanation = explanation\<rparr>],
       re_direct_reject := True\<rparr>"

definition finding_of :: "factor \<Rightarrow> finding" where
  "finding_of f =
     \<lparr>finding_id = factor_name f, finding_resource = [], finding_pid = 0, finding_sequence = 0,
      finding_explanation = factor_explanation f, finding_weight = factor_weight f\<rparr>"

text \<open>The loop over the factors adds each weight to the score and appends one finding.\<close>

definition assess_factor :: "factor \<Rightarrow> assessment \<Rightarrow> assessment" where
  "assess_factor f a =
     a\<lparr>score := score a + factor_weight f, findings := findings a @ [finding_of f]\<rparr>"

definition assess :: "risk_engine \<Rightarrow> assessment" where
  "assess e =
     (let a0 = \<lparr>score = 0, level = LevelNone, action = ActionAllow,
                factors = re_factors e, findings = []\<rparr>;
          a1 = fold assess_factor (re_factors e) a0;
          a = a1\<lparr>score := min (score a1) 100\<rparr>
      in if re_direct_reject e then a\<lparr>level := LevelCritical, action := ActionReject\<rparr>
         else if score a \<ge> 75 then a\<lparr>level := LevelCritical, action := ActionReject\<rparr>
         else if score a \<ge> 50 then a\<lparr>level := LevelHigh, action := ActionReject\<rparr>
         else if score a \<ge> 25 then a\<lparr>level := LevelMedium, action := ActionAudit\<rparr>
         else if score a \<noteq> 0 then a\<lparr>level := LevelLow, action := ActionAllow\<rparr>
         else a)"

section \<open>Invariant and closed form\<close>

definition risk_wf :: "risk_engine \<Rightarrow> bool" where
  "risk_wf e \<longleftrightarrow> (\<forall>f \<in> set (re_factors e). 0 \<le> factor_weight f) \<and>
     (re_direct_reject e \<longrightarrow> re_factors e \<noteq> [])"

lemma risk_wf_new [simp]: "risk_wf new_risk_engine"
  by (simp add: risk_wf_def new_risk_engine_def)

lemma risk_wf_add [simp]: "risk_wf e \<Longrightarrow> risk_wf (risk_add n w x e)"
  by (auto simp: risk_wf_def risk_add_def)

lemma risk_wf_reject [simp]: "risk_wf e \<Longrightarrow> risk_wf (risk_reject n x e)"
  by (auto simp: risk_wf_def risk_reject_def)

definition factor_sum :: "factor list \<Rightarrow> int" where
  "factor_sum fs = sum_list (map factor_weight fs)"

definition level_of_score :: "int \<Rightarrow> level" where
  "level_of_score s =
     (if s \<ge> 75 then LevelCritical else if s \<ge> 50 then LevelHigh
      else if s \<ge> 25 then LevelMedium else if s \<noteq> 0 then LevelLow else LevelNone)"

definition action_of_score :: "int \<Rightarrow> action" where
  "action_of_score s =
     (if s \<ge> 50 then ActionReject else if s \<ge> 25 then ActionAudit else ActionAllow)"

lemma fold_assess_factor:
  "fold assess_factor fs a =
     a\<lparr>score := score a + factor_sum fs, findings := findings a @ map finding_of fs\<rparr>"
  by (induction fs arbitrary: a) (simp_all add: assess_factor_def factor_sum_def)

lemma assess_eq:
  "assess e =
     (let s = min (factor_sum (re_factors e)) 100
      in \<lparr>score = s,
          level = (if re_direct_reject e then LevelCritical else level_of_score s),
          action = (if re_direct_reject e then ActionReject else action_of_score s),
          factors = re_factors e,
          findings = map finding_of (re_factors e)\<rparr>)"
  by (simp add: assess_def fold_assess_factor level_of_score_def action_of_score_def Let_def)

lemma factor_sum_nonneg: "risk_wf e \<Longrightarrow> 0 \<le> factor_sum (re_factors e)"
  unfolding risk_wf_def factor_sum_def by (auto intro!: sum_list_nonneg)

lemma factor_sum_no_overflow:
  assumes "\<forall>f \<in> set fs. factor_weight f \<le> w" "0 \<le> w" "int (length fs) * w < 2 ^ 31"
  shows "factor_sum fs < 2 ^ 31"
proof -
  have "factor_sum fs \<le> int (length fs) * w"
    using assms(1) by (induction fs) (auto simp: factor_sum_def algebra_simps)
  with assms(3) show ?thesis by simp
qed

lemma level_of_score_mono: "0 \<le> s \<Longrightarrow> s \<le> t \<Longrightarrow> level_of_score s \<le> level_of_score t"
  by (auto simp: level_of_score_def less_eq_level_def)

lemma action_of_score_mono: "s \<le> t \<Longrightarrow> action_of_score s \<le> action_of_score t"
  by (auto simp: action_of_score_def less_eq_action_def)

lemma level_critical_max: "l \<le> LevelCritical"
  by (cases l) (simp_all add: less_eq_level_def)

lemma action_reject_max: "a \<le> ActionReject"
  by (cases a) (simp_all add: less_eq_action_def)

section \<open>Severity order\<close>

text \<open>One assessment is at least as severe as another.\<close>

definition at_least_as_severe :: "assessment \<Rightarrow> assessment \<Rightarrow> bool" where
  "at_least_as_severe a b \<longleftrightarrow> score b \<le> score a \<and> level b \<le> level a \<and> action b \<le> action a"

lemma at_least_as_severe_refl [simp]: "at_least_as_severe a a"
  by (simp add: at_least_as_severe_def)

lemma at_least_as_severe_trans:
  "at_least_as_severe a b \<Longrightarrow> at_least_as_severe b c \<Longrightarrow> at_least_as_severe a c"
  unfolding at_least_as_severe_def by (blast intro: order_trans)

lemma assess_severity_mono:
  assumes wf: "risk_wf e"
    and sum: "factor_sum (re_factors e) \<le> factor_sum (re_factors e')"
    and rej: "re_direct_reject e \<Longrightarrow> re_direct_reject e'"
  shows "at_least_as_severe (assess e') (assess e)"
proof -
  let ?s = "min (factor_sum (re_factors e)) 100" and ?t = "min (factor_sum (re_factors e')) 100"
  have "0 \<le> ?s" "?s \<le> ?t" using factor_sum_nonneg [OF wf] sum by auto
  with rej show ?thesis
    unfolding at_least_as_severe_def assess_eq Let_def
    by (auto simp: level_of_score_mono action_of_score_mono level_critical_max action_reject_max)
qed

lemma assess_add_severe: "risk_wf e \<Longrightarrow> at_least_as_severe (assess (risk_add n w x e)) (assess e)"
  by (rule assess_severity_mono) (simp_all add: risk_add_def factor_sum_def)

lemma assess_reject_severe: "risk_wf e \<Longrightarrow> at_least_as_severe (assess (risk_reject n x e)) (assess e)"
  by (rule assess_severity_mono) (simp_all add: risk_reject_def factor_sum_def)

text \<open>A history of calls on an engine.\<close>

datatype risk_call = Add string int string | Reject string string

fun risk_apply :: "risk_call \<Rightarrow> risk_engine \<Rightarrow> risk_engine" where
  "risk_apply (Add n w x) e = risk_add n w x e"
| "risk_apply (Reject n x) e = risk_reject n x e"

fun is_reject :: "risk_call \<Rightarrow> bool" where
  "is_reject (Reject _ _) = True"
| "is_reject (Add _ _ _) = False"

lemma risk_wf_apply [simp]: "risk_wf e \<Longrightarrow> risk_wf (risk_apply c e)"
  by (cases c) simp_all

lemma risk_wf_fold [simp]: "risk_wf e \<Longrightarrow> risk_wf (fold risk_apply cs e)"
  by (induction cs arbitrary: e) simp_all

lemma assess_apply_severe: "risk_wf e \<Longrightarrow> at_least_as_severe (assess (risk_apply c e)) (assess e)"
  by (cases c) (simp_all add: assess_add_severe assess_reject_severe)

lemma assess_fold_severe:
  "risk_wf e \<Longrightarrow> at_least_as_severe (assess (fold risk_apply cs e)) (assess e)"
proof (induction cs arbitrary: e)
  case (Cons c cs)
  from Cons.IH [OF risk_wf_apply [OF Cons.prems]]
  have "at_least_as_severe (assess (fold risk_apply cs (risk_apply c e))) (assess (risk_apply c e))" .
  from at_least_as_severe_trans [OF this assess_apply_severe [OF Cons.prems]]
  show ?case by simp
qed simp

lemma direct_reject_fold:
  "re_direct_reject (fold risk_apply cs e) \<longleftrightarrow> re_direct_reject e \<or> list_ex is_reject cs"
proof (induction cs arbitrary: e)
  case (Cons c cs)
  then show ?case by (cases c) (auto simp: risk_add_def risk_reject_def)
qed simp

section \<open>Properties\<close>

text \<open>After any history of calls the score lies between 0 and 100, and the level and action
  are those of the score's band (75, 50, 25, 0), unless a direct rejection was recorded, in
  which case they are critical and reject whatever the score; every factor yields one finding.\<close>

theorem assessment_bands:
  "let e = fold risk_apply calls new_risk_engine; a = assess e
   in 0 \<le> score a \<and> score a \<le> 100 \<and>
      (level a, action a) =
        (if list_ex is_reject calls then (LevelCritical, ActionReject)
         else (level_of_score (score a), action_of_score (score a))) \<and>
      length (findings a) = length calls"
proof -
  let ?e = "fold risk_apply calls new_risk_engine"
  have wf: "risk_wf ?e" by simp
  have "re_direct_reject ?e \<longleftrightarrow> list_ex is_reject calls"
    by (simp add: direct_reject_fold) (simp add: new_risk_engine_def)
  moreover have "length (re_factors (fold risk_apply calls e)) = length (re_factors e) + length calls" for e
  proof (induction calls arbitrary: e)
    case (Cons c calls)
    then show ?case by (cases c) (simp_all add: risk_add_def risk_reject_def)
  qed simp
  ultimately show ?thesis
    using factor_sum_nonneg [OF wf] by (simp add: assess_eq Let_def new_risk_engine_def)
qed

text \<open>Evidence never lowers an assessment: continuing a history with further factors or
  rejections yields a score, a level and an action at least as severe as before.\<close>

theorem assessment_monotone:
  "at_least_as_severe (assess (fold risk_apply (calls @ later) new_risk_engine))
     (assess (fold risk_apply calls new_risk_engine))"
  using assess_fold_severe [of "fold risk_apply calls new_risk_engine" later] by simp

end
