(* ===== verification/Seccomp_Filter.thy ===== *)
theory Seccomp_Filter
  imports Syscall_Table
begin

text \<open>
  The seccomp filter of the sandbox (\<^verbatim>\<open>install_seccomp\<close> and
  \<^verbatim>\<open>default_package_syscalls\<close> in \<^verbatim>\<open>src/sandbox/sandbox.cpp\<close>): the classic BPF program
  the code assembles from an allowlist, and a proof that running it decides exactly membership
  in the allowlist.

  The interpreter \<open>bpf_run\<close> is the specification side: the three instructions the program uses, as
  \<^verbatim>\<open>seccomp(2)\<close> and the kernel's filter documentation define them. Jumps only go forward, so
  execution is recursion on the instructions that are left; running off the end yields
  \<^term>\<open>None\<close>.
\<close>

section \<open>The program\<close>

datatype sock_filter =
    BPF_LD_ABS "32 word" \<comment> \<open>\<^verbatim>\<open>BPF_STMT(BPF_LD | BPF_W | BPF_ABS, k)\<close>\<close>
  | BPF_JEQ "32 word" nat nat \<comment> \<open>\<^verbatim>\<open>BPF_JUMP(BPF_JMP | BPF_JEQ | BPF_K, k, jt, jf)\<close>\<close>
  | BPF_RET "32 word" \<comment> \<open>\<^verbatim>\<open>BPF_STMT(BPF_RET | BPF_K, k)\<close>\<close>

abbreviation (input) offset_nr :: "32 word" where "offset_nr \<equiv> 0"
abbreviation (input) offset_arch :: "32 word" where "offset_arch \<equiv> 4"
abbreviation (input) AUDIT_ARCH_X86_64 :: "32 word" where "AUDIT_ARCH_X86_64 \<equiv> 0xC000003E"
abbreviation (input) SECCOMP_RET_KILL_PROCESS :: "32 word" where "SECCOMP_RET_KILL_PROCESS \<equiv> 0x80000000"
abbreviation (input) SECCOMP_RET_ALLOW :: "32 word" where "SECCOMP_RET_ALLOW \<equiv> 0x7fff0000"
abbreviation (input) SECCOMP_RET_ERRNO :: "32 word" where "SECCOMP_RET_ERRNO \<equiv> 0x00050000"
abbreviation (input) EPERM :: "32 word" where "EPERM \<equiv> 1"

definition allow_rule :: "int \<Rightarrow> sock_filter list" where
  "allow_rule syscall_number =
     [BPF_JEQ (int_to_unsigned syscall_number) 0 1, BPF_RET SECCOMP_RET_ALLOW]"

definition seccomp_program :: "int list \<Rightarrow> sock_filter list" where
  "seccomp_program allowlist =
     [BPF_LD_ABS offset_arch,
      BPF_JEQ AUDIT_ARCH_X86_64 1 0,
      BPF_RET SECCOMP_RET_KILL_PROCESS,
      BPF_LD_ABS offset_nr] @
     concat (map allow_rule allowlist) @
     [BPF_RET (SECCOMP_RET_ERRNO OR EPERM)]"

text \<open>\<^verbatim>\<open>sock_fprog::len\<close> is an unsigned short: what the kernel is given is the program cut to
  its length modulo 65536.\<close>

definition installed_program :: "int list \<Rightarrow> sock_filter list" where
  "installed_program allowlist =
     (let filter = seccomp_program allowlist in take (length filter mod 65536) filter)"

definition default_package_syscalls :: "int list" where
  "default_package_syscalls =
     [SYS_read, SYS_write, SYS_close, SYS_open, SYS_openat, SYS_newfstatat, SYS_fstat,
      SYS_statx, SYS_lseek, SYS_pread64, SYS_pwrite64, SYS_readv, SYS_writev, SYS_getdents64,
      SYS_dup, SYS_dup2, SYS_dup3, SYS_fcntl, SYS_ioctl, SYS_pipe, SYS_pipe2, SYS_poll,
      SYS_ppoll, SYS_mmap, SYS_mprotect, SYS_munmap, SYS_mremap, SYS_brk, SYS_madvise,
      SYS_arch_prctl, SYS_rt_sigaction, SYS_rt_sigprocmask, SYS_rt_sigreturn,
      SYS_sigaltstack, SYS_futex, SYS_set_tid_address, SYS_set_robust_list, SYS_rseq,
      SYS_clone, SYS_clone3, SYS_fork, SYS_vfork, SYS_execve, SYS_execveat, SYS_ptrace,
      SYS_exit, SYS_exit_group, SYS_wait4, SYS_waitid, SYS_kill, SYS_tgkill, SYS_getpid,
      SYS_getppid, SYS_gettid, SYS_getuid, SYS_geteuid, SYS_getgid, SYS_getegid,
      SYS_getresuid, SYS_getresgid, SYS_setresuid, SYS_setresgid, SYS_prctl, SYS_prlimit64,
      SYS_getrlimit, SYS_setrlimit, SYS_uname, SYS_getcwd, SYS_readlink, SYS_readlinkat,
      SYS_access, SYS_faccessat, SYS_faccessat2, SYS_chdir, SYS_fchdir, SYS_mkdir,
      SYS_mkdirat, SYS_unlink, SYS_unlinkat, SYS_rename, SYS_renameat, SYS_renameat2,
      SYS_link, SYS_linkat, SYS_symlink, SYS_symlinkat, SYS_chmod, SYS_fchmod, SYS_fchmodat,
      SYS_chown, SYS_fchown, SYS_fchownat, SYS_utimensat, SYS_truncate, SYS_ftruncate,
      SYS_syncfs, SYS_getrandom, SYS_clock_gettime, SYS_nanosleep, SYS_sched_getaffinity,
      SYS_sysinfo, SYS_socket, SYS_connect, SYS_bind, SYS_listen, SYS_accept, SYS_accept4,
      SYS_sendto, SYS_recvfrom, SYS_sendmsg, SYS_recvmsg, SYS_shutdown, SYS_setsockopt,
      SYS_getsockopt, SYS_getpeername, SYS_getsockname, SYS_capget, SYS_capset, SYS_setpgid,
      SYS_getpgid, SYS_setsid, SYS_setxattr, SYS_lsetxattr, SYS_fsetxattr, SYS_listxattr,
      SYS_llistxattr, SYS_flistxattr, SYS_removexattr, SYS_lremovexattr, SYS_fremovexattr]"

section \<open>Running a filter\<close>

record seccomp_data =
  sd_nr :: "32 word"
  sd_arch :: "32 word"

definition load_data :: "seccomp_data \<Rightarrow> 32 word \<Rightarrow> 32 word" where
  "load_data d k = (if k = offset_nr then sd_nr d else if k = offset_arch then sd_arch d else 0)"

function bpf_run :: "seccomp_data \<Rightarrow> 32 word \<Rightarrow> sock_filter list \<Rightarrow> 32 word option" where
  "bpf_run d a [] = None"
| "bpf_run d a (BPF_LD_ABS k # rest) = bpf_run d (load_data d k) rest"
| "bpf_run d a (BPF_JEQ k jt jf # rest) = bpf_run d a (drop (if a = k then jt else jf) rest)"
| "bpf_run d a (BPF_RET k # rest) = Some k"
  by pat_completeness auto
termination
  by (relation "measure (\<lambda>(d, a, prog). length prog)") auto

section \<open>The filter decides membership\<close>

lemma length_allow_rules: "length (concat (map allow_rule al)) = 2 * length al"
  by (induction al) (simp_all add: allow_rule_def)

lemma length_seccomp_program: "length (seccomp_program al) = 2 * length al + 5"
  by (simp add: seccomp_program_def length_allow_rules)

lemma bpf_run_rules:
  "bpf_run d a (concat (map allow_rule al) @ rest) =
     (if a \<in> int_to_unsigned ` set al then Some SECCOMP_RET_ALLOW else bpf_run d a rest)"
  by (induction al) (auto simp: allow_rule_def)

lemma bpf_run_program:
  "bpf_run d a (seccomp_program al) =
     (if sd_arch d \<noteq> AUDIT_ARCH_X86_64 then Some SECCOMP_RET_KILL_PROCESS
      else if sd_nr d \<in> int_to_unsigned ` set al then Some SECCOMP_RET_ALLOW
      else Some (SECCOMP_RET_ERRNO OR EPERM))"
  by (simp add: seccomp_program_def load_data_def bpf_run_rules)

lemma installed_program_eq: "length al < 32766 \<Longrightarrow> installed_program al = seccomp_program al"
  by (simp add: installed_program_def Let_def length_seccomp_program)

section \<open>Properties\<close>

text \<open>C8. The filter is exactly the allowlist: for every list short enough for the length field of
  the program, a system call of another architecture kills the process, a listed call is allowed,
  and every other call fails with \<^verbatim>\<open>EPERM\<close>; the program never runs off its end.\<close>

theorem seccomp_filter_decides_allowlist:
  assumes "length allowlist < 32766"
  shows "bpf_run d a (installed_program allowlist) =
    Some (if sd_arch d \<noteq> AUDIT_ARCH_X86_64 then SECCOMP_RET_KILL_PROCESS
          else if sd_nr d \<in> int_to_unsigned ` set allowlist then SECCOMP_RET_ALLOW
          else SECCOMP_RET_ERRNO OR EPERM)"
  unfolding installed_program_eq [OF assms] bpf_run_program by simp

lemma default_package_syscalls_length: "length default_package_syscalls = 130"
  by (simp add: default_package_syscalls_def)

theorem seccomp_filter_decides_allowlist_witness:
  "bpf_run \<lparr>sd_nr = int_to_unsigned SYS_execve, sd_arch = AUDIT_ARCH_X86_64\<rparr> 0
     (installed_program default_package_syscalls) = Some SECCOMP_RET_ALLOW"
proof -
  have "length default_package_syscalls < 32766" by (simp add: default_package_syscalls_length)
  moreover have "SYS_execve \<in> set default_package_syscalls" by (simp add: default_package_syscalls_def)
  ultimately show ?thesis
    using seccomp_filter_decides_allowlist [of default_package_syscalls
      "\<lparr>sd_nr = int_to_unsigned SYS_execve, sd_arch = AUDIT_ARCH_X86_64\<rparr>" 0]
    by simp
qed

text \<open>Privileged calls of \<^verbatim>\<open><sys/syscall.h>\<close> that no part of the sources names.\<close>

definition privileged_syscalls :: "int list" where
  "privileged_syscalls =
     [155 \<comment> \<open>pivot root\<close>, 161 \<comment> \<open>chroot\<close>, 165 \<comment> \<open>mount\<close>, 166 \<comment> \<open>umount2\<close>, 169 \<comment> \<open>reboot\<close>,
      175 \<comment> \<open>init module\<close>, 246 \<comment> \<open>kexec load\<close>, 250 \<comment> \<open>keyctl\<close>, 272 \<comment> \<open>unshare\<close>,
      308 \<comment> \<open>setns\<close>, 317 \<comment> \<open>seccomp\<close>, 321 \<comment> \<open>bpf\<close>]"

lemma default_words:
  "int_to_unsigned ` set default_package_syscalls = set (map int_to_unsigned default_package_syscalls)"
  by simp

definition run_default :: "int \<Rightarrow> 32 word option" where
  "run_default n =
     bpf_run \<lparr>sd_nr = int_to_unsigned n, sd_arch = AUDIT_ARCH_X86_64\<rparr> 0
       (installed_program default_package_syscalls)"

lemma run_default_eq:
  "run_default n =
     Some (if int_to_unsigned n \<in> int_to_unsigned ` set default_package_syscalls
           then SECCOMP_RET_ALLOW else SECCOMP_RET_ERRNO OR EPERM)"
  by (simp add: run_default_def installed_program_eq default_package_syscalls_length bpf_run_program)

lemma privileged_not_listed:
  "list_all (\<lambda>n. int_to_unsigned n \<notin> int_to_unsigned ` set default_package_syscalls) privileged_syscalls"
  unfolding default_words by (simp add: privileged_syscalls_def default_package_syscalls_def int_to_unsigned_def)

text \<open>The default allowlist is usable and closed where it should be: its program fits the
  kernel's limit of 4096 instructions, it admits the calls the sandbox itself still makes after
  installing the filter (resource limits, change of identity, the traced start of the program),
  and it answers \<^verbatim>\<open>EPERM\<close> to mounting, changing namespaces or the root directory, loading
  modules or kernels, and installing further filters.\<close>

theorem default_filter_policy:
  "length (installed_program default_package_syscalls) \<le> 4096 \<and>
   list_all (\<lambda>n. run_default n = Some SECCOMP_RET_ALLOW)
     [SYS_setrlimit, SYS_prlimit64, SYS_setresgid, SYS_setresuid, SYS_fork, SYS_ptrace, SYS_wait4,
      SYS_execve, SYS_exit_group] \<and>
   list_all (\<lambda>n. run_default n = Some (SECCOMP_RET_ERRNO OR EPERM)) privileged_syscalls"
proof (intro conjI)
  show "length (installed_program default_package_syscalls) \<le> 4096"
    by (simp add: installed_program_eq default_package_syscalls_length length_seccomp_program)
  show "list_all (\<lambda>n. run_default n = Some SECCOMP_RET_ALLOW)
     [SYS_setrlimit, SYS_prlimit64, SYS_setresgid, SYS_setresuid, SYS_fork, SYS_ptrace, SYS_wait4,
      SYS_execve, SYS_exit_group]"
    unfolding run_default_eq by (simp add: default_package_syscalls_def)
  show "list_all (\<lambda>n. run_default n = Some (SECCOMP_RET_ERRNO OR EPERM)) privileged_syscalls"
    using privileged_not_listed unfolding run_default_eq list_all_iff by auto
qed

end
