(* ===== verification/Owned_Handle.thy ===== *)
theory Owned_Handle
  imports Execell_Prelude
begin

text \<open>
  Classes that own a resource. \<^verbatim>\<open>UniqueFd\<close> owns a descriptor, \<^verbatim>\<open>Reader\<close> of \<^verbatim>\<open>src/package/archive.cpp\<close> an
  archive, \<^verbatim>\<open>Database\<close> of \<^verbatim>\<open>src/package/storage.cpp\<close> a connection and \<^verbatim>\<open>Session\<close> of
  \<^verbatim>\<open>src/package/rootfs.cpp\<close> its directories and guardian: none can be copied, all can be moved, and
  each gives its resource back in its destructor. Their common contract is the locale
  \<open>owning_handle\<close>; programs that use such objects are the runs of the step relation
  \<open>handle_step\<close>.
\<close>

section \<open>Classes and programs\<close>

text \<open>The operations of a class on the value of an object: whether it holds a resource, the value of a
  default-constructed object, what the destructor gives back, the move constructor (the values of
  the new and of the moved-from object) and the move assignment between two objects (what is given
  back, and the values of the target and of the source).\<close>

record 'v handle_class =
  hc_live :: "'v \<Rightarrow> bool"
  hc_blank :: 'v
  hc_destroy :: "'v \<Rightarrow> 'v list"
  hc_move :: "'v \<Rightarrow> 'v \<times> 'v"
  hc_assign :: "'v \<Rightarrow> 'v \<Rightarrow> 'v list \<times> 'v \<times> 'v"

text \<open>The objects that exist, the resources that are open, those the program holds outside any object,
  and those given back while they were not open.\<close>

record 'v handle_world =
  hw_handles :: "nat \<Rightarrow> 'v option"
  hw_open :: "'v set"
  hw_raw :: "'v set"
  hw_bad :: "'v list"

definition empty_world :: "'v handle_world" where
  "empty_world = \<lparr>hw_handles = Map.empty, hw_open = {}, hw_raw = {}, hw_bad = []\<rparr>"

definition give_back :: "'v \<Rightarrow> 'v handle_world \<Rightarrow> 'v handle_world" where
  "give_back v w =
     (if v \<in> hw_open w then w\<lparr>hw_open := hw_open w - {v}\<rparr> else w\<lparr>hw_bad := hw_bad w @ [v]\<rparr>)"

definition give_back_all :: "'v list \<Rightarrow> 'v handle_world \<Rightarrow> 'v handle_world" where
  "give_back_all vs = fold give_back vs"

definition put_handle :: "nat \<Rightarrow> 'v \<Rightarrow> 'v handle_world \<Rightarrow> 'v handle_world" where
  "put_handle h v w = w\<lparr>hw_handles := (hw_handles w)(h \<mapsto> v)\<rparr>"

definition drop_handle :: "nat \<Rightarrow> 'v handle_world \<Rightarrow> 'v handle_world" where
  "drop_handle h w = w\<lparr>hw_handles := (hw_handles w)(h := None)\<rparr>"

text \<open>One operation of a program: a resource is opened, an object is made, moved, assigned to (also to
  itself) or destroyed, or a resource outside any object is given back.\<close>

inductive handle_step :: "'v handle_class \<Rightarrow> 'v handle_world \<Rightarrow> 'v handle_world \<Rightarrow> bool" for C where
  opened: "hc_live C v \<Longrightarrow> v \<notin> hw_open w \<Longrightarrow>
    handle_step C w (w\<lparr>hw_open := insert v (hw_open w), hw_raw := insert v (hw_raw w)\<rparr>)"
| default_made: "hw_handles w h = None \<Longrightarrow> handle_step C w (put_handle h (hc_blank C) w)"
| handle_made: "hw_handles w h = None \<Longrightarrow> v \<in> hw_raw w \<Longrightarrow>
    handle_step C w ((put_handle h v w)\<lparr>hw_raw := hw_raw w - {v}\<rparr>)"
| moved: "hw_handles w h = None \<Longrightarrow> hw_handles w g = Some u \<Longrightarrow> hc_move C u = (v, u') \<Longrightarrow>
    handle_step C w (put_handle h v (put_handle g u' w))"
| assigned: "h \<noteq> g \<Longrightarrow> hw_handles w h = Some v \<Longrightarrow> hw_handles w g = Some u \<Longrightarrow>
    hc_assign C v u = (closed, v', u') \<Longrightarrow>
    handle_step C w (give_back_all closed (put_handle h v' (put_handle g u' w)))"
| self_assigned: "hw_handles w h = Some v \<Longrightarrow> handle_step C w w"
| destroyed: "hw_handles w h = Some v \<Longrightarrow>
    handle_step C w (give_back_all (hc_destroy C v) (drop_handle h w))"
| raw_closed: "v \<in> hw_raw w \<Longrightarrow> handle_step C w (give_back v (w\<lparr>hw_raw := hw_raw w - {v}\<rparr>))"

section \<open>Every resource has one owner\<close>

definition handle_owns :: "('v \<Rightarrow> bool) \<Rightarrow> 'v handle_world \<Rightarrow> nat \<Rightarrow> 'v \<Rightarrow> bool" where
  "handle_owns live w h v \<longleftrightarrow> live v \<and> hw_handles w h = Some v"

text \<open>The open resources are those of the objects and those outside, no resource is in two places, and
  none was given back that was not open.\<close>

definition single_owner :: "('v \<Rightarrow> bool) \<Rightarrow> 'v handle_world \<Rightarrow> bool" where
  "single_owner live w \<longleftrightarrow>
     hw_bad w = [] \<and> (\<forall>v. v \<in> hw_open w \<longleftrightarrow> v \<in> hw_raw w \<or> (\<exists>h. handle_owns live w h v)) \<and>
     (\<forall>v h. handle_owns live w h v \<longrightarrow> v \<notin> hw_raw w) \<and> (\<forall>v \<in> hw_raw w. live v) \<and>
     (\<forall>h g v. handle_owns live w h v \<and> handle_owns live w g v \<longrightarrow> h = g)"

lemma single_owner_empty: "single_owner live empty_world"
  by (simp add: single_owner_def empty_world_def handle_owns_def)

lemma handle_owns_simps [simp]:
  "handle_owns live (put_handle h v w) k u \<longleftrightarrow> (if k = h then u = v \<and> live v else handle_owns live w k u)"
  "handle_owns live (w\<lparr>hw_raw := r\<rparr>) k u = handle_owns live w k u"
  "handle_owns live (w\<lparr>hw_open := r\<rparr>) k u = handle_owns live w k u"
  "handle_owns live (drop_handle h w) k u \<longleftrightarrow> k \<noteq> h \<and> handle_owns live w k u"
  by (auto simp: handle_owns_def put_handle_def drop_handle_def)

lemma put_handle_frame [simp]:
  "hw_open (put_handle h v w) = hw_open w" "hw_raw (put_handle h v w) = hw_raw w"
  "hw_bad (put_handle h v w) = hw_bad w" "hw_open (drop_handle h w) = hw_open w"
  "hw_raw (drop_handle h w) = hw_raw w" "hw_bad (drop_handle h w) = hw_bad w"
  by (simp_all add: put_handle_def drop_handle_def)

lemma give_back_put [simp]:
  "give_back u (put_handle h v w) = put_handle h v (give_back u w)"
  "give_back u (drop_handle h w) = drop_handle h (give_back u w)"
  "give_back u (w\<lparr>hw_raw := r\<rparr>) = (give_back u w)\<lparr>hw_raw := r\<rparr>" "hw_raw (give_back u w) = hw_raw w"
  "hw_handles (give_back u w) = hw_handles w"
  by (cases w; simp add: give_back_def put_handle_def drop_handle_def)+

lemma give_back_all_put [simp]:
  "give_back_all us (put_handle h v w) = put_handle h v (give_back_all us w)"
  "give_back_all us (drop_handle h w) = drop_handle h (give_back_all us w)"
  "give_back_all us (w\<lparr>hw_raw := r\<rparr>) = (give_back_all us w)\<lparr>hw_raw := r\<rparr>"
  "hw_raw (give_back_all us w) = hw_raw w" "hw_handles (give_back_all us w) = hw_handles w"
  by (induction us arbitrary: w) (simp_all add: give_back_all_def)

lemma put_handle_simps [simp]:
  "put_handle h v (put_handle h u w) = put_handle h v w"
  "drop_handle h (put_handle h u w) = drop_handle h w"
  "hw_raw w = r \<Longrightarrow> (put_handle h v w)\<lparr>hw_raw := r\<rparr> = put_handle h v w"
  "hw_handles (put_handle h v w) = (hw_handles w)(h \<mapsto> v)"
  by (auto simp: put_handle_def drop_handle_def)

lemma put_handle_swap: "h \<noteq> g \<Longrightarrow> put_handle h v (put_handle g u w) = put_handle g u (put_handle h v w)"
  by (simp add: put_handle_def fun_upd_twist)

lemma single_ownerI:
  assumes "hw_bad w = []" "\<And>v. v \<in> hw_open w \<longleftrightarrow> v \<in> hw_raw w \<or> (\<exists>h. handle_owns live w h v)"
    "\<And>v h. handle_owns live w h v \<Longrightarrow> v \<notin> hw_raw w" "\<And>v. v \<in> hw_raw w \<Longrightarrow> live v"
    "\<And>h g v. handle_owns live w h v \<Longrightarrow> handle_owns live w g v \<Longrightarrow> h = g"
  shows "single_owner live w"
  unfolding single_owner_def using assms by blast

lemma single_ownerD:
  assumes "single_owner live w"
  shows "hw_bad w = []" "v \<in> hw_open w \<longleftrightarrow> v \<in> hw_raw w \<or> (\<exists>h. handle_owns live w h v)"
    "handle_owns live w h v \<Longrightarrow> v \<notin> hw_raw w" "v \<in> hw_raw w \<Longrightarrow> live v"
    "handle_owns live w h v \<Longrightarrow> handle_owns live w g v \<Longrightarrow> h = g"
  using assms unfolding single_owner_def by blast+

lemma handle_owns_unique: "handle_owns live w h v \<Longrightarrow> handle_owns live w h u \<Longrightarrow> u = v"
  by (simp add: handle_owns_def)

section \<open>Elementary changes\<close>

text \<open>What all operations are made of: an object gives up its resource, an object that has none takes
  one over, a resource outside any object is given back, an object without a resource changes or
  goes away.\<close>

lemma single_owner_give_up:
  assumes "single_owner live w" "handle_owns live w h v" "\<not> live b"
  shows "single_owner live ((put_handle h b w)\<lparr>hw_raw := insert v (hw_raw w)\<rparr>)" (is "single_owner live ?w")
proof -
  note inv = single_ownerD [OF assms(1)]
  have "live v" using assms(2) by (simp add: handle_owns_def)
  show ?thesis
  proof (rule single_ownerI)
    fix x
    show "x \<in> hw_open ?w \<longleftrightarrow> x \<in> hw_raw ?w \<or> (\<exists>k. handle_owns live ?w k x)"
    proof (cases "x = v")
      case True
      with inv(2) [of v] assms(2) show ?thesis by auto
    next
      case False
      then have "(\<exists>k. k \<noteq> h \<and> handle_owns live w k x) \<longleftrightarrow> (\<exists>k. handle_owns live w k x)"
        using handle_owns_unique [OF assms(2), of x] by metis
      with False inv(2) [of x] assms(3) show ?thesis by simp metis
    qed
  next
    fix x k
    assume "handle_owns live ?w k x"
    then have "k \<noteq> h" "handle_owns live w k x" using assms(3) by (auto split: if_splits)
    with inv(3,5) assms(2) show "x \<notin> hw_raw ?w" by auto
  qed (use inv \<open>live v\<close> assms(3) in \<open>auto split: if_splits\<close>)
qed

lemma single_owner_same:
  assumes "single_owner live w" "handle_owns live w' = handle_owns live w"
    "hw_open w' = hw_open w" "hw_raw w' = hw_raw w" "hw_bad w' = hw_bad w"
  shows "single_owner live w'"
  using assms by (simp add: single_owner_def)

lemma single_owner_none:
  assumes "single_owner live w" "\<And>u. \<not> handle_owns live w h u" "\<not> live v"
  shows "single_owner live (put_handle h v w)"
  by (rule single_owner_same [OF assms(1)]) (use assms(2,3) in \<open>auto simp: fun_eq_iff\<close>)

lemma single_owner_remove:
  assumes "single_owner live w" "\<And>u. \<not> handle_owns live w h u"
  shows "single_owner live (drop_handle h w)"
  by (rule single_owner_same [OF assms(1)]) (use assms(2) in \<open>auto simp: fun_eq_iff\<close>)

lemma single_owner_take:
  assumes "single_owner live w" "\<And>u. \<not> handle_owns live w h u" "v \<in> hw_raw w"
  shows "single_owner live ((put_handle h v w)\<lparr>hw_raw := hw_raw w - {v}\<rparr>)" (is "single_owner live ?w")
proof -
  note inv = single_ownerD [OF assms(1)]
  have v: "live v" "\<And>k. \<not> handle_owns live w k v" using inv(3,4) assms(3) by auto
  show ?thesis
  proof (rule single_ownerI)
    fix x
    show "x \<in> hw_open ?w \<longleftrightarrow> x \<in> hw_raw ?w \<or> (\<exists>k. handle_owns live ?w k x)"
    proof (cases "x = v")
      case True
      with inv(2) [of v] assms(3) v(1) show ?thesis by auto
    next
      case False
      have "(\<exists>k. k \<noteq> h \<and> handle_owns live w k x) \<longleftrightarrow> (\<exists>k. handle_owns live w k x)" using assms(2) [of x] by metis
      with False inv(2) [of x] show ?thesis by simp metis
    qed
  qed (use inv assms(2) v in \<open>auto split: if_splits\<close>)
qed

lemma single_owner_close:
  assumes "single_owner live w" "v \<in> hw_raw w"
  shows "single_owner live (give_back v (w\<lparr>hw_raw := hw_raw w - {v}\<rparr>))"
proof -
  note inv = single_ownerD [OF assms(1)]
  have "v \<in> hw_open w" using inv(2) assms(2) by blast
  then have eq: "give_back v (w\<lparr>hw_raw := hw_raw w - {v}\<rparr>) =
      w\<lparr>hw_raw := hw_raw w - {v}, hw_open := hw_open w - {v}\<rparr>"
    by (simp add: give_back_def)
  have "\<And>k. \<not> handle_owns live w k v" using inv(3) assms(2) by blast
  then show ?thesis
    unfolding eq by (intro single_ownerI) (use inv in auto)
qed

text \<open>Giving back what an object holds is giving it up and giving it back outside.\<close>

lemma single_owner_reset:
  assumes "single_owner live w" "hw_handles w h = Some v" "\<not> live b"
  shows "single_owner live (give_back_all (if live v then [v] else []) (put_handle h b w))"
proof (cases "live v")
  case True
  then have own: "handle_owns live w h v" using assms(2) by (simp add: handle_owns_def)
  have "hw_raw w - {v} = hw_raw w" using single_ownerD(3) [OF assms(1) own] by simp
  with single_owner_close [OF single_owner_give_up [OF assms(1) own assms(3)], of v] True show ?thesis
    by (simp add: give_back_all_def)
next
  case False
  then have "\<And>x. \<not> handle_owns live w h x" using assms(2) by (auto simp: handle_owns_def)
  with single_owner_none [OF assms(1)] False assms(3) show ?thesis by (simp add: give_back_all_def)
qed

text \<open>A resource moves from one object to another that has none.\<close>

lemma single_owner_transfer:
  assumes "single_owner live w" "\<And>x. \<not> handle_owns live w h x" "h \<noteq> g" "hw_handles w g = Some v" "\<not> live b"
  shows "single_owner live (put_handle h v (put_handle g b w))"
proof (cases "live v")
  case True
  then have own: "handle_owns live w g v" using assms(4) by (simp add: handle_owns_def)
  let ?w = "(put_handle g b w)\<lparr>hw_raw := insert v (hw_raw w)\<rparr>"
  have "v \<notin> hw_raw w" using single_ownerD(3) [OF assms(1) own] .
  then have "(put_handle h v ?w)\<lparr>hw_raw := hw_raw ?w - {v}\<rparr> = put_handle h v (put_handle g b w)"
    by (simp add: put_handle_def)
  with single_owner_take [OF single_owner_give_up [OF assms(1) own assms(5)], of h v] assms(2,3) show ?thesis by simp
next
  case False
  then have none: "\<And>x. \<not> handle_owns live w g x" using assms(4) by (auto simp: handle_owns_def)
  have "single_owner live (put_handle g b w)" by (rule single_owner_none [OF assms(1) none assms(5)])
  then show ?thesis by (rule single_owner_none) (use assms(2,3) False in auto)
qed

section \<open>The contract\<close>

locale owning_handle =
  fixes C :: "'v handle_class"
  assumes blank_dead: "\<not> hc_live C (hc_blank C)"
    and destroy_gives_back: "hc_destroy C v = (if hc_live C v then [v] else [])"
    and move_takes: "fst (hc_move C v) = v"
    and moved_from_dead: "\<not> hc_live C (snd (hc_move C v))"
    and assign_is: "hc_assign C v u = (hc_destroy C v, hc_move C u)"
begin

lemma step_owner:
  assumes "handle_step C w w'" "single_owner (hc_live C) w"
  shows "single_owner (hc_live C) w'"
  using assms
proof (induction rule: handle_step.induct)
  case (opened v w)
  note inv = single_ownerD [OF opened(3)]
  have "\<And>h. \<not> handle_owns (hc_live C) w h v" using inv(2) opened(2) by blast
  with opened(1,3) show ?case unfolding single_owner_def by auto
next
  case (default_made w h)
  then show ?case by (intro single_owner_none) (auto simp: handle_owns_def blank_dead)
next
  case (handle_made w h v)
  then show ?case by (intro single_owner_take) (auto simp: handle_owns_def)
next
  case (moved w h g u v u')
  then have "h \<noteq> g" "\<And>x. \<not> handle_owns (hc_live C) w h x" by (auto simp: handle_owns_def)
  moreover have "v = u" "\<not> hc_live C u'" using move_takes [of u] moved_from_dead [of u] moved(3) by auto
  ultimately show ?case using moved(2,4) by (auto intro: single_owner_transfer)
next
  case (assigned h g w v u closed v' u')
  have closed: "closed = (if hc_live C v then [v] else [])" "v' = u" "\<not> hc_live C u'"
    using assigned(4) assign_is [of v u] destroy_gives_back [of v] move_takes [of u] moved_from_dead [of u] by auto
  let ?w = "give_back_all closed (put_handle h u' w)"
  have "single_owner (hc_live C) ?w"
    unfolding closed(1) by (rule single_owner_reset [OF assigned(5,2) closed(3)])
  then have "single_owner (hc_live C) (put_handle h u (put_handle g u' ?w))"
    by (rule single_owner_transfer) (use assigned(1,3) closed(3) in auto)
  then show ?case using assigned(1) closed(2) by (simp add: put_handle_swap)
next
  case (destroyed w h v)
  let ?w = "give_back_all (hc_destroy C v) (put_handle h (hc_blank C) w)"
  have "single_owner (hc_live C) ?w"
    unfolding destroy_gives_back by (rule single_owner_reset [OF destroyed(2,1) blank_dead])
  then have "single_owner (hc_live C) (drop_handle h ?w)"
    by (rule single_owner_remove) (simp add: blank_dead)
  then show ?case by simp
next
  case (raw_closed v w)
  then show ?case by (intro single_owner_close)
qed

text \<open>In every run no resource is given back twice, none is lost, and no two objects hold the same.\<close>

lemma run_owner:
  assumes "(handle_step C)\<^sup>*\<^sup>* empty_world w"
  shows "single_owner (hc_live C) w"
  using assms by (induction rule: rtranclp_induct) (auto intro: single_owner_empty step_owner)

lemma run_resources:
  assumes "(handle_step C)\<^sup>*\<^sup>* empty_world w"
  shows "hw_bad w = []" "hw_open w = hw_raw w \<union> {v. \<exists>h. handle_owns (hc_live C) w h v}"
  using run_owner [OF assms] by (auto simp: single_owner_def)

end

end
