(* ===== verification/Unique_Fd.thy ===== *)
theory Unique_Fd
  imports Owned_Handle
begin

text \<open>
  The owner of a file descriptor (\<^verbatim>\<open>include/execell/core/unique_fd.hpp\<close>), which the sandbox uses for
  the pipe between parent and child. The methods are functions on the value of \<^verbatim>\<open>fd_\<close>; a call of
  \<^verbatim>\<open>close\<close> is part of their result. The class keeps the contract of \<open>Owned_Handle\<close>; programs over it
  have two further operations, \<^verbatim>\<open>release\<close> and \<^verbatim>\<open>reset\<close>.
\<close>

section \<open>Methods\<close>

definition ufd_default :: int where
  "ufd_default = - 1"

definition ufd_bool :: "int \<Rightarrow> bool" where
  "ufd_bool fd \<longleftrightarrow> fd \<ge> 0"

text \<open>\<^verbatim>\<open>release\<close>: the result and the new value.\<close>

definition ufd_release :: "int \<Rightarrow> int \<times> int" where
  "ufd_release fd = (fd, - 1)"

text \<open>\<^verbatim>\<open>reset\<close>: the descriptors closed and the new value.\<close>

definition ufd_reset :: "int \<Rightarrow> int \<Rightarrow> int list \<times> int" where
  "ufd_reset new fd = (if fd \<ge> 0 then [fd] else [], new)"

definition ufd_destroy :: "int \<Rightarrow> int list" where
  "ufd_destroy fd = fst (ufd_reset (- 1) fd)"

text \<open>The move constructor: the values of the new and of the moved-from handle.\<close>

definition ufd_move :: "int \<Rightarrow> int \<times> int" where
  "ufd_move other = ufd_release other"

text \<open>Move assignment between two different handles: the descriptors closed, the values of the target
  and of the source.\<close>

definition ufd_assign :: "int \<Rightarrow> int \<Rightarrow> int list \<times> int \<times> int" where
  "ufd_assign fd other =
     (let (moved, other') = ufd_release other; (closed, fd') = ufd_reset moved fd in (closed, fd', other'))"

section \<open>Programs\<close>

definition unique_fd :: "int handle_class" where
  "unique_fd = \<lparr>hc_live = ufd_bool, hc_blank = ufd_default, hc_destroy = ufd_destroy, hc_move = ufd_move,
     hc_assign = ufd_assign\<rparr>"

lemmas ufd_defs = unique_fd_def ufd_bool_def ufd_default_def ufd_destroy_def ufd_move_def ufd_assign_def
  ufd_release_def ufd_reset_def

interpretation ufd: owning_handle unique_fd
  by unfold_locales (simp_all add: ufd_defs)

inductive fd_step :: "int handle_world \<Rightarrow> int handle_world \<Rightarrow> bool" where
  common: "handle_step unique_fd w w' \<Longrightarrow> fd_step w w'"
| released: "hw_handles w h = Some fd \<Longrightarrow> ufd_release fd = (r, fd') \<Longrightarrow>
    fd_step w ((put_handle h fd' w)\<lparr>hw_raw := (if ufd_bool r then insert r (hw_raw w) else hw_raw w)\<rparr>)"
| reset_to: "hw_handles w h = Some fd \<Longrightarrow> new \<in> hw_raw w \<Longrightarrow> ufd_reset new fd = (closed, fd') \<Longrightarrow>
    fd_step w (give_back_all closed ((put_handle h fd' w)\<lparr>hw_raw := hw_raw w - {new}\<rparr>))"
| reset_empty: "hw_handles w h = Some fd \<Longrightarrow> ufd_reset (- 1) fd = (closed, fd') \<Longrightarrow>
    fd_step w (give_back_all closed (put_handle h fd' w))"

section \<open>Every descriptor has one owner\<close>

lemma ufd_live [simp]: "hc_live unique_fd = ufd_bool" "\<not> ufd_bool (- 1)"
  by (simp_all add: unique_fd_def ufd_bool_def)

lemma ufd_reset_closes: "ufd_reset new fd = (if ufd_bool fd then [fd] else [], new)"
  by (simp add: ufd_reset_def ufd_bool_def)

lemma fd_step_owner: "fd_step w w' \<Longrightarrow> single_owner ufd_bool w \<Longrightarrow> single_owner ufd_bool w'"
proof (induction rule: fd_step.induct)
  case (common w w')
  then show ?case using ufd.step_owner by simp
next
  case (released w h fd r fd')
  show ?case
  proof (cases "ufd_bool fd")
    case True
    with released single_owner_give_up [of ufd_bool w h fd "- 1"] show ?thesis
      by (auto simp: ufd_release_def handle_owns_def)
  next
    case False
    with released have "\<And>x. \<not> handle_owns ufd_bool w h x" by (auto simp: handle_owns_def)
    with released False single_owner_none [of ufd_bool w h "- 1"] show ?thesis
      by (auto simp: ufd_release_def)
  qed
next
  case (reset_to w h fd new closed fd')
  have "single_owner ufd_bool (give_back_all closed (put_handle h (- 1) w))"
    using single_owner_reset [OF reset_to(4,1), of "- 1"] reset_to(3) by (simp add: ufd_reset_closes)
  from single_owner_take [OF this, of h new] reset_to show ?case by (simp add: ufd_reset_closes)
next
  case (reset_empty w h fd closed fd')
  with single_owner_reset [OF reset_empty(3,1), of "- 1"] show ?case by (simp add: ufd_reset_closes)
qed

text \<open>A run for the witness: a descriptor is opened, put into a handle and moved to another one.\<close>

definition sample_world :: "int handle_world" where
  "sample_world = \<lparr>hw_handles = [0 \<mapsto> - 1, 1 \<mapsto> 3], hw_open = {3}, hw_raw = {}, hw_bad = []\<rparr>"

lemma sample_world_reached: "fd_step\<^sup>*\<^sup>* empty_world sample_world"
proof -
  let ?a = "empty_world\<lparr>hw_open := {3}, hw_raw := {3}\<rparr> :: int handle_world"
  let ?b = "(put_handle 0 3 ?a)\<lparr>hw_raw := {}\<rparr>"
  have "fd_step empty_world ?a"
    using handle_step.opened [of unique_fd 3 empty_world] by (intro common) (simp add: empty_world_def ufd_bool_def)
  moreover have "fd_step ?a ?b"
    using handle_step.handle_made [of ?a 0 3 unique_fd] by (intro common) (simp add: empty_world_def)
  moreover have "fd_step ?b sample_world"
    using handle_step.moved [of ?b 1 0 3 unique_fd 3 "- 1"]
    by (intro common) (simp add: empty_world_def sample_world_def put_handle_def ufd_defs fun_upd_twist)
  ultimately show ?thesis by (meson rtranclp.rtrancl_into_rtrancl rtranclp.rtrancl_refl)
qed

text \<open>C33. A descriptor in a handle is closed exactly once and never leaked: in every program over
  handles, whatever is made, moved, assigned, released, reset or destroyed in which order, no
  descriptor is closed that is not open, and the open descriptors are exactly those some handle or
  the program itself still holds; when neither holds any, none is open.\<close>

theorem handles_own_descriptors:
  assumes "fd_step\<^sup>*\<^sup>* empty_world w"
  shows "hw_bad w = [] \<and> hw_open w = hw_raw w \<union> {fd. \<exists>h. handle_owns ufd_bool w h fd} \<and>
    (\<forall>h g fd. handle_owns ufd_bool w h fd \<and> handle_owns ufd_bool w g fd \<longrightarrow> h = g)"
proof -
  from assms have "single_owner ufd_bool w"
    by (induction rule: rtranclp_induct) (auto intro: single_owner_empty fd_step_owner)
  then show ?thesis by (auto simp: single_owner_def)
qed

theorem handles_own_descriptors_witness:
  "fd_step\<^sup>*\<^sup>* empty_world sample_world \<and> hw_bad sample_world = [] \<and>
   {3} = hw_raw sample_world \<union> {fd. \<exists>h. handle_owns ufd_bool sample_world h fd}"
  using handles_own_descriptors [OF sample_world_reached] sample_world_reached
  by (simp add: sample_world_def)

end
