(* ===== verification/File_Writes.thy ===== *)
theory File_Writes
  imports Execell_Prelude
begin

text \<open>
  The two loops that write a whole file: \<^verbatim>\<open>write_file\<close> of \<^verbatim>\<open>src/sandbox/sandbox.cpp\<close>, for the files of
  \<^verbatim>\<open>/proc\<close> and of control groups, and \<^verbatim>\<open>write_root_file\<close> of \<^verbatim>\<open>src/package/package.cpp\<close>, which opens its
  target beneath a root directory. The kernel's answers are functions of the call; those of \<^verbatim>\<open>write\<close>
  also of a running number. The result is the value returned and the effects on descriptors. A loop
  that does not end has no result.
\<close>

section \<open>The kernel\<close>

datatype write_answer = Wrote nat | WriteInterrupted | WriteFailed

datatype file_effect = FdOpened int | FdWritten int string | FdClosed int

datatype open_flag = O_WRONLY | O_CREAT | O_CLOEXEC | O_EXCL | O_TRUNC

datatype resolve_flag = RESOLVE_BENEATH | RESOLVE_NO_MAGICLINKS | RESOLVE_NO_SYMLINKS

record open_how =
  how_flags :: "open_flag set"
  how_mode :: nat
  how_resolve :: "resolve_flag set"

record write_env =
  we_open :: "string \<Rightarrow> int"
  we_openat2 :: "int \<Rightarrow> string \<Rightarrow> open_how \<Rightarrow> int"
  we_write :: "nat \<Rightarrow> int \<Rightarrow> string \<Rightarrow> write_answer"
  we_close :: "int \<Rightarrow> bool"

section \<open>The loops\<close>

text \<open>\<^term>\<open>k\<close> counts the calls of \<^verbatim>\<open>write\<close>. A \<^verbatim>\<open>write\<close> that reports \<^term>\<open>n\<close> bytes has taken
  at most the bytes it was given.\<close>

partial_function (option) write_file_loop ::
    "write_env \<Rightarrow> int \<Rightarrow> string \<Rightarrow> nat \<Rightarrow> nat \<Rightarrow> file_effect list \<Rightarrow> (bool \<times> file_effect list) option" where
  "write_file_loop env fd value k offset effects =
     (if offset < length value then
        case we_write env k fd (drop offset value) of
          WriteInterrupted \<Rightarrow> write_file_loop env fd value (Suc k) offset effects
        | WriteFailed \<Rightarrow> Some (False, effects @ [FdClosed fd])
        | Wrote n \<Rightarrow>
            write_file_loop env fd value (Suc k) (offset + n)
              (effects @ [FdWritten fd (take n (drop offset value))])
      else Some (we_close env fd, effects @ [FdClosed fd]))"

definition write_file :: "write_env \<Rightarrow> string \<Rightarrow> string \<Rightarrow> (bool \<times> file_effect list) option" where
  "write_file env path value =
     (let fd = we_open env path
      in if fd < 0 then Some (False, [])
         else write_file_loop env fd value 0 0 [FdOpened fd])"

partial_function (option) write_root_loop ::
    "write_env \<Rightarrow> int \<Rightarrow> string \<Rightarrow> nat \<Rightarrow> nat \<Rightarrow> file_effect list \<Rightarrow> (bool \<times> file_effect list) option" where
  "write_root_loop env fd data k offset effects =
     (if offset < length data then
        case we_write env k fd (drop offset data) of
          WriteInterrupted \<Rightarrow> write_root_loop env fd data (Suc k) offset effects
        | WriteFailed \<Rightarrow> Some (False, effects @ [FdClosed fd])
        | Wrote n \<Rightarrow>
            (if n = 0 then Some (False, effects @ [FdClosed fd])
             else write_root_loop env fd data (Suc k) (offset + n)
                    (effects @ [FdWritten fd (take n (drop offset data))]))
      else Some (we_close env fd, effects @ [FdClosed fd]))"

text \<open>The mode is 0700 in octal.\<close>

definition root_file_how :: "bool \<Rightarrow> open_how" where
  "root_file_how exclusive =
     \<lparr>how_flags = {O_WRONLY, O_CREAT, O_CLOEXEC, if exclusive then O_EXCL else O_TRUNC},
      how_mode = 7 * 8 ^ 2,
      how_resolve = {RESOLVE_BENEATH, RESOLVE_NO_MAGICLINKS, RESOLVE_NO_SYMLINKS}\<rparr>"

definition write_root_file ::
    "write_env \<Rightarrow> string \<Rightarrow> string \<Rightarrow> string \<Rightarrow> bool \<Rightarrow> (bool \<times> file_effect list) option" where
  "write_root_file env root relative data exclusive =
     (let root_fd = we_open env root
      in if root_fd < 0 then Some (False, [])
         else let fd = we_openat2 env root_fd relative (root_file_how exclusive)
              in if fd < 0 then Some (False, [FdOpened root_fd, FdClosed root_fd])
                 else write_root_loop env fd data 0 0
                        [FdOpened root_fd, FdClosed root_fd, FdOpened fd])"

section \<open>What the effects say\<close>

text \<open>The descriptors opened and closed, and the bytes written, in order.\<close>

fun fds_opened :: "file_effect list \<Rightarrow> int list" where
  "fds_opened [] = []"
| "fds_opened (FdOpened fd # es) = fd # fds_opened es"
| "fds_opened (e # es) = fds_opened es"

fun fds_closed :: "file_effect list \<Rightarrow> int list" where
  "fds_closed [] = []"
| "fds_closed (FdClosed fd # es) = fd # fds_closed es"
| "fds_closed (e # es) = fds_closed es"

fun bytes_written :: "file_effect list \<Rightarrow> string" where
  "bytes_written [] = []"
| "bytes_written (FdWritten fd bs # es) = bs @ bytes_written es"
| "bytes_written (e # es) = bytes_written es"

lemma effects_append [simp]:
  "fds_opened (es @ fs) = fds_opened es @ fds_opened fs" "fds_closed (es @ fs) = fds_closed es @ fds_closed fs"
  "bytes_written (es @ fs) = bytes_written es @ bytes_written fs"
  by (induction es rule: fds_opened.induct; simp)+

text \<open>A loop only adds writes and, at the end, one \<^verbatim>\<open>close\<close>; when it reports success all bytes have
  been written.\<close>

definition loop_result :: "int \<Rightarrow> string \<Rightarrow> nat \<Rightarrow> file_effect list \<Rightarrow> bool \<times> file_effect list \<Rightarrow> bool" where
  "loop_result fd data offset effects r \<longleftrightarrow>
     (\<exists>bs. fds_opened (snd r) = fds_opened effects \<and> fds_closed (snd r) = fds_closed effects @ [fd] \<and>
        bytes_written (snd r) = bytes_written effects @ bs \<and>
        (\<exists>rest. drop offset data = bs @ rest) \<and> (fst r \<longrightarrow> bs = drop offset data))"

lemma loop_result_done: "length data \<le> offset \<Longrightarrow> loop_result fd data offset effects (ok, effects @ [FdClosed fd])"
  by (simp add: loop_result_def)

lemma loop_result_fail: "loop_result fd data offset effects (False, effects @ [FdClosed fd])"
  by (simp add: loop_result_def)

lemma loop_result_write:
  assumes "loop_result fd data (offset + n) (effects @ [FdWritten fd (take n (drop offset data))]) r"
  shows "loop_result fd data offset effects r"
proof -
  have split: "drop offset data = take n (drop offset data) @ drop (offset + n) data"
    by (metis add.commute append_take_drop_id drop_drop)
  from assms obtain bs where "fds_opened (snd r) = fds_opened effects" "fds_closed (snd r) = fds_closed effects @ [fd]"
    "bytes_written (snd r) = bytes_written effects @ take n (drop offset data) @ bs"
    "\<exists>rest. drop (offset + n) data = bs @ rest" "fst r \<longrightarrow> bs = drop (offset + n) data"
    by (auto simp: loop_result_def)
  then show ?thesis
    unfolding loop_result_def using split
    by (intro exI [of _ "take n (drop offset data) @ bs"]) (metis append.assoc)
qed

lemma write_file_loop_result:
  assumes "write_file_loop env fd data k offset effects = Some r"
  shows "loop_result fd data offset effects r"
proof (rule write_file_loop.raw_induct [OF _ assms,
    where P = "\<lambda>_ fd data _ offset effects r. loop_result fd data offset effects r"])
  fix f env fd data k offset effects r
  assume ih: "\<And>env fd data k offset effects r. f env fd data k offset effects = Some r \<Longrightarrow>
      loop_result fd data offset effects r"
    and "(if offset < length data then
        case we_write env k fd (drop offset data) of
          Wrote n \<Rightarrow> f env fd data (Suc k) (offset + n)
              (effects @ [FdWritten fd (take n (drop offset data))])
        | WriteInterrupted \<Rightarrow> f env fd data (Suc k) offset effects
        | WriteFailed \<Rightarrow> Some (False, effects @ [FdClosed fd])
      else Some (we_close env fd, effects @ [FdClosed fd])) = Some r"
  from this(2) show "loop_result fd data offset effects r"
    by (auto split: if_splits write_answer.splits intro: loop_result_done loop_result_fail
        dest!: ih intro: loop_result_write)
qed

lemma write_root_loop_result:
  assumes "write_root_loop env fd data k offset effects = Some r"
  shows "loop_result fd data offset effects r"
proof (rule write_root_loop.raw_induct [OF _ assms,
    where P = "\<lambda>_ fd data _ offset effects r. loop_result fd data offset effects r"])
  fix f env fd data k offset effects r
  assume ih: "\<And>env fd data k offset effects r. f env fd data k offset effects = Some r \<Longrightarrow>
      loop_result fd data offset effects r"
    and "(if offset < length data then
        case we_write env k fd (drop offset data) of
          Wrote n \<Rightarrow> if n = 0 then Some (False, effects @ [FdClosed fd])
              else f env fd data (Suc k) (offset + n) (effects @ [FdWritten fd (take n (drop offset data))])
        | WriteInterrupted \<Rightarrow> f env fd data (Suc k) offset effects
        | WriteFailed \<Rightarrow> Some (False, effects @ [FdClosed fd])
      else Some (we_close env fd, effects @ [FdClosed fd])) = Some r"
  from this(2) show "loop_result fd data offset effects r"
    by (auto split: if_splits write_answer.splits intro: loop_result_done loop_result_fail
        dest!: ih intro: loop_result_write)
qed

text \<open>A file is written whole or the failure is reported: a true result means every byte has been
  written, in order and once; a false result means a prefix has; on every path each descriptor that
  was opened is closed once.\<close>

theorem write_root_file_complete:
  assumes "write_root_file env root relative data exclusive = Some (ok, effects)"
  shows "fds_opened effects = fds_closed effects \<and>
    (\<exists>rest. data = bytes_written effects @ rest \<and> (ok \<longrightarrow> rest = []))"
  using assms write_root_loop_result
  by (fastforce simp: write_root_file_def Let_def loop_result_def split: if_splits)

theorem write_file_complete:
  assumes "write_file env path value = Some (ok, effects)"
  shows "fds_opened effects = fds_closed effects \<and>
    (\<exists>rest. value = bytes_written effects @ rest \<and> (ok \<longrightarrow> rest = []))"
  using assms write_file_loop_result
  by (fastforce simp: write_file_def Let_def loop_result_def split: if_splits)

section \<open>Termination\<close>

text \<open>A call of \<^verbatim>\<open>write\<close> is not interrupted forever.\<close>

definition not_always_interrupted :: "write_env \<Rightarrow> bool" where
  "not_always_interrupted env \<longleftrightarrow>
     (\<forall>fd bs k. \<exists>j \<ge> k. we_write env j fd bs \<noteq> WriteInterrupted)"

text \<open>The interrupted calls before the next answer, for any loop that repeats them.\<close>

lemma skip_interrupts:
  assumes "not_always_interrupted env"
    and again: "\<And>k. we_write env k fd bs = WriteInterrupted \<Longrightarrow> loop k = loop (Suc k)"
  obtains j where "we_write env j fd bs \<noteq> WriteInterrupted" "loop k = loop j"
proof -
  from assms(1) obtain j where "j \<ge> k" "we_write env j fd bs \<noteq> WriteInterrupted"
    unfolding not_always_interrupted_def by blast
  then have "\<exists>j. we_write env j fd bs \<noteq> WriteInterrupted \<and> loop k = loop j"
  proof (induction k rule: inc_induct)
    case (step k)
    then show ?case using again by (cases "we_write env k fd bs") metis+
  qed blast
  with that show thesis by blast
qed

lemma write_root_loop_returns:
  assumes "not_always_interrupted env"
  shows "\<exists>r. write_root_loop env fd data k offset effects = Some r"
proof (induction "length data - offset" arbitrary: k offset effects rule: less_induct)
  case less
  show ?case
  proof (cases "offset < length data")
    case True
    obtain j where j: "we_write env j fd (drop offset data) \<noteq> WriteInterrupted"
      "write_root_loop env fd data k offset effects = write_root_loop env fd data j offset effects"
      by (rule skip_interrupts [OF assms, of fd "drop offset data"
            "\<lambda>k. write_root_loop env fd data k offset effects" k])
        (use True in \<open>simp add: write_root_loop.simps\<close>)
    show ?thesis
    proof (cases "we_write env j fd (drop offset data)")
      case (Wrote n)
      then show ?thesis
        unfolding j(2) using True less [of "offset + n"]
        by (cases "n = 0") (auto simp: write_root_loop.simps [of env fd data j])
    qed (use j True in \<open>auto simp: write_root_loop.simps [of env fd data j]\<close>)
  qed (simp add: write_root_loop.simps)
qed

theorem write_root_file_returns:
  assumes "not_always_interrupted env"
  shows "\<exists>r. write_root_file env root relative data exclusive = Some r"
  using write_root_loop_returns [OF assms] by (auto simp: write_root_file_def Let_def)

text \<open>\<^verbatim>\<open>write_file\<close> has no branch for a \<^verbatim>\<open>write\<close> that takes nothing: it repeats the call, forever when
  the answer stays the same.\<close>

lemma write_file_loop_stuck:
  assumes "write_file_loop env fd data k offset effects = Some r"
    and "\<And>j fd bs. we_write env j fd bs = Wrote 0"
  shows "length data \<le> offset"
proof -
  have "(\<forall>j fd bs. we_write env j fd bs = Wrote 0) \<longrightarrow> length data \<le> offset"
    by (rule write_file_loop.raw_induct [OF _ assms(1),
        where P = "\<lambda>env _ data _ offset _ _. (\<forall>j fd bs. we_write env j fd bs = Wrote 0) \<longrightarrow> length data \<le> offset"])
      (fastforce split: if_splits write_answer.splits)
  with assms(2) show ?thesis by simp
qed

theorem write_file_zero_writes_hang:
  assumes "we_open env path \<ge> 0" "\<And>j fd bs. we_write env j fd bs = Wrote 0" "value \<noteq> []"
  shows "write_file env path value = None"
proof (cases "write_file env path value")
  case (Some r)
  with assms(1) have "write_file_loop env (we_open env path) value 0 0 [FdOpened (we_open env path)] = Some r"
    by (simp add: write_file_def Let_def)
  from write_file_loop_stuck [OF this] assms(2,3) show ?thesis by simp
qed

end
