(* ===== verification/Sandbox.thy ===== *)
theory Sandbox
  imports Seccomp_Filter Wait_Status Fs_Path Report_Sinks Unique_Fd File_Writes
begin

text \<open>
  The sandbox (\<^verbatim>\<open>src/sandbox/sandbox.cpp\<close>, \<^verbatim>\<open>src/sandbox/backend.cpp\<close>): validation of a
  configuration, the sequence of calls the child makes before it starts the program, the parent's
  side with its cleanup, and the capture of a sandboxed command's output.

  The child's setup is written check by check as in the code; whether a call succeeds is the kernel's
  answer, a function of the calls made before it, and the calls made are recorded in order. The
  capture loop take the kernel's answers from a record or from a list of rounds; a capture whose
  rounds are used up while a pipe is still open has not returned yet, which is \<^term>\<open>None\<close>.
\<close>

section \<open>Configuration\<close>

datatype backend = BackendNamespaces | BackendVm

record backend_capabilities =
  cap_namespaces :: bool
  cap_firecracker :: bool
  cap_qemu :: bool

record cgroup_budget =
  cg_path :: string
  memory_max :: "64 word"
  pids_max :: "64 word"
  cpu_quota_us :: "64 word"
  cpu_period_us :: "64 word"

record sandbox_config =
  sc_backend :: backend
  user_namespace :: bool
  mount_namespace :: bool
  network_namespace :: bool
  drop_capabilities :: bool
  no_new_privileges :: bool
  read_only_root :: bool
  clean_environment :: bool
  drop_to_unprivileged_user :: bool
  mount_proc :: bool
  mount_run :: bool
  trace_events :: bool
  cpu_seconds :: "64 word"
  address_space_bytes :: "64 word"
  sc_max_processes :: "64 word"
  max_file_bytes :: "64 word"
  sc_rootfs :: string
  working_directory :: string
  seccomp_allowlist :: "int list"
  cgroup :: cgroup_budget

definition default_config :: sandbox_config where
  "default_config =
     \<lparr>sc_backend = BackendNamespaces, user_namespace = True, mount_namespace = True,
      network_namespace = False, drop_capabilities = True, no_new_privileges = True,
      read_only_root = True, clean_environment = False, drop_to_unprivileged_user = False,
      mount_proc = True, mount_run = True, trace_events = False, cpu_seconds = 0,
      address_space_bytes = 0, sc_max_processes = 0, max_file_bytes = 0, sc_rootfs = [],
      working_directory = [], seccomp_allowlist = [],
      cgroup = \<lparr>cg_path = [], memory_max = 0, pids_max = 0, cpu_quota_us = 0, cpu_period_us = 100000\<rparr>\<rparr>"

text \<open>What validation asks of the host: the search path, which files are executable, which are
  symbolic links.\<close>

record sandbox_host =
  host_path :: "string option"
  host_access :: "string \<Rightarrow> bool"
  host_symlink :: "string \<Rightarrow> bool"

definition executable :: "sandbox_host \<Rightarrow> string \<Rightarrow> bool" where
  "executable h name =
     (case host_path h of
        None \<Rightarrow> False
      | Some paths \<Rightarrow>
          scan_components CHR '':'' (\<lambda>directory. host_access h (directory @ ''/'' @ name)) paths 0)"

definition detect_backends :: "sandbox_host \<Rightarrow> backend_capabilities" where
  "detect_backends h =
     \<lparr>cap_namespaces = True, cap_firecracker = executable h ''firecracker'',
      cap_qemu = executable h ''qemu-system-x86_64''\<rparr>"

definition validate_backend :: "sandbox_host \<Rightarrow> backend \<Rightarrow> unit expected" where
  "validate_backend h b =
     (if b = BackendNamespaces then Inr ()
      else (let capabilities = detect_backends h
            in if \<not> cap_firecracker capabilities \<and> \<not> cap_qemu capabilities
               then Inl ''VM backend unavailable: Firecracker or QEMU required''
               else Inl ''VM backend detected but implementation unavailable''))"

definition validate_cgroup :: "sandbox_host \<Rightarrow> cgroup_budget \<Rightarrow> unit expected" where
  "validate_cgroup h budget =
     (if cg_path budget = [] then Inr ()
      else if \<not> is_absolute (cg_path budget) \<or> host_symlink h (cg_path budget)
      then Inl ''cgroup path must be absolute and non-symlink''
      else if cpu_period_us budget = 0 \<or> cpu_period_us budget > 1000000
      then Inl ''invalid cgroup CPU period''
      else if cpu_quota_us budget \<noteq> 0 \<and> cpu_quota_us budget > cpu_period_us budget * 1024
      then Inl ''cgroup CPU quota exceeds safety ceiling''
      else Inr ())"

definition validate :: "sandbox_host \<Rightarrow> sandbox_config \<Rightarrow> unit expected" where
  "validate h config =
     (if mount_namespace config \<and> \<not> user_namespace config
      then Inl ''mount namespace requires user namespace for unprivileged setup''
      else (case validate_backend h (sc_backend config) of
              Inl err \<Rightarrow> Inl err
            | Inr _ \<Rightarrow>
                if \<not> drop_capabilities config \<and> (mount_namespace config \<or> network_namespace config)
                then Inl ''sandbox must drop capabilities before namespace setup''
                else if seccomp_allowlist config \<noteq> [] \<and> \<not> no_new_privileges config
                then Inl ''seccomp requires no_new_privileges''
                else if cpu_seconds config > 86400 then Inl ''cpu limit exceeds 24 hours''
                else if address_space_bytes config \<noteq> 0 \<and> address_space_bytes config < 4096
                then Inl ''address-space limit is below page size''
                else if sc_max_processes config > 0 \<and> sc_max_processes config > 100000
                then Inl ''process limit exceeds safety ceiling''
                else validate_cgroup h (cgroup config)))"

section \<open>Attestation\<close>

text \<open>The loop that puts a backslash in front of each backslash and quote.\<close>

function escape_loop :: "nat \<Rightarrow> string \<Rightarrow> string" where
  "escape_loop position rootfs =
     (case find_if_from (\<lambda>c. c = backslash \<or> c = dquote) rootfs position of
        None \<Rightarrow> rootfs
      | Some i \<Rightarrow> escape_loop (i + 2) (take i rootfs @ backslash # drop i rootfs))"
  by pat_completeness auto
termination
proof (relation "measure (\<lambda>(position, rootfs). length rootfs - position)")
  fix position i and rootfs :: string
  assume "find_if_from (\<lambda>c. c = backslash \<or> c = dquote) rootfs position = Some i"
  then obtain j where "find_if (\<lambda>c. c = backslash \<or> c = dquote) (drop position rootfs) = Some j"
    and i: "i = position + j"
    by (auto simp: find_if_from_def)
  then have "j < length rootfs - position" using find_if_Some by fastforce
  with i show "((i + 2, take i rootfs @ backslash # drop i rootfs), position, rootfs)
      \<in> measure (\<lambda>(position, rootfs). length rootfs - position)"
    by auto
qed simp

declare escape_loop.simps [simp del]

definition attestation :: "sandbox_config \<Rightarrow> string" where
  "attestation config =
     (let rootfs = escape_loop 0 (sc_rootfs config);
          key = (\<lambda>name. '','' @ quote @ name @ quote @ '':'')
      in ''{'' @ quote @ ''schema_version'' @ quote @ '':1'' @ key ''backend'' @ quote @
         (if sc_backend config = BackendVm then ''vm'' else ''namespace'') @ quote @
         key ''user_namespace'' @ json_bool (user_namespace config) @
         key ''mount_namespace'' @ json_bool (mount_namespace config) @
         key ''network_namespace'' @ json_bool (network_namespace config) @
         key ''no_new_privileges'' @ json_bool (no_new_privileges config) @
         key ''capabilities_dropped'' @ json_bool (drop_capabilities config) @
         key ''seccomp'' @ json_bool (seccomp_allowlist config \<noteq> []) @
         key ''clean_environment'' @ json_bool (clean_environment config) @
         key ''cgroup'' @ json_bool (cg_path (cgroup config) \<noteq> []) @
         key ''rootfs'' @ quote @ rootfs @ quote @ ''}'')"

section \<open>Trace lines on standard error\<close>

fun stderr_kind :: "event \<Rightarrow> string" where
  "stderr_kind (FileOpened _ _ _) = ''file_opened''"
| "stderr_kind (FileRead _ _ _ _) = ''file_read''"
| "stderr_kind (FileWritten _ _ _ _) = ''file_written''"
| "stderr_kind (NetworkConnected _ _ _) = ''network_connected''"
| "stderr_kind (NetworkBound _ _ _) = ''network_bound''"
| "stderr_kind (ProcessExec _ _ _) = ''process_exec''"
| "stderr_kind (ProcessSpawned _ _ _) = ''process_spawned''"
| "stderr_kind (ProcessExited _ _ _ _) = ''process_exited''"
| "stderr_kind _ = ''event''"

definition stderr_trace_line :: "event \<Rightarrow> string" where
  "stderr_trace_line e =
     ''EXECELL_TRACE:{'' @ quote @ ''type'' @ quote @ '':'' @ quote @ stderr_kind e @ quote @
     json_key ''pid'' @ dec_int (ctx_pid (context_of e)) @
     json_key ''sequence'' @ dec_word (ctx_sequence (context_of e)) @ ''}'' @ newline"

text \<open>The write loop: interrupted writes are repeated, any other failure or a zero-length write
  gives up. The kernel's answers come as a list; the result is what reached the descriptor.\<close>

fun write_line :: "string \<Rightarrow> write_answer list \<Rightarrow> string" where
  "write_line line [] = []"
| "write_line line (a # as) =
     (if line = [] then []
      else case a of
             WriteInterrupted \<Rightarrow> write_line line as
           | WriteFailed \<Rightarrow> []
           | Wrote n \<Rightarrow> if n = 0 then [] else take n line @ write_line (drop n line) as)"

definition stderr_trace_report :: "write_answer list \<Rightarrow> event \<Rightarrow> string \<Rightarrow> string" where
  "stderr_trace_report answers e out = out @ write_line (stderr_trace_line e) answers"

interpretation stderr_sink: event_sink "stderr_trace_report answers" default_stop_requested for answers
  by (rule default_event_sink)

section \<open>The child\<close>

text \<open>\<^verbatim>\<open>set_parent_death_signal\<close>: \<^term>\<open>ppid\<close> is the parent's process id at the calls the function makes,
  the first \<^verbatim>\<open>getppid\<close> at 0, \<^verbatim>\<open>prctl\<close> at 1 and the second \<^verbatim>\<open>getppid\<close> at 2.\<close>

definition set_parent_death_signal :: "(nat \<Rightarrow> int) \<Rightarrow> bool \<Rightarrow> int \<Rightarrow> bool" where
  "set_parent_death_signal ppid prctl_ok expected_parent =
     (let parent = ppid 0
      in if expected_parent \<ge> 0 \<and> parent \<noteq> expected_parent then False
         else if \<not> prctl_ok then False
         else ppid 2 = parent)"

text \<open>The signal is armed against the expected parent: an orphan is given another parent and does not
  come back to a former one, so a parent that died before \<^verbatim>\<open>prctl\<close> is noticed by one of the two
  comparisons, and one that dies later is noticed by the kernel.\<close>

lemma death_signal_misses_nothing:
  assumes "set_parent_death_signal ppid prctl_ok parent" "parent \<ge> 0"
    and orphaned: "\<And>i j k. i \<le> j \<Longrightarrow> j \<le> k \<Longrightarrow> ppid k = ppid i \<Longrightarrow> ppid j = ppid i"
  shows "prctl_ok \<and> ppid 0 = parent \<and> ppid 1 = parent \<and> ppid 2 = parent"
  using assms(1,2) orphaned [of 0 1 2] by (auto simp: set_parent_death_signal_def Let_def split: if_splits)

datatype rlimit_resource = RLIMIT_CPU | RLIMIT_AS | RLIMIT_NPROC | RLIMIT_FSIZE

datatype setup_call =
    SetProcessGroup
  | SetParentDeathSignal
  | UnshareUser
  | DenySetgroups
  | AwaitMapping
  | UnshareMount
  | MakeMountsPrivate
  | BindRoot
  | RemountRootReadOnly
  | Chroot string
  | ChangeDirectory string
  | PrepareDirectory string
  | MountProc
  | MountRun
  | MountTmp
  | UnshareNetwork
  | CapsetEmpty
  | SetNoNewPrivileges
  | InstallFilter "sock_filter list"
  | SetRlimit rlimit_resource "64 word"
  | SetGroupId int
  | SetUserId int
  | ClearEnvironment
  | SetVariable string string

datatype child_outcome = ChildExit int | ChildExec | ChildTraced

text \<open>The kernel's answers, and what is left of the child's code after a check: from the calls made so far
  to all calls and the outcome. A checked call ends the child with \<^verbatim>\<open>_exit(127)\<close> when it fails; a call
  whose result is cast to void goes on either way.\<close>

type_synonym answers = "setup_call list \<Rightarrow> setup_call \<Rightarrow> bool"
type_synonym child_code = "setup_call list \<Rightarrow> setup_call list \<times> child_outcome"

definition checked :: "answers \<Rightarrow> setup_call \<Rightarrow> child_code \<Rightarrow> child_code" where
  "checked ok c rest made = (if ok made c then rest (made @ [c]) else (made @ [c], ChildExit 127))"

definition ignored :: "setup_call \<Rightarrow> child_code \<Rightarrow> child_code" where
  "ignored c rest made = rest (made @ [c])"

definition given :: "bool \<Rightarrow> (child_code \<Rightarrow> child_code) \<Rightarrow> child_code \<Rightarrow> child_code" where
  "given b code rest = (if b then code rest else rest)"

definition mount_runtime_filesystems :: "answers \<Rightarrow> sandbox_config \<Rightarrow> child_code \<Rightarrow> child_code" where
  "mount_runtime_filesystems ok config rest =
     (if sc_rootfs config = [] then rest
      else
        (given (mount_proc config)
           (\<lambda>rest. checked ok (PrepareDirectory ''/proc'') (checked ok MountProc rest))
        (given (mount_run config)
           (\<lambda>rest. checked ok (PrepareDirectory ''/run'') (checked ok MountRun rest))
         rest)))"

definition set_limits :: "answers \<Rightarrow> sandbox_config \<Rightarrow> child_code \<Rightarrow> child_code" where
  "set_limits ok config rest =
     given (cpu_seconds config \<noteq> 0) (checked ok (SetRlimit RLIMIT_CPU (cpu_seconds config)))
    (given (address_space_bytes config \<noteq> 0) (checked ok (SetRlimit RLIMIT_AS (address_space_bytes config)))
    (given (sc_max_processes config \<noteq> 0) (checked ok (SetRlimit RLIMIT_NPROC (sc_max_processes config)))
    (given (max_file_bytes config \<noteq> 0) (checked ok (SetRlimit RLIMIT_FSIZE (max_file_bytes config)))
     rest)))"

definition set_clean_environment :: "answers \<Rightarrow> child_code \<Rightarrow> child_code" where
  "set_clean_environment ok rest =
     checked ok ClearEnvironment
    (checked ok (SetVariable ''PATH'' ''/usr/bin:/bin'')
    (checked ok (SetVariable ''HOME'' ''/tmp'')
    (checked ok (SetVariable ''TMPDIR'' ''/tmp'')
    (checked ok (SetVariable ''LANG'' ''C'')
    (checked ok (SetVariable ''LC_ALL'' ''C'') rest)))))"

text \<open>The child's branch of \<^verbatim>\<open>run\<close>, statement by statement.\<close>

definition child_setup :: "answers \<Rightarrow> sandbox_config \<Rightarrow> setup_call list \<times> child_outcome" where
  "child_setup ok config =
     (checked ok SetProcessGroup
     (checked ok SetParentDeathSignal
     (given (user_namespace config) (checked ok UnshareUser)
     (given (user_namespace config)
        (\<lambda>rest. checked ok DenySetgroups (checked ok AwaitMapping rest))
     (given (mount_namespace config) (checked ok UnshareMount)
     (given (mount_namespace config)
        (\<lambda>rest. checked ok MakeMountsPrivate
           (given (read_only_root config)
              (\<lambda>rest. checked ok BindRoot (checked ok RemountRootReadOnly rest)) rest))
     (given (sc_rootfs config \<noteq> [])
        (\<lambda>rest. checked ok (Chroot (sc_rootfs config)) (checked ok (ChangeDirectory ''/'')
           (mount_runtime_filesystems ok config rest)))
     (given (mount_namespace config) (checked ok MountTmp)
     (given (working_directory config \<noteq> []) (checked ok (ChangeDirectory (working_directory config)))
     (given (network_namespace config) (checked ok UnshareNetwork)
     (given (drop_capabilities config) (ignored CapsetEmpty)
     (given (no_new_privileges config) (checked ok SetNoNewPrivileges)
     (given (seccomp_allowlist config \<noteq> [])
        (checked ok (InstallFilter (installed_program (seccomp_allowlist config))))
     (set_limits ok config
     (given (drop_to_unprivileged_user config)
        (\<lambda>rest. checked ok (SetGroupId 1000) (checked ok (SetUserId 1000) rest))
     (given (clean_environment config) (set_clean_environment ok)
     (\<lambda>made. (made, if trace_events config then ChildTraced else ChildExec)))))))))))))))))) []"

section \<open>The set-up as a plan\<close>

text \<open>The same set-up, as the list of calls a configuration asks for, made in order until one fails.\<close>

definition planned_mounts :: "sandbox_config \<Rightarrow> setup_call list" where
  "planned_mounts config =
     (if sc_rootfs config = [] then []
      else (if mount_proc config then [PrepareDirectory ''/proc'', MountProc] else []) @
           (if mount_run config then [PrepareDirectory ''/run'', MountRun] else []))"

definition planned_limits :: "sandbox_config \<Rightarrow> setup_call list" where
  "planned_limits config =
     (if cpu_seconds config \<noteq> 0 then [SetRlimit RLIMIT_CPU (cpu_seconds config)] else []) @
     (if address_space_bytes config \<noteq> 0 then [SetRlimit RLIMIT_AS (address_space_bytes config)] else []) @
     (if sc_max_processes config \<noteq> 0 then [SetRlimit RLIMIT_NPROC (sc_max_processes config)] else []) @
     (if max_file_bytes config \<noteq> 0 then [SetRlimit RLIMIT_FSIZE (max_file_bytes config)] else [])"

text \<open>The environment \<^verbatim>\<open>clean_environment\<close> leaves behind.\<close>

definition clean_variables :: "(string \<times> string) list" where
  "clean_variables =
     [(''PATH'', ''/usr/bin:/bin''), (''HOME'', ''/tmp''), (''TMPDIR'', ''/tmp''),
      (''LANG'', ''C''), (''LC_ALL'', ''C'')]"

definition child_isolation :: "sandbox_config \<Rightarrow> setup_call list" where
  "child_isolation config =
     [SetProcessGroup, SetParentDeathSignal] @
     (if user_namespace config then [UnshareUser, DenySetgroups, AwaitMapping] else []) @
     (if mount_namespace config
      then [UnshareMount, MakeMountsPrivate] @
           (if read_only_root config then [BindRoot, RemountRootReadOnly] else [])
      else []) @
     (if sc_rootfs config \<noteq> []
      then [Chroot (sc_rootfs config), ChangeDirectory ''/''] @ planned_mounts config
      else []) @
     (if mount_namespace config then [MountTmp] else []) @
     (if working_directory config \<noteq> [] then [ChangeDirectory (working_directory config)] else []) @
     (if network_namespace config then [UnshareNetwork] else [])"

definition child_confinement :: "sandbox_config \<Rightarrow> setup_call list" where
  "child_confinement config =
     (if drop_capabilities config then [CapsetEmpty] else []) @
     (if no_new_privileges config then [SetNoNewPrivileges] else []) @
     (if seccomp_allowlist config \<noteq> []
      then [InstallFilter (installed_program (seccomp_allowlist config))] else []) @
     planned_limits config @
     (if drop_to_unprivileged_user config then [SetGroupId 1000, SetUserId 1000] else []) @
     (if clean_environment config
      then ClearEnvironment # map (\<lambda>(name, value). SetVariable name value) clean_variables else [])"

definition child_plan :: "sandbox_config \<Rightarrow> setup_call list" where
  "child_plan config = child_isolation config @ child_confinement config"

fun run_plan :: "answers \<Rightarrow> setup_call list \<Rightarrow> setup_call list \<Rightarrow> setup_call list \<times> bool" where
  "run_plan ok made [] = (made, True)"
| "run_plan ok made (c # cs) =
     (if ok made c \<or> c = CapsetEmpty then run_plan ok (made @ [c]) cs else (made @ [c], False))"

text \<open>Following a plan, then going on.\<close>

definition follow :: "answers \<Rightarrow> setup_call list \<Rightarrow> child_code \<Rightarrow> child_code" where
  "follow ok cs rest made =
     (case run_plan ok made cs of (made', good) \<Rightarrow> if good then rest made' else (made', ChildExit 127))"

lemma follow_Nil [simp]: "follow ok [] rest = rest"
  by (rule ext) (simp add: follow_def)

lemma run_plan_append:
  "run_plan ok made (cs @ ds) =
     (case run_plan ok made cs of (made', good) \<Rightarrow> if good then run_plan ok made' ds else (made', False))"
  by (induction cs arbitrary: made) simp_all

lemma follow_append: "follow ok (cs @ ds) rest = follow ok cs (follow ok ds rest)"
  by (rule ext) (auto simp: follow_def run_plan_append split: prod.splits)

lemma checked_follow: "c \<noteq> CapsetEmpty \<Longrightarrow> checked ok c rest = follow ok [c] rest"
  by (rule ext) (simp add: checked_def follow_def)

lemma ignored_follow: "ignored CapsetEmpty rest = follow ok [CapsetEmpty] rest"
  by (rule ext) (simp add: ignored_def follow_def)

lemma follow_if: "follow ok (if b then cs else []) rest = (if b then follow ok cs rest else rest)"
  by simp

lemma follow_Cons: "follow ok (c # d # cs) rest = follow ok [c] (follow ok (d # cs) rest)"
  using follow_append [of ok "[c]" "d # cs" rest] by simp

lemmas follow_simps = follow_append follow_if follow_Cons

lemma mount_runtime_filesystems_follow:
  "mount_runtime_filesystems ok config rest = follow ok (planned_mounts config) rest"
  by (simp add: mount_runtime_filesystems_def planned_mounts_def given_def checked_follow follow_simps)

lemma set_limits_follow: "set_limits ok config rest = follow ok (planned_limits config) rest"
  by (simp add: set_limits_def planned_limits_def given_def checked_follow follow_simps)

lemma set_clean_environment_follow:
  "set_clean_environment ok rest =
     follow ok (ClearEnvironment # map (\<lambda>(name, value). SetVariable name value) clean_variables) rest"
  by (simp add: set_clean_environment_def clean_variables_def checked_follow follow_simps)

lemma child_setup_follow:
  "child_setup ok config =
     follow ok (child_plan config) (\<lambda>made. (made, if trace_events config then ChildTraced else ChildExec)) []"
proof -
  have plan: "child_plan config =
      [SetProcessGroup] @ [SetParentDeathSignal] @
      (if user_namespace config then [UnshareUser] else []) @
      (if user_namespace config then [DenySetgroups] @ [AwaitMapping] else []) @
      (if mount_namespace config then [UnshareMount] else []) @
      (if mount_namespace config
       then [MakeMountsPrivate] @ (if read_only_root config then [BindRoot] @ [RemountRootReadOnly] else []) else []) @
      (if sc_rootfs config \<noteq> []
       then [Chroot (sc_rootfs config)] @ [ChangeDirectory ''/''] @ planned_mounts config else []) @
      (if mount_namespace config then [MountTmp] else []) @
      (if working_directory config \<noteq> [] then [ChangeDirectory (working_directory config)] else []) @
      (if network_namespace config then [UnshareNetwork] else []) @ child_confinement config"
    by (simp add: child_plan_def child_isolation_def)
  have two: "[SetGroupId 1000, SetUserId 1000] = [SetGroupId 1000] @ [SetUserId 1000]" by simp
  show ?thesis
    unfolding plan child_confinement_def two child_setup_def set_limits_follow
    by (simp only: follow_append follow_if given_def checked_follow setup_call.distinct not_False_eq_True
        ignored_follow [where ok = ok] mount_runtime_filesystems_follow set_clean_environment_follow)
qed

lemma child_setup_plan:
  "child_setup ok config =
     (case run_plan ok [] (child_plan config) of
        (made, good) \<Rightarrow>
          (made, if \<not> good then ChildExit 127
                 else if trace_events config then ChildTraced else ChildExec))"
  unfolding child_setup_follow by (auto simp: follow_def split: prod.splits)

section \<open>Capturing the output of a sandboxed command\<close>

record captured =
  cap_status :: int
  cap_timed_out :: bool
  cap_output_limited :: bool
  cap_stdout :: string
  cap_stderr :: string

definition no_capture :: captured where
  "no_capture = \<lparr>cap_status = - 1, cap_timed_out = False, cap_output_limited = False,
     cap_stdout = [], cap_stderr = []\<rparr>"

text \<open>One answer of a read from a non-blocking pipe; an interrupted read counts as
  \<open>ReadAgain\<close> like one that would block.\<close>

datatype read_answer = ReadData string | ReadEof | ReadAgain | ReadError

datatype pipe_end = OutPipe | ErrPipe

text \<open>The state the lambda \<^verbatim>\<open>drain\<close> works on: what was collected from this pipe, whether it is
  open, the total read so far, the limit flag, and the descriptors closed so far.\<close>

record drain_state =
  dr_target :: string
  dr_open :: bool
  dr_total :: nat
  dr_limited :: bool
  dr_closed :: "pipe_end list"

definition take_chunk :: "nat \<Rightarrow> string \<Rightarrow> drain_state \<Rightarrow> drain_state" where
  "take_chunk output_limit buffer s =
     (let bytes = length buffer;
          remaining = (if output_limit > dr_total s then output_limit - dr_total s else 0);
          target = (if remaining \<noteq> 0 then dr_target s @ take (min remaining bytes) buffer else dr_target s);
          new_total = dr_total s + bytes
      in s\<lparr>dr_target := target, dr_total := new_total,
           dr_limited := dr_limited s \<or> new_total \<ge> output_limit\<rparr>)"

fun drain :: "nat \<Rightarrow> pipe_end \<Rightarrow> read_answer list \<Rightarrow> drain_state \<Rightarrow> drain_state" where
  "drain output_limit p [] s = s"
| "drain output_limit p (ReadData buffer # as) s = drain output_limit p as (take_chunk output_limit buffer s)"
| "drain output_limit p (ReadEof # as) s = s\<lparr>dr_open := False, dr_closed := dr_closed s @ [p]\<rparr>"
| "drain output_limit p (ReadError # as) s = s\<lparr>dr_open := False, dr_closed := dr_closed s @ [p]\<rparr>"
| "drain output_limit p (ReadAgain # as) s = s"

text \<open>One round of the loop: the answers of the two pipes and whether the deadline has passed.\<close>

record capture_round =
  rd_out :: "read_answer list"
  rd_err :: "read_answer list"
  rd_expired :: bool

record capture_state =
  cs_stdout :: string
  cs_stderr :: string
  cs_out_open :: bool
  cs_err_open :: bool
  cs_total :: nat
  cs_limited :: bool
  cs_timed_out :: bool
  cs_killed :: bool
  cs_closed :: "pipe_end list"

definition initial_capture :: capture_state where
  "initial_capture = \<lparr>cs_stdout = [], cs_stderr = [], cs_out_open = True, cs_err_open = True,
     cs_total = 0, cs_limited = False, cs_timed_out = False, cs_killed = False, cs_closed = []\<rparr>"

definition drain_out :: "nat \<Rightarrow> read_answer list \<Rightarrow> capture_state \<Rightarrow> capture_state" where
  "drain_out output_limit as s =
     (let d = drain output_limit OutPipe as \<lparr>dr_target = cs_stdout s, dr_open = cs_out_open s,
                dr_total = cs_total s, dr_limited = cs_limited s, dr_closed = cs_closed s\<rparr>
      in s\<lparr>cs_stdout := dr_target d, cs_out_open := dr_open d, cs_total := dr_total d,
           cs_limited := dr_limited d, cs_closed := dr_closed d\<rparr>)"

definition drain_err :: "nat \<Rightarrow> read_answer list \<Rightarrow> capture_state \<Rightarrow> capture_state" where
  "drain_err output_limit as s =
     (let d = drain output_limit ErrPipe as \<lparr>dr_target = cs_stderr s, dr_open = cs_err_open s,
                dr_total = cs_total s, dr_limited = cs_limited s, dr_closed = cs_closed s\<rparr>
      in s\<lparr>cs_stderr := dr_target d, cs_err_open := dr_open d, cs_total := dr_total d,
           cs_limited := dr_limited d, cs_closed := dr_closed d\<rparr>)"

fun capture_loop :: "nat \<Rightarrow> capture_round list \<Rightarrow> capture_state \<Rightarrow> capture_state option" where
  "capture_loop output_limit [] s = (if cs_out_open s \<or> cs_err_open s then None else Some s)"
| "capture_loop output_limit (r # rs) s =
     (if cs_out_open s \<or> cs_err_open s then
        (let s' = drain_err output_limit (rd_err r) (drain_out output_limit (rd_out r) s)
         in if cs_limited s' then Some (s'\<lparr>cs_killed := True\<rparr>)
            else if rd_expired r then Some (s'\<lparr>cs_timed_out := True, cs_killed := True\<rparr>)
            else capture_loop output_limit rs s')
      else Some s)"

definition capture_status :: "bool \<Rightarrow> 32 word \<Rightarrow> int" where
  "capture_status timed_out status =
     (if timed_out then 124
      else if WIFEXITED status then sint (WEXITSTATUS status)
      else if WIFSIGNALED status then 128 + sint (WTERMSIG status)
      else - 1)"

text \<open>The parent's side of \<^verbatim>\<open>run_captured\<close>: the pipes and the fork may fail, the rounds
  drive the loop, and the child's status is waited for in the end.\<close>

definition run_captured ::
  "string list \<Rightarrow> bool \<Rightarrow> bool \<Rightarrow> int \<Rightarrow> nat \<Rightarrow> capture_round list \<Rightarrow> 32 word \<Rightarrow> captured option" where
  "run_captured args out_pipe err_pipe child output_limit rounds status =
     (if args = [] \<or> \<not> out_pipe \<or> \<not> err_pipe \<or> child < 0 then Some no_capture
      else
        map_option
          (\<lambda>s. \<lparr>cap_status = capture_status (cs_timed_out s) status, cap_timed_out = cs_timed_out s,
                cap_output_limited = cs_limited s, cap_stdout = cs_stdout s, cap_stderr = cs_stderr s\<rparr>)
          (capture_loop output_limit rounds initial_capture))"

section \<open>What the capture keeps\<close>

lemma take_chunk_length:
  "length (dr_target (take_chunk l b s)) + min l (dr_total s) =
     length (dr_target s) + min l (dr_total (take_chunk l b s))"
  by (cases "dr_total s < l") (auto simp: take_chunk_def Let_def min_def)

lemma take_chunk_total: "dr_total (take_chunk l b s) = dr_total s + length b"
  by (simp add: take_chunk_def Let_def)

lemma take_chunk_limited:
  "dr_limited (take_chunk l b s) \<longleftrightarrow> dr_limited s \<or> l \<le> dr_total (take_chunk l b s)"
  by (simp add: take_chunk_def Let_def)

lemma drain_length:
  "length (dr_target (drain l p as s)) + min l (dr_total s) =
     length (dr_target s) + min l (dr_total (drain l p as s))"
proof (induction l p as s rule: drain.induct)
  case (2 l p b as s)
  with take_chunk_length [of l b s] show ?case by simp
qed simp_all

lemma drain_total: "dr_total s \<le> dr_total (drain l p as s)"
proof (induction l p as s rule: drain.induct)
  case (2 l p b as s)
  with take_chunk_total [of l b s] show ?case by simp
qed simp_all

lemma drain_limited:
  "dr_limited (drain l p as s) \<Longrightarrow> dr_limited s \<or> l \<le> dr_total (drain l p as s)"
proof (induction l p as s rule: drain.induct)
  case (2 l p b as s)
  with drain_total [of "take_chunk l b s" l p as] show ?case by (auto simp: take_chunk_limited)
qed simp_all

text \<open>The bytes kept are exactly the first \<^verbatim>\<open>output_limit\<close> bytes read, and the flag is only
  raised at the limit.\<close>

definition capture_inv :: "nat \<Rightarrow> capture_state \<Rightarrow> bool" where
  "capture_inv l s \<longleftrightarrow>
     length (cs_stdout s) + length (cs_stderr s) = min l (cs_total s) \<and>
     (cs_limited s \<longrightarrow> l \<le> cs_total s)"

lemma capture_inv_out: "capture_inv l s \<Longrightarrow> capture_inv l (drain_out l as s)"
  using drain_length [of l OutPipe as "\<lparr>dr_target = cs_stdout s, dr_open = cs_out_open s,
      dr_total = cs_total s, dr_limited = cs_limited s, dr_closed = cs_closed s\<rparr>"]
    drain_limited [of l OutPipe as "\<lparr>dr_target = cs_stdout s, dr_open = cs_out_open s,
      dr_total = cs_total s, dr_limited = cs_limited s, dr_closed = cs_closed s\<rparr>"]
    drain_total [of "\<lparr>dr_target = cs_stdout s, dr_open = cs_out_open s,
      dr_total = cs_total s, dr_limited = cs_limited s, dr_closed = cs_closed s\<rparr>" l OutPipe as]
  by (auto simp: capture_inv_def drain_out_def Let_def)

lemma capture_inv_err: "capture_inv l s \<Longrightarrow> capture_inv l (drain_err l as s)"
  using drain_length [of l ErrPipe as "\<lparr>dr_target = cs_stderr s, dr_open = cs_err_open s,
      dr_total = cs_total s, dr_limited = cs_limited s, dr_closed = cs_closed s\<rparr>"]
    drain_limited [of l ErrPipe as "\<lparr>dr_target = cs_stderr s, dr_open = cs_err_open s,
      dr_total = cs_total s, dr_limited = cs_limited s, dr_closed = cs_closed s\<rparr>"]
    drain_total [of "\<lparr>dr_target = cs_stderr s, dr_open = cs_err_open s,
      dr_total = cs_total s, dr_limited = cs_limited s, dr_closed = cs_closed s\<rparr>" l ErrPipe as]
  by (auto simp: capture_inv_def drain_err_def Let_def)

lemma drain_keeps_flags [simp]:
  "cs_timed_out (drain_out l as s) = cs_timed_out s" "cs_killed (drain_out l as s) = cs_killed s"
  "cs_timed_out (drain_err l as s) = cs_timed_out s" "cs_killed (drain_err l as s) = cs_killed s"
  by (simp_all add: drain_out_def drain_err_def Let_def)

lemma capture_loop_inv:
  "capture_loop l rs s = Some s' \<Longrightarrow> capture_inv l s \<Longrightarrow>
   \<not> cs_limited s \<Longrightarrow> \<not> cs_timed_out s \<Longrightarrow> \<not> cs_killed s \<Longrightarrow>
     capture_inv l s' \<and> (cs_killed s' \<longleftrightarrow> cs_limited s' \<or> cs_timed_out s') \<and>
     \<not> (cs_limited s' \<and> cs_timed_out s')"
proof (induction l rs s rule: capture_loop.induct)
  case (2 l r rs s)
  let ?s = "drain_err l (rd_err r) (drain_out l (rd_out r) s)"
  have inv: "capture_inv l ?s" using 2(3) by (simp add: capture_inv_out capture_inv_err)
  then have "capture_inv l (?s\<lparr>cs_killed := True\<rparr>)" "capture_inv l (?s\<lparr>cs_timed_out := True, cs_killed := True\<rparr>)"
    by (simp_all add: capture_inv_def)
  with 2 inv show ?case
    by (cases "cs_out_open s \<or> cs_err_open s"; cases "cs_limited ?s"; cases "rd_expired r")
      (auto simp: Let_def)
qed (auto split: if_splits)

section \<open>Properties\<close>

lemma period_quota_nat:
  assumes "(p :: 64 word) \<le> 1000000" "q \<le> p * 1024"
  shows "unat q \<le> unat p * 1024"
proof -
  have p: "unat p \<le> 1000000" using assms(1) by (simp add: word_le_nat_alt)
  have "unat (p * 1024) = unat p * 1024 mod 2 ^ 64" by (simp add: unat_word_ariths)
  with p have "unat (p * 1024) = unat p * 1024" by simp
  with assms(2) show ?thesis by (simp add: word_le_nat_alt)
qed

text \<open>A validated configuration is within the documented bounds, read as natural numbers and
  hence without any wrap-around: namespaces backend only, mounts only inside a user namespace,
  capabilities dropped whenever a mount or network namespace is used, a filter only together with
  no-new-privileges, at most a day of processor time, at least a page of address space, at most
  100000 processes, and a control group at an absolute path that is no symbolic link with a
  period of at most a second and a quota of at most 1024 processors.\<close>

theorem validate_sound:
  assumes "validate h config = Inr u"
  shows "sc_backend config = BackendNamespaces \<and>
    (mount_namespace config \<longrightarrow> user_namespace config) \<and>
    (mount_namespace config \<or> network_namespace config \<longrightarrow> drop_capabilities config) \<and>
    (seccomp_allowlist config \<noteq> [] \<longrightarrow> no_new_privileges config) \<and>
    unat (cpu_seconds config) \<le> 86400 \<and>
    (address_space_bytes config = 0 \<or> 4096 \<le> unat (address_space_bytes config)) \<and>
    unat (sc_max_processes config) \<le> 100000 \<and>
    (cg_path (cgroup config) = [] \<or>
     is_absolute (cg_path (cgroup config)) \<and> host_symlink h (cg_path (cgroup config)) = False \<and>
     0 < unat (cpu_period_us (cgroup config)) \<and> unat (cpu_period_us (cgroup config)) \<le> 1000000 \<and>
     unat (cpu_quota_us (cgroup config)) \<le> unat (cpu_period_us (cgroup config)) * 1024)"
proof -
  from assms have cg: "validate_cgroup h (cgroup config) = Inr u"
    by (auto simp: validate_def split: sum.splits if_splits)
  have "cg_path (cgroup config) = [] \<or>
     is_absolute (cg_path (cgroup config)) \<and> host_symlink h (cg_path (cgroup config)) = False \<and>
     cpu_period_us (cgroup config) \<noteq> 0 \<and> cpu_period_us (cgroup config) \<le> 1000000 \<and>
     cpu_quota_us (cgroup config) \<le> cpu_period_us (cgroup config) * 1024"
    using cg by (auto simp: validate_cgroup_def not_less split: if_splits)
  then have "cg_path (cgroup config) = [] \<or>
     is_absolute (cg_path (cgroup config)) \<and> host_symlink h (cg_path (cgroup config)) = False \<and>
     0 < unat (cpu_period_us (cgroup config)) \<and> unat (cpu_period_us (cgroup config)) \<le> 1000000 \<and>
     unat (cpu_quota_us (cgroup config)) \<le> unat (cpu_period_us (cgroup config)) * 1024"
    using period_quota_nat by (auto simp: word_le_nat_alt unat_gt_0)
  moreover have "sc_backend config = BackendNamespaces"
    using assms by (auto simp: validate_def validate_backend_def Let_def split: sum.splits if_splits)
  moreover have "mount_namespace config \<longrightarrow> user_namespace config"
    "mount_namespace config \<or> network_namespace config \<longrightarrow> drop_capabilities config"
    "seccomp_allowlist config \<noteq> [] \<longrightarrow> no_new_privileges config"
    "cpu_seconds config \<le> 86400"
    "address_space_bytes config = 0 \<or> 4096 \<le> address_space_bytes config"
    "sc_max_processes config \<le> 100000"
    using assms by (auto simp: validate_def not_less split: sum.splits if_splits)
  ultimately show ?thesis by (simp add: word_le_nat_alt)
qed

definition plain_host :: sandbox_host where
  "plain_host = \<lparr>host_path = Some ''/usr/bin:/bin'', host_access = \<lambda>_. False, host_symlink = \<lambda>_. False\<rparr>"

definition package_config :: sandbox_config where
  "package_config = default_config\<lparr>seccomp_allowlist := default_package_syscalls, cpu_seconds := 60,
     cgroup := \<lparr>cg_path = ''/sys/fs/cgroup/x'', memory_max = 0, pids_max = 64, cpu_quota_us = 200000,
                cpu_period_us = 100000\<rparr>\<rparr>"

lemma package_config_valid: "validate plain_host package_config = Inr ()"
  by (simp add: validate_def validate_backend_def validate_cgroup_def package_config_def default_config_def
      plain_host_def is_absolute_def)

theorem validate_sound_witness:
  "validate plain_host package_config = Inr () \<and> unat (cpu_seconds package_config) \<le> 86400 \<and>
   no_new_privileges package_config"
  using package_config_valid validate_sound [OF package_config_valid]
  by (simp add: package_config_def default_config_def default_package_syscalls_def)

lemma run_plan_good:
  "run_plan ok made cs = (made', True) \<Longrightarrow>
     made' = made @ cs \<and> (\<forall>i < length cs. cs ! i = CapsetEmpty \<or> ok (made @ take i cs) (cs ! i))"
proof (induction ok made cs rule: run_plan.induct)
  case (2 ok made c cs)
  then have step: "ok made c \<or> c = CapsetEmpty" and
    IH: "made' = (made @ [c]) @ cs \<and> (\<forall>i < length cs. cs ! i = CapsetEmpty \<or> ok ((made @ [c]) @ take i cs) (cs ! i))"
    by (auto split: if_splits)
  have "(c # cs) ! i = CapsetEmpty \<or> ok (made @ take i (c # cs)) ((c # cs) ! i)" if "i < length (c # cs)" for i
    using that step IH by (cases i) auto
  with IH show ?case by simp
qed simp

lemma run_plan_bad:
  "run_plan ok made cs = (made', False) \<Longrightarrow> \<exists>pre c. made' = made @ pre @ [c] \<and> \<not> ok (made @ pre) c"
proof (induction ok made cs rule: run_plan.induct)
  case (2 ok made c cs)
  then show ?case by (fastforce split: if_splits)
qed simp

section \<open>What has been established when the program starts\<close>

text \<open>The calls a configuration requires to have succeeded, field by field.\<close>

inductive required :: "sandbox_config \<Rightarrow> setup_call \<Rightarrow> bool" for config where
  "required config SetProcessGroup"
| "required config SetParentDeathSignal"
| "user_namespace config \<Longrightarrow> required config UnshareUser"
| "user_namespace config \<Longrightarrow> required config DenySetgroups"
| "user_namespace config \<Longrightarrow> required config AwaitMapping"
| "mount_namespace config \<Longrightarrow> required config UnshareMount"
| "mount_namespace config \<Longrightarrow> required config MakeMountsPrivate"
| "mount_namespace config \<Longrightarrow> read_only_root config \<Longrightarrow> required config BindRoot"
| "mount_namespace config \<Longrightarrow> read_only_root config \<Longrightarrow> required config RemountRootReadOnly"
| "mount_namespace config \<Longrightarrow> required config MountTmp"
| "sc_rootfs config = dir \<Longrightarrow> dir \<noteq> [] \<Longrightarrow> required config (Chroot dir)"
| "sc_rootfs config \<noteq> [] \<Longrightarrow> required config (ChangeDirectory ''/'')"
| "sc_rootfs config \<noteq> [] \<Longrightarrow> mount_proc config \<Longrightarrow> required config MountProc"
| "sc_rootfs config \<noteq> [] \<Longrightarrow> mount_run config \<Longrightarrow> required config MountRun"
| "working_directory config = dir \<Longrightarrow> dir \<noteq> [] \<Longrightarrow> required config (ChangeDirectory dir)"
| "network_namespace config \<Longrightarrow> required config UnshareNetwork"
| "no_new_privileges config \<Longrightarrow> required config SetNoNewPrivileges"
| "seccomp_allowlist config = allowed \<Longrightarrow> allowed \<noteq> [] \<Longrightarrow>
     required config (InstallFilter (installed_program allowed))"
| "cpu_seconds config = n \<Longrightarrow> n \<noteq> 0 \<Longrightarrow> required config (SetRlimit RLIMIT_CPU n)"
| "address_space_bytes config = n \<Longrightarrow> n \<noteq> 0 \<Longrightarrow> required config (SetRlimit RLIMIT_AS n)"
| "sc_max_processes config = n \<Longrightarrow> n \<noteq> 0 \<Longrightarrow> required config (SetRlimit RLIMIT_NPROC n)"
| "max_file_bytes config = n \<Longrightarrow> n \<noteq> 0 \<Longrightarrow> required config (SetRlimit RLIMIT_FSIZE n)"
| "drop_to_unprivileged_user config \<Longrightarrow> required config (SetGroupId 1000)"
| "drop_to_unprivileged_user config \<Longrightarrow> required config (SetUserId 1000)"
| "clean_environment config \<Longrightarrow> required config ClearEnvironment"
| "clean_environment config \<Longrightarrow> (name, value) \<in> set clean_variables \<Longrightarrow>
     required config (SetVariable name value)"

text \<open>A call was made, and the kernel answered it with success at that point.\<close>

definition succeeded :: "answers \<Rightarrow> setup_call list \<Rightarrow> setup_call \<Rightarrow> bool" where
  "succeeded ok made c \<longleftrightarrow> (\<exists>before after. made = before @ c # after \<and> ok before c)"

definition needs_privilege :: "setup_call \<Rightarrow> bool" where
  "needs_privilege c \<longleftrightarrow>
     c \<in> {UnshareUser, UnshareMount, UnshareNetwork, MakeMountsPrivate, BindRoot, RemountRootReadOnly,
          MountProc, MountRun, MountTmp} \<or> (\<exists>d. c = Chroot d)"

lemma required_planned:
  assumes "required config c"
  shows "c \<in> set (child_plan config) \<and> c \<noteq> CapsetEmpty"
  using assms
  by cases (auto simp: child_plan_def child_isolation_def child_confinement_def planned_mounts_def
      planned_limits_def)

lemma planned_succeeded:
  assumes "run_plan ok [] cs = (made, True)" "c \<in> set cs" "c \<noteq> CapsetEmpty"
  shows "succeeded ok made c"
proof -
  from assms(2) obtain i where i: "i < length cs" "cs ! i = c" by (auto simp: in_set_conv_nth)
  with run_plan_good [OF assms(1)] assms(3) have "made = cs" "ok (take i cs) c" by auto
  with i show ?thesis
    unfolding succeeded_def by (metis id_take_nth_drop)
qed

lemma child_started:
  assumes "child_setup ok config = (made, outcome)" "outcome \<noteq> ChildExit 127"
  shows "run_plan ok [] (child_plan config) = (made, True)" "made = child_plan config"
    "outcome = (if trace_events config then ChildTraced else ChildExec)"
proof -
  show good: "run_plan ok [] (child_plan config) = (made, True)"
    using assms by (auto simp: child_setup_plan split: prod.splits if_splits)
  then show "made = child_plan config" using run_plan_good by fastforce
  show "outcome = (if trace_events config then ChildTraced else ChildExec)"
    using assms good by (simp add: child_setup_plan split: if_splits)
qed

lemma filter_position:
  assumes "seccomp_allowlist config \<noteq> []"
  shows "\<exists>before after. child_plan config =
      before @ InstallFilter (installed_program (seccomp_allowlist config)) # after \<and>
    (no_new_privileges config \<longrightarrow> SetNoNewPrivileges \<in> set before) \<and>
    (drop_capabilities config \<longrightarrow> CapsetEmpty \<in> set before) \<and> list_ex needs_privilege after = False"
proof -
  let ?before = "child_isolation config @ (if drop_capabilities config then [CapsetEmpty] else []) @
     (if no_new_privileges config then [SetNoNewPrivileges] else [])"
  let ?after = "planned_limits config @
     (if drop_to_unprivileged_user config then [SetGroupId 1000, SetUserId 1000] else []) @
     (if clean_environment config
      then ClearEnvironment # map (\<lambda>(name, value). SetVariable name value) clean_variables else [])"
  have "child_plan config = ?before @ InstallFilter (installed_program (seccomp_allowlist config)) # ?after"
    using assms by (simp add: child_plan_def child_confinement_def)
  moreover have "list_ex needs_privilege ?after = False"
    by (simp add: planned_limits_def needs_privilege_def clean_variables_def)
  moreover have "no_new_privileges config \<longrightarrow> SetNoNewPrivileges \<in> set ?before"
    "drop_capabilities config \<longrightarrow> CapsetEmpty \<in> set ?before" by simp_all
  ultimately show ?thesis by blast
qed

text \<open>C6. What has been established when the child gets to the program, directly or under the tracer: every
  call the configuration requires, field by field, was made and succeeded (process group, death signal,
  user namespace with denied setgroups and the parent's release, private mounts, read-only root, new root
  directory with its file systems, network namespace, no-new-privileges, the filter of the allowlist, each
  resource limit, the unprivileged ids, the cleaned environment); with a filter, no-new-privileges came
  before it, and no namespace, mount or root-directory call after it. Dropping the capabilities is the
  exception: that call is made, before the filter, but its result is ignored. And the child that gives up
  does so at a call that failed, with nothing done after it.\<close>

theorem child_setup_confines:
  assumes "child_setup ok config = (made, outcome)"
  shows "(outcome \<noteq> ChildExit 127 \<longrightarrow>
      outcome = (if trace_events config then ChildTraced else ChildExec) \<and>
      (\<forall>c. required config c \<longrightarrow> succeeded ok made c) \<and>
      (drop_capabilities config \<longrightarrow> CapsetEmpty \<in> set made) \<and>
      (seccomp_allowlist config \<noteq> [] \<longrightarrow>
        (\<exists>before after. made = before @ InstallFilter (installed_program (seccomp_allowlist config)) # after \<and>
          (no_new_privileges config \<longrightarrow> SetNoNewPrivileges \<in> set before) \<and>
          (drop_capabilities config \<longrightarrow> CapsetEmpty \<in> set before) \<and> \<not> list_ex needs_privilege after))) \<and>
    (outcome = ChildExit 127 \<longrightarrow> (\<exists>before c. made = before @ [c] \<and> \<not> ok before c))"
proof (intro conjI impI)
  assume out: "outcome \<noteq> ChildExit 127"
  note started = child_started [OF assms out]
  show "outcome = (if trace_events config then ChildTraced else ChildExec)" by (rule started(3))
  show "\<forall>c. required config c \<longrightarrow> succeeded ok made c"
    using planned_succeeded [OF started(1)] required_planned by blast
  show "CapsetEmpty \<in> set made" if "drop_capabilities config"
    using that started(2) by (simp add: child_plan_def child_confinement_def)
  show "\<exists>before after. made = before @ InstallFilter (installed_program (seccomp_allowlist config)) # after \<and>
      (no_new_privileges config \<longrightarrow> SetNoNewPrivileges \<in> set before) \<and>
      (drop_capabilities config \<longrightarrow> CapsetEmpty \<in> set before) \<and> \<not> list_ex needs_privilege after"
    if "seccomp_allowlist config \<noteq> []"
    using filter_position [OF that] unfolding started(2) by simp
next
  assume "outcome = ChildExit 127"
  with assms have "run_plan ok [] (child_plan config) = (made, False)"
    by (auto simp: child_setup_plan split: prod.splits if_splits)
  from run_plan_bad [OF this] show "\<exists>before c. made = before @ [c] \<and> \<not> ok before c" by auto
qed

lemma run_plan_all: "(\<And>made c. ok made c) \<Longrightarrow> run_plan ok made cs = (made @ cs, True)"
  by (induction cs arbitrary: made) simp_all

lemma package_child: "child_setup (\<lambda>_ _. True) package_config = (child_plan package_config, ChildExec)"
  by (simp add: child_setup_plan run_plan_all package_config_def default_config_def)

theorem child_setup_confines_witness:
  "succeeded (\<lambda>_ _. True) (child_plan package_config)
     (InstallFilter (installed_program default_package_syscalls)) \<and>
   succeeded (\<lambda>_ _. True) (child_plan package_config) RemountRootReadOnly \<and>
   succeeded (\<lambda>_ _. True) (child_plan package_config) (SetRlimit RLIMIT_CPU 60)"
proof -
  have fields: "seccomp_allowlist package_config = default_package_syscalls" "mount_namespace package_config"
    "read_only_root package_config" "cpu_seconds package_config = 60"
    by (simp_all add: package_config_def default_config_def)
  have ne: "default_package_syscalls \<noteq> []" by (simp add: default_package_syscalls_def)
  have req: "required package_config (InstallFilter (installed_program default_package_syscalls))"
    "required package_config RemountRootReadOnly" "required package_config (SetRlimit RLIMIT_CPU 60)"
    using fields ne by (auto intro: required.intros)
  from child_setup_confines [OF package_child] req show ?thesis by simp
qed

text \<open>C20. Captured output is bounded: when the capture returns, the two streams together hold
  at most the limit, the limit flag means the limit was reached, a timeout is reported as status
  124, and no run is both cut off and timed out.\<close>

theorem run_captured_bounded:
  assumes "run_captured args out_pipe err_pipe child output_limit rounds status = Some c"
  shows "length (cap_stdout c) + length (cap_stderr c) \<le> output_limit \<and>
    (cap_output_limited c \<longrightarrow> length (cap_stdout c) + length (cap_stderr c) = output_limit) \<and>
    (cap_timed_out c \<longrightarrow> cap_status c = 124 \<and> \<not> cap_output_limited c)"
proof (cases "args = [] \<or> \<not> out_pipe \<or> \<not> err_pipe \<or> child < 0")
  case True
  with assms have "c = no_capture" by (auto simp: run_captured_def)
  then show ?thesis by (simp add: no_capture_def)
next
  case False
  with assms obtain s where loop: "capture_loop output_limit rounds initial_capture = Some s"
    and c: "c = \<lparr>cap_status = capture_status (cs_timed_out s) status, cap_timed_out = cs_timed_out s,
        cap_output_limited = cs_limited s, cap_stdout = cs_stdout s, cap_stderr = cs_stderr s\<rparr>"
    by (auto simp: run_captured_def)
  from capture_loop_inv [OF loop] have "capture_inv output_limit s \<and> \<not> (cs_limited s \<and> cs_timed_out s)"
    by (simp add: initial_capture_def capture_inv_def)
  with c show ?thesis by (auto simp: capture_inv_def capture_status_def)
qed

theorem run_captured_bounded_witness:
  "run_captured [''sh''] True True 9 4
     [\<lparr>rd_out = [ReadData ''abc'', ReadAgain], rd_err = [ReadData ''xyz'', ReadEof], rd_expired = False\<rparr>] 0 =
   Some \<lparr>cap_status = 0, cap_timed_out = False, cap_output_limited = True, cap_stdout = ''abc'', cap_stderr = ''x''\<rparr>
   \<and> length ''abc'' + length ''x'' \<le> 4"
proof -
  have eq: "run_captured [''sh''] True True 9 4
     [\<lparr>rd_out = [ReadData ''abc'', ReadAgain], rd_err = [ReadData ''xyz'', ReadEof], rd_expired = False\<rparr>] 0 =
   Some \<lparr>cap_status = 0, cap_timed_out = False, cap_output_limited = True, cap_stdout = ''abc'', cap_stderr = ''x''\<rparr>"
    by (simp add: run_captured_def initial_capture_def drain_out_def drain_err_def take_chunk_def Let_def
        capture_status_def WIFEXITED_def WTERMSIG_def WEXITSTATUS_def)
  from eq run_captured_bounded [OF eq] show ?thesis by simp
qed

text \<open>A pipe that reached its end is read and closed again in every further round while the
  other pipe is open: after two rounds in which standard output is already closed, its descriptor
  has been closed twice.\<close>

theorem capture_closes_pipe_twice:
  "map_option cs_closed
     (capture_loop 100
        [\<lparr>rd_out = [ReadEof], rd_err = [ReadAgain], rd_expired = False\<rparr>,
         \<lparr>rd_out = [ReadError], rd_err = [ReadEof], rd_expired = False\<rparr>] initial_capture) =
   Some [OutPipe, OutPipe, ErrPipe]"
  by (simp add: initial_capture_def drain_out_def drain_err_def)

end
