(* ===== verification/Analyze.thy ===== *)
theory Analyze
  imports Policy_Trace Risk_Engine Sandbox
begin

text \<open>
  The analyze command (\<^verbatim>\<open>src/analyze/analyze.cpp\<close>): it runs the target under the tracer with the
  policy reporter in front of the summary and the JSON reporter, or in the sandbox, and turns what
  was seen into a verdict. The tracer is \<open>Trace_Loop\<close>, the reporters are \<open>Policy_Engine\<close>
  and \<open>Report_Sinks\<close>, the risk engine is \<open>Risk_Engine\<close>; the kernel, the sandboxed run and
  the outcome of redirecting standard output are parameters. A run that does not return is
  \<^term>\<open>None\<close>.
\<close>

section \<open>Options and result\<close>

datatype analyze_format = FormatTerminal | FormatJson

record analyze_options =
  ao_format :: analyze_format
  ao_policy :: policy_config
  ao_timeout :: "64 word"
  ao_output_limit :: "64 word"
  ao_sandbox :: bool
  ao_sandbox_config :: sandbox_config

record analyze_result =
  ar_exit_status :: int
  ar_timed_out :: bool
  ar_output_limited :: bool
  ar_session :: string
  ar_events_json :: string
  ar_attestation :: string
  ar_observed_findings :: "finding list"
  ar_policy_findings :: "finding list"
  ar_summary :: summary
  ar_assessment :: assessment

definition new_analyze_result :: analyze_result where
  "new_analyze_result =
     \<lparr>ar_exit_status = - 1, ar_timed_out = False, ar_output_limited = False, ar_session = [],
      ar_events_json = [], ar_attestation = [], ar_observed_findings = [], ar_policy_findings = [],
      ar_summary = empty_summary,
      ar_assessment = \<lparr>score = 0, level = LevelNone, action = ActionAllow, factors = [], findings = []\<rparr>\<rparr>"

section \<open>Reporting\<close>

type_synonym analyze_sinks = "summary \<times> json_reporter"

definition analyze_report :: "event \<Rightarrow> analyze_sinks \<Rightarrow> analyze_sinks" where
  "analyze_report e sinks = (case sinks of (s, j) \<Rightarrow> (summary_report e s, json_report e j))"

interpretation analyze_sink: event_sink analyze_report default_stop_requested
  by (rule default_event_sink)

definition policy_tracer :: "analyze_sinks policy_reporter reporter" where
  "policy_tracer = policy_over analyze_report"

definition string_json_char :: "char \<Rightarrow> string" where
  "string_json_char c =
     (if c = dquote \<or> c = backslash then [backslash] else []) @
     (if c = CHR 0x0A then [backslash, CHR ''n'']
      else if c = CHR 0x0D then [backslash, CHR ''r'']
      else if c = CHR 0x09 then [backslash, CHR ''t''] else [c])"

definition string_json :: "string \<Rightarrow> string" where
  "string_json value = quote @ concat (map string_json_char value) @ quote"

section \<open>Verdict\<close>

definition assessment_engine :: "summary \<Rightarrow> violation list \<Rightarrow> int \<Rightarrow> bool \<Rightarrow> bool \<Rightarrow> risk_engine" where
  "assessment_engine s violations status timed_out output_limited =
     (let e0 = fold (\<lambda>v. risk_reject ''policy_violation'' (v_rule v @ '': '' @ v_resource v))
                 violations new_risk_engine;
          e1 = (if network_attempts s \<noteq> 0
                then risk_add ''network_activity'' 20 ''target attempted network activity'' e0 else e0);
          e2 = (if processes_spawned s \<noteq> 0
                then risk_add ''child_process'' 5 ''target spawned a child process'' e1 else e1);
          e3 = (if failures s \<noteq> 0
                then risk_add ''failed_syscall'' 10 ''target generated failed system calls'' e2 else e2);
          e4 = (if timed_out then risk_reject ''timeout'' ''analysis wall-clock limit exceeded'' e3 else e3);
          e5 = (if output_limited
                then risk_reject ''output_limit'' ''analysis output limit exceeded'' e4 else e4)
      in if status \<noteq> 0
         then risk_reject ''target_failure'' (''target exited with status '' @ dec_int status) e5 else e5)"

definition analyze_assessment :: "summary \<Rightarrow> violation list \<Rightarrow> int \<Rightarrow> bool \<Rightarrow> bool \<Rightarrow> assessment" where
  "analyze_assessment s violations status timed_out output_limited =
     assess (assessment_engine s violations status timed_out output_limited)"

definition verdict :: "assessment \<Rightarrow> string" where
  "verdict a = (if action a = ActionAudit then ''review'' else action_to_string (action a))"

section \<open>The run\<close>

text \<open>Each policy finding is given the resource and the context of the first violation.\<close>

definition place_finding :: "violation list \<Rightarrow> finding \<Rightarrow> analyze_result \<Rightarrow> analyze_result" where
  "place_finding violations f r =
     (if finding_id f = ''policy_violation'' then
        (let f' = (case violations of
                     [] \<Rightarrow> f
                   | v # _ \<Rightarrow> f\<lparr>finding_resource := v_resource v, finding_pid := ctx_pid (v_context v),
                               finding_sequence := ctx_sequence (v_context v)\<rparr>)
         in r\<lparr>ar_policy_findings := ar_policy_findings r @ [f']\<rparr>)
      else r\<lparr>ar_observed_findings := ar_observed_findings r @ [f]\<rparr>)"

definition append_event :: "string \<Rightarrow> string \<Rightarrow> string" where
  "append_event type events =
     (if length events < 2 then events
      else
        (let opened = butlast events
         in opened @ (if opened \<noteq> ''['' then '','' else []) @
            ''{'' @ quote @ ''schema_version'' @ quote @ '':1'' @ json_key ''type'' @ quote @ type @ quote @
            json_key ''pid'' @ ''0'' @ json_key ''sequence'' @ ''0}]''))"

record 'k analyze_env =
  an_temp :: string
  an_pid :: int
  an_directory_made :: bool
  an_captured :: captured
  an_stdout_saved :: bool
  an_api :: "'k kernel"
  an_root_pid :: int
  an_kernel :: 'k

text \<open>\<^verbatim>\<open>session_path\<close>: the empty path when the directory cannot be made.\<close>

definition session_path :: "'k analyze_env \<Rightarrow> string" where
  "session_path env =
     (let path = path_append (an_temp env) (''execell-session-'' @ dec_int (an_pid env))
      in if an_directory_made env then path else [])"

definition an_session :: "'k analyze_env \<Rightarrow> string option" where
  "an_session env = (if session_path env = [] then None else Some (session_path env))"

text \<open>The execution itself: what it leaves in the result, and the policy reporter afterwards.\<close>

definition analyze_execute ::
  "'k analyze_env \<Rightarrow> analyze_options \<Rightarrow> analyze_result \<Rightarrow>
   (analyze_result \<times> analyze_sinks policy_reporter) option" where
  "analyze_execute env options r =
     (let reporter = new_policy_reporter (ao_policy options) (empty_summary, new_json_reporter)
      in if ao_sandbox options then
           (let c = an_captured env
            in Some (r\<lparr>ar_attestation := attestation (ao_sandbox_config options),
                       ar_exit_status := cap_status c, ar_timed_out := cap_timed_out c,
                       ar_output_limited := cap_output_limited c\<rparr>, reporter))
         else
           (let r1 = r\<lparr>ar_attestation := ''backend=ptrace; sandbox=false; policy=observer''\<rparr>
            in if ao_format options = FormatJson \<and> \<not> an_stdout_saved env
               then Some (r1\<lparr>ar_exit_status := 125\<rparr>, reporter)
               else map_option (\<lambda>(out, reporter', k). (r1\<lparr>ar_exit_status := exit_code out\<rparr>, reporter'))
                      (trace_run (an_api env) policy_tracer (an_root_pid env) reporter (an_kernel env))))"

text \<open>From the end of the execution on.\<close>

definition analyze_conclude :: "analyze_result \<Rightarrow> analyze_sinks policy_reporter \<Rightarrow> analyze_result" where
  "analyze_conclude r0 reporter =
     (let (s, j) = pr_downstream reporter;
          violations = pe_violations (pr_engine reporter);
          r1 = r0\<lparr>ar_summary := s, ar_events_json := json_output (json_finish j),
                  ar_assessment := analyze_assessment s violations (ar_exit_status r0)
                                     (ar_timed_out r0) (ar_output_limited r0)\<rparr>;
          r2 = fold (place_finding violations) (findings (ar_assessment r1)) r1;
          events1 = (if ar_timed_out r2 then append_event ''analysis.timeout'' (ar_events_json r2)
                     else ar_events_json r2);
          events2 = (if ar_output_limited r2 then append_event ''analysis.output_limit'' events1 else events1)
      in r2\<lparr>ar_events_json := events2\<rparr>)"

definition analyze_run :: "'k analyze_env \<Rightarrow> string list \<Rightarrow> analyze_options \<Rightarrow> analyze_result option" where
  "analyze_run env args options =
     (case an_session env of
        None \<Rightarrow> Some new_analyze_result
      | Some session \<Rightarrow>
          (let r = new_analyze_result\<lparr>ar_session := session\<rparr>
           in if args = [] then Some r
              else map_option (\<lambda>(r', reporter). analyze_conclude r' reporter) (analyze_execute env options r)))"

section \<open>Output\<close>

definition finding_json :: "finding \<Rightarrow> string" where
  "finding_json f =
     ''{'' @ quote @ ''id'' @ quote @ '':'' @ string_json (finding_id f) @
     json_key ''weight'' @ dec_int (finding_weight f) @
     json_key ''explanation'' @ string_json (finding_explanation f) @ ''}''"

definition full_finding_json :: "finding \<Rightarrow> string" where
  "full_finding_json f =
     ''{'' @ quote @ ''id'' @ quote @ '':'' @ string_json (finding_id f) @
     json_key ''resource'' @ string_json (finding_resource f) @
     json_key ''pid'' @ dec_int (finding_pid f) @ json_key ''sequence'' @ dec_word (finding_sequence f) @
     json_key ''weight'' @ dec_int (finding_weight f) @
     json_key ''explanation'' @ string_json (finding_explanation f) @ ''}''"

definition analyze_json :: "analyze_result \<Rightarrow> string" where
  "analyze_json r =
     ''{'' @ quote @ ''schema_version'' @ quote @ '':2'' @ json_key ''verdict'' @ string_json (verdict (ar_assessment r)) @
     json_key ''risk_level'' @ string_json (level_to_string (level (ar_assessment r))) @
     json_key ''risk_score'' @ dec_int (score (ar_assessment r)) @
     json_key ''exit_status'' @ dec_int (ar_exit_status r) @
     json_key ''timed_out'' @ json_bool (ar_timed_out r) @
     json_key ''output_limited'' @ json_bool (ar_output_limited r) @
     json_key ''session'' @ string_json (ar_session r) @
     json_key ''attestation'' @ string_json (ar_attestation r) @
     json_key ''observed_findings'' @ ''['' @ join_with CHR '','' (map finding_json (ar_observed_findings r)) @ '']'' @
     json_key ''policy_findings'' @ ''['' @ join_with CHR '','' (map finding_json (ar_policy_findings r)) @ '']'' @
     json_key ''findings'' @ ''['' @ join_with CHR '','' (map full_finding_json (findings (ar_assessment r))) @ '']'' @
     json_key ''events'' @ ar_events_json r @ ''}''"

definition finding_line :: "finding \<Rightarrow> string" where
  "finding_line f =
     ''- '' @ finding_id f @ '' ('' @ dec_int (finding_weight f) @ ''): '' @ finding_explanation f @ newline"

text \<open>A path is streamed in quotes, with quotes and backslashes escaped.\<close>

definition quoted_path :: "string \<Rightarrow> string" where
  "quoted_path p =
     quote @ concat (map (\<lambda>c. if c = dquote \<or> c = backslash then [backslash, c] else [c]) p) @ quote"

definition analyze_print :: "analyze_result \<Rightarrow> string" where
  "analyze_print r =
     summary_print (ar_summary r) @
     ''Verdict: '' @ verdict (ar_assessment r) @ newline @
     ''Risk level: '' @ level_to_string (level (ar_assessment r)) @ newline @
     ''Risk score: '' @ dec_int (score (ar_assessment r)) @ newline @
     ''Session: '' @ quoted_path (ar_session r) @ newline @
     ''Attestation: '' @ ar_attestation r @ newline @
     ''Observed findings: '' @ dec_nat (length (ar_observed_findings r)) @ newline @
     ''Policy findings: '' @ dec_nat (length (ar_policy_findings r)) @ newline @
     ''Findings:'' @ newline @ concat (map finding_line (findings (ar_assessment r)))"

section \<open>Properties of the verdict\<close>

lemma factor_sum_append [simp]: "factor_sum (xs @ ys) = factor_sum xs + factor_sum ys"
  by (simp add: factor_sum_def)

lemma reject_simps [simp]:
  "re_direct_reject (risk_reject n x e)" "factor_sum (re_factors (risk_reject n x e)) = factor_sum (re_factors e)"
  "re_direct_reject (risk_add n w x e) = re_direct_reject e"
  "factor_sum (re_factors (risk_add n w x e)) = factor_sum (re_factors e) + max 0 w"
  by (simp_all add: risk_reject_def risk_add_def factor_sum_def)

lemma fold_reject:
  "re_direct_reject (fold (\<lambda>v. risk_reject (n v) (x v)) vs e) \<longleftrightarrow> vs \<noteq> [] \<or> re_direct_reject e"
  "factor_sum (re_factors (fold (\<lambda>v. risk_reject (n v) (x v)) vs e)) = factor_sum (re_factors e)"
  by (induction vs arbitrary: e) auto

lemma new_engine_simps [simp]: "\<not> re_direct_reject new_risk_engine" "factor_sum (re_factors new_risk_engine) = 0"
  by (simp_all add: new_risk_engine_def factor_sum_def)

lemma assessment_engine_reject:
  "re_direct_reject (assessment_engine s vs status to ol) \<longleftrightarrow> vs \<noteq> [] \<or> to \<or> ol \<or> status \<noteq> 0"
  by (simp add: assessment_engine_def Let_def fold_reject)

lemma assessment_engine_sum:
  "factor_sum (re_factors (assessment_engine s vs status to ol)) =
     (if network_attempts s \<noteq> 0 then 20 else 0) + (if processes_spawned s \<noteq> 0 then 5 else 0) +
     (if failures s \<noteq> 0 then 10 else 0)"
  by (simp add: assessment_engine_def Let_def fold_reject)

lemma verdict_cases:
  "verdict (analyze_assessment s violations status timed_out output_limited) =
     (if violations \<noteq> [] \<or> timed_out \<or> output_limited \<or> status \<noteq> 0 then ''reject''
      else if network_attempts s \<noteq> 0 \<and> (processes_spawned s \<noteq> 0 \<or> failures s \<noteq> 0) then ''review''
      else ''allow'')"
  by (simp add: verdict_def analyze_assessment_def assess_eq Let_def assessment_engine_reject
      assessment_engine_sum action_of_score_def)

text \<open>The verdict in closed form: a target is rejected unless it broke no rule, did not run out of
  time or output and exited with status zero; of those that are not rejected, exactly the ones that
  attempted network activity together with spawning a process or failing a system call are up for
  review, all others are allowed.\<close>

theorem analyze_verdict:
  "verdict (analyze_assessment s violations status timed_out output_limited) =
     (if violations = [] \<and> \<not> timed_out \<and> \<not> output_limited \<and> status = 0
      then if network_attempts s = 0 \<or> processes_spawned s = 0 \<and> failures s = 0 then ''allow'' else ''review''
      else ''reject'')"
  by (simp add: verdict_cases)

section \<open>From the trace to the verdict\<close>

lemma analyze_report_fold:
  "fold analyze_report es (s, j) = (fold summary_report es s, fold json_report es j)"
  by (induction es arbitrary: s j) (simp_all add: analyze_report_def)

lemma place_findings_frame:
  "ar_assessment (fold (place_finding vs) fs r) = ar_assessment r"
  "ar_summary (fold (place_finding vs) fs r) = ar_summary r"
  "ar_exit_status (fold (place_finding vs) fs r) = ar_exit_status r"
  "ar_timed_out (fold (place_finding vs) fs r) = ar_timed_out r"
  "ar_output_limited (fold (place_finding vs) fs r) = ar_output_limited r"
  "ar_events_json (fold (place_finding vs) fs r) = ar_events_json r"
  by (induction fs arbitrary: r) (simp_all add: place_finding_def Let_def)

lemma analyze_conclude_simps:
  "ar_assessment (analyze_conclude r reporter) =
     analyze_assessment (fst (pr_downstream reporter)) (pe_violations (pr_engine reporter))
       (ar_exit_status r) (ar_timed_out r) (ar_output_limited r)"
  "ar_summary (analyze_conclude r reporter) = fst (pr_downstream reporter)"
  "ar_exit_status (analyze_conclude r reporter) = ar_exit_status r"
  "\<not> ar_timed_out r \<Longrightarrow> \<not> ar_output_limited r \<Longrightarrow>
     ar_events_json (analyze_conclude r reporter) = json_output (json_finish (snd (pr_downstream reporter)))"
  by (simp_all add: analyze_conclude_def Let_def case_prod_unfold place_findings_frame)

text \<open>C15. From the trace to the verdict: when an analysis under the tracer, in either format (for JSON, once
  standard output has been redirected), runs to the end of the target, there is a stream of events,
  numbered without gaps, that starts with the start of the trace and ends with its end, such that the
  recorded summary counts and the JSON document lists exactly this stream with, after each event that
  broke a rule of the policy, one violation event for the deciding rule; the exit status is the one the
  last event carries, 128 plus the signal for a signal; and the verdict is reject if and only if the
  target failed or some event broke a rule.\<close>

theorem analyze_traced:
  assumes "analyze_run env args options = Some r" "an_session env = Some session" "args \<noteq> []"
    and "\<not> ao_sandbox options" "ao_format options = FormatTerminal \<or> an_stdout_saved env"
    and "trace_run (an_api env) policy_tracer (an_root_pid env)
          (new_policy_reporter (ao_policy options) (empty_summary, new_json_reporter)) (an_kernel env) =
        Some (Finished code, reporter, k)"
  shows "\<exists>es groups status signaled ctx. es \<noteq> [] \<and>
    map (\<lambda>e. ctx_sequence (context_of e)) es = map word_of_nat [0..<length es] \<and>
    hd es = TraceStarted (an_root_pid env) \<lparr>ctx_pid = an_root_pid env, ctx_sequence = 0\<rparr> \<and>
    last es = TraceFinished (an_root_pid env) status signaled ctx \<and>
    ar_exit_status r = code \<and> code = (if signaled then 128 + status else status) \<and>
    length groups = length es \<and>
    (\<forall>i < length es. forwarded (ao_policy options) (take i es) (es ! i) (groups ! i)) \<and>
    ar_summary r = fold summary_report (concat groups) empty_summary \<and>
    ar_events_json r = ''['' @ join_with CHR '','' (map json_object (concat groups)) @ '']'' \<and>
    (verdict (ar_assessment r) = ''reject'' \<longleftrightarrow>
       code \<noteq> 0 \<or>
       (\<exists>i < length es. \<exists>rule resource. breaks (ao_policy options) (take i es) (es ! i) rule resource))"
proof -
  let ?a = "new_analyze_result\<lparr>ar_session := session,
      ar_attestation := ''backend=ptrace; sandbox=false; policy=observer'', ar_exit_status := code\<rparr>"
  have r: "r = analyze_conclude ?a reporter"
    using assms by (auto simp: analyze_run_def analyze_execute_def Let_def)
  have flags: "\<not> ar_timed_out ?a" "\<not> ar_output_limited ?a" by (simp_all add: new_analyze_result_def)
  let ?eng = "new_engine (ao_policy options)"
  from policy_trace_run [OF assms(6) [unfolded policy_tracer_def]] obtain es where
    es: "es \<noteq> []" "map (\<lambda>e. ctx_sequence (context_of e)) es = map word_of_nat [0..<length es]"
    and down: "pr_downstream reporter = fold analyze_report (policy_stream ?eng es) (empty_summary, new_json_reporter)"
    and eng: "pr_engine reporter = run_engine ?eng es" and ne: "policy_stream ?eng es \<noteq> []"
    and hd: "hd es = TraceStarted (an_root_pid env) \<lparr>ctx_pid = an_root_pid env, ctx_sequence = 0\<rparr>"
    and fin: "\<exists>status signaled ctx. last es = TraceFinished (an_root_pid env) status signaled ctx \<and>
       code = (if signaled then 128 + status else status)" .
  from policy_stream_groups [of "ao_policy options" es] obtain groups where
    groups: "policy_stream ?eng es = concat groups" "length groups = length es"
      "\<forall>i < length es. forwarded (ao_policy options) (take i es) (es ! i) (groups ! i)" by blast
  have nf: "\<not> json_finished (fold json_report (concat groups) new_json_reporter)"
    by (simp add: json_fold_finished new_json_reporter_def)
  have "ar_events_json r = ''['' @ join_with CHR '','' (map json_object (concat groups)) @ '']''"
    unfolding r analyze_conclude_simps(4) [OF flags] down analyze_report_fold groups(1)
    using nf ne unfolding groups(1) by (simp add: json_finish_def json_report_fold)
  moreover have "ar_summary r = fold summary_report (concat groups) empty_summary" "ar_exit_status r = code"
    unfolding r analyze_conclude_simps down analyze_report_fold groups(1) by simp_all
  moreover have "verdict (ar_assessment r) = ''reject'' \<longleftrightarrow> code \<noteq> 0 \<or> pe_violations (run_engine ?eng es) \<noteq> []"
    unfolding r analyze_conclude_simps(1) eng verdict_cases using flags by auto
  ultimately show ?thesis
    using es hd fin groups(2,3) unfolding run_engine_violations_iff
    by (elim exE) (intro exI conjI; (elim conjE)?; assumption?; simp)
qed

definition sample_analyze_env :: "script analyze_env" where
  "sample_analyze_env =
     \<lparr>an_temp = ''/tmp'', an_pid = 7, an_directory_made = True, an_captured = no_capture, an_stdout_saved = True,
      an_api = script_kernel, an_root_pid = 7, an_kernel = exit_script\<rparr>"

lemma sample_session: "an_session sample_analyze_env = Some ''/tmp/execell-session-7''"
proof -
  have "dec_int 7 = ''7''" by code_simp
  then show ?thesis
    by (simp add: an_session_def session_path_def sample_analyze_env_def path_append_def is_absolute_def
        has_filename_def)
qed

lemma session_iff_made: "an_session env = None \<longleftrightarrow> \<not> an_directory_made env"
  by (simp add: an_session_def session_path_def path_append_def)

definition sample_analyze_options :: analyze_options where
  "sample_analyze_options =
     \<lparr>ao_format = FormatTerminal,
      ao_policy = \<lparr>denied_paths = [], denied_endpoints = [], denied_syscalls = [], max_processes = 0\<rparr>,
      ao_timeout = 30, ao_output_limit = 1048576, ao_sandbox = False, ao_sandbox_config = default_config\<rparr>"

theorem analyze_traced_witness:
  "\<exists>r. analyze_run sample_analyze_env [''t''] sample_analyze_options = Some r \<and>
     ar_exit_status r = 3 \<and> verdict (ar_assessment r) = ''reject''"
proof -
  let ?p = "new_policy_reporter (ao_policy sample_analyze_options) (empty_summary, new_json_reporter)"
  obtain reporter where t: "trace_run (an_api sample_analyze_env) policy_tracer (an_root_pid sample_analyze_env) ?p
      (an_kernel sample_analyze_env) = Some (Finished 3, reporter, [])"
    by (simp add: sample_analyze_env_def script_exit_run_any)
  have env: "an_session sample_analyze_env = Some ''/tmp/execell-session-7''" "\<not> ao_sandbox sample_analyze_options"
    "ao_format sample_analyze_options = FormatTerminal \<or> an_stdout_saved sample_analyze_env"
    by (simp_all add: sample_session sample_analyze_options_def)
  obtain r where r: "analyze_run sample_analyze_env [''t''] sample_analyze_options = Some r"
    using t env by (auto simp: analyze_run_def analyze_execute_def Let_def)
  from analyze_traced [OF r env(1) _ env(2,3) t] r show ?thesis by auto
qed

text \<open>When the session directory cannot be made nothing is run, and the verdict is to allow.\<close>

theorem analyze_without_session_allows:
  "\<not> an_directory_made env \<Longrightarrow>
     (\<exists>r. analyze_run env args options = Some r \<and> verdict (ar_assessment r) = ''allow'')"
  using session_iff_made [of env] by (simp add: analyze_run_def new_analyze_result_def verdict_def)

text \<open>In the sandbox no event is reported: the policy is never consulted and the document of events is
  a closing bracket only.\<close>

theorem analyze_sandbox_events:
  assumes "ao_sandbox options" "an_session env = Some session" "args \<noteq> []"
  shows "\<exists>r. analyze_run env args options = Some r \<and> ar_events_json r = '']'' \<and> ar_policy_findings r = []"
proof -
  have "append_event t '']'' = '']''" for t by (simp add: append_event_def)
  moreover have "json_output (json_finish new_json_reporter) = '']''"
    by (simp add: json_finish_def new_json_reporter_def)
  moreover have "ar_policy_findings (fold (place_finding []) fs r) = ar_policy_findings r"
    if "list_all (\<lambda>f. finding_id f \<noteq> ''policy_violation'') fs" for fs r
    using that by (induction fs arbitrary: r) (simp_all add: place_finding_def)
  moreover have "list_all (\<lambda>f. finding_id f \<noteq> ''policy_violation'')
      (findings (analyze_assessment s [] status to ol))" for s status to ol
    by (simp add: analyze_assessment_def assess_eq Let_def assessment_engine_def risk_add_def risk_reject_def
        new_risk_engine_def finding_of_def)
  ultimately show ?thesis
    using assms
    by (simp add: analyze_run_def analyze_execute_def Let_def analyze_conclude_def new_policy_reporter_def
        new_engine_def place_findings_frame new_analyze_result_def)
qed

end
