(* ===== verification/Archive_Adapter.thy ===== *)
theory Archive_Adapter
  imports Fs_Path Owned_Handle
begin

text \<open>
  The archive adapter (\<^verbatim>\<open>src/package/archive.cpp\<close>): path and link validation, the
  conversion of a raw archive entry, and the bounded listing and reading of an archive.

  libarchive is a parameter: an abstract reader state with the three calls the code makes, the
  next header (\<^term>\<open>None\<close> for anything but \<^verbatim>\<open>ARCHIVE_OK\<close>), a read of entry data (the
  signed 64-bit count and the bytes put into the buffer) and the pending error. A C string is a
  string without NUL, absent pointers are \<^term>\<open>None\<close>. Listing terminates whatever libarchive
  answers, because each round adds an entry below \<^verbatim>\<open>max_entries\<close> and each block read adds
  bytes below the unpacked limit; reading one entry walks over the headers without such a
  bound, so it is a partial function.
\<close>

section \<open>Paths\<close>

abbreviation (input) zero_byte :: char where "zero_byte \<equiv> CHR 0x00"

fun strip_dot_slash :: "string \<Rightarrow> string" where
  "strip_dot_slash (a # b # s) =
     (if a = CHR ''.'' \<and> b = CHR ''/'' then strip_dot_slash s else a # b # s)"
| "strip_dot_slash s = s"

definition safe_path :: "string option \<Rightarrow> nat \<Rightarrow> string expected" where
  "safe_path raw limit =
     (case raw of
        None \<Rightarrow> Inl ''archive entry has no path''
      | Some raw_path \<Rightarrow>
          (let path = strip_dot_slash raw_path
           in if path = [] \<or> limit < length path \<or> hd path = CHR ''/'' \<or>
                 find_if (\<lambda>c. c = zero_byte) path \<noteq> None
              then Inl ''unsafe archive path''
              else if scan_components CHR ''/''
                        (\<lambda>component. component = [] \<or> component = ''.'' \<or> component = ''..'') path 0
              then Inl ''unsafe archive path''
              else Inr path))"

definition safe_link :: "string option \<Rightarrow> nat \<Rightarrow> string expected" where
  "safe_link raw limit =
     (case raw of
        None \<Rightarrow> Inl ''archive link has no target''
      | Some target \<Rightarrow>
          (if target = [] \<or> limit < length target \<or> hd target = CHR ''/'' \<or>
              find_if (\<lambda>c. c = zero_byte) target \<noteq> None
           then Inl ''unsafe archive link''
           else if scan_components CHR ''/'' (\<lambda>component. component = ''..'') target 0
           then Inl ''unsafe archive link''
           else Inr target))"

text \<open>\<^verbatim>\<open>copy.c_str()\<close> ends at the first NUL.\<close>

definition c_str :: "string \<Rightarrow> string" where
  "c_str s = takeWhile (\<lambda>c. c \<noteq> zero_byte) s"

definition validate_path :: "string \<Rightarrow> nat \<Rightarrow> string expected" where
  "validate_path value max_bytes = safe_path (Some (c_str value)) max_bytes"

definition validate_link_target :: "string \<Rightarrow> nat \<Rightarrow> string expected" where
  "validate_link_target value max_bytes = safe_link (Some (c_str value)) max_bytes"

section \<open>Entries\<close>

datatype entry_kind = KindRegular | KindSymlink | KindHardlink

record archive_entry =
  ae_path :: string
  ae_kind :: entry_kind
  ae_link_target :: string
  ae_size :: "64 word"
  ae_mode :: "32 word"

record archive_limits =
  max_archive_bytes :: "64 word"
  max_unpacked_bytes :: "64 word"
  max_entries :: nat
  max_path_bytes :: nat

definition default_limits :: archive_limits where
  "default_limits = \<lparr>max_archive_bytes = push_bit 32 1, max_unpacked_bytes = push_bit 30 1,
     max_entries = 100000, max_path_bytes = 4096\<rparr>"

text \<open>What the accessors of \<^verbatim>\<open>struct archive_entry\<close> return.\<close>

record raw_entry =
  raw_pathname :: "string option"
  raw_size :: "int option"
  raw_mode :: "32 word"
  raw_filetype :: nat
  raw_symlink :: "string option"
  raw_hardlink :: "string option"

abbreviation (input) AE_IFREG :: nat where "AE_IFREG \<equiv> 0x8000"
abbreviation (input) AE_IFLNK :: nat where "AE_IFLNK \<equiv> 0xA000"
abbreviation (input) AE_IFDIR :: nat where "AE_IFDIR \<equiv> 0x4000"

definition entry_link :: "entry_kind \<Rightarrow> string option \<Rightarrow> archive_limits \<Rightarrow> archive_entry \<Rightarrow> archive_entry expected" where
  "entry_link k raw_target limits entry =
     (case safe_link raw_target (max_path_bytes limits) of
        Inl err \<Rightarrow> Inl err
      | Inr link \<Rightarrow> Inr (entry\<lparr>ae_kind := k, ae_link_target := link\<rparr>))"

text \<open>The choice by entry type.\<close>

definition typed_entry :: "raw_entry \<Rightarrow> archive_limits \<Rightarrow> archive_entry \<Rightarrow> archive_entry expected" where
  "typed_entry raw limits entry =
     (if raw_filetype raw = AE_IFLNK then entry_link KindSymlink (raw_symlink raw) limits entry
      else if raw_hardlink raw \<noteq> None then entry_link KindHardlink (raw_hardlink raw) limits entry
      else if raw_filetype raw = AE_IFREG then Inr (entry\<lparr>ae_kind := KindRegular\<rparr>)
      else if raw_filetype raw = AE_IFDIR then Inr (entry\<lparr>ae_size := 0\<rparr>)
      else Inl ''unsupported archive entry type'')"

definition entry_of :: "raw_entry \<Rightarrow> archive_limits \<Rightarrow> archive_entry expected" where
  "entry_of raw limits =
     (case safe_path (raw_pathname raw) (max_path_bytes limits) of
        Inl err \<Rightarrow> Inl err
      | Inr path \<Rightarrow>
          (case typed_entry raw limits
                  \<lparr>ae_path = path, ae_kind = KindRegular, ae_link_target = [],
                   ae_size = (case raw_size raw of
                                Some n \<Rightarrow> if n \<ge> 0 then word_of_int n else 0
                              | None \<Rightarrow> 0),
                   ae_mode = raw_mode raw\<rparr> of
             Inl err \<Rightarrow> Inl err
           | Inr e \<Rightarrow> if ae_mode e AND 0xC00 \<noteq> 0
                     then Inl ''setuid or setgid archive entry rejected'' else Inr e))"

section \<open>Walking over an archive\<close>

record 'a libarchive =
  a_next_header :: "'a \<Rightarrow> raw_entry option \<times> 'a"
  a_read_data :: "nat \<Rightarrow> 'a \<Rightarrow> 64 word \<times> string \<times> 'a"
  a_error :: "'a \<Rightarrow> string option"

datatype 'a open_result =
  NewFailed | SetupFailed | OpenFailed string | Opened 'a

definition open_archive ::
  "string + 64 word \<Rightarrow> 'a open_result \<Rightarrow> archive_limits \<Rightarrow> 'a expected" where
  "open_archive file_size opened limits =
     (case file_size of
        Inl err \<Rightarrow> Inl (''archive stat failed: '' @ err)
      | Inr bytes \<Rightarrow>
          if bytes > max_archive_bytes limits then Inl ''archive exceeds compressed-size limit''
          else (case opened of
                  NewFailed \<Rightarrow> Inl ''archive reader allocation failed''
                | SetupFailed \<Rightarrow> Inl ''archive format setup failed''
                | OpenFailed err \<Rightarrow> Inl (''archive open failed: '' @ err)
                | Opened reader \<Rightarrow> Inr reader))"

definition fits :: "64 word \<Rightarrow> 64 word \<Rightarrow> 64 word \<Rightarrow> bool" where
  "fits bytes used limit \<longleftrightarrow> bytes \<le> limit - min used limit"

lemma fits_unat:
  assumes "fits b t l" "b \<noteq> 0"
  shows "unat b + unat t \<le> unat l" "unat (t + b) = unat t + unat b"
proof -
  have tl: "t \<le> l"
  proof (rule ccontr)
    assume "\<not> t \<le> l"
    then have "min t l = l" by (simp add: min_def)
    with assms show False by (simp add: fits_def)
  qed
  with assms(1) have "unat b \<le> unat l - unat t"
    by (simp add: fits_def min_def word_le_nat_alt unat_sub)
  with tl show le: "unat b + unat t \<le> unat l" by (simp add: word_le_nat_alt)
  have "unat l < 2 ^ LENGTH(64)" by (rule unsigned_less)
  with le show "unat (t + b) = unat t + unat b"
    by (subst unat_plus_simple [THEN iffD1]) (auto simp: no_olen_add_nat)
qed

function discard_entry ::
  "'a libarchive \<Rightarrow> 'a \<Rightarrow> 64 word \<Rightarrow> 64 word \<Rightarrow> bool \<times> 64 word \<times> 'a" where
  "discard_entry api reader used limit =
     (case a_read_data api 65536 reader of
        (count, _, reader') \<Rightarrow>
          if count = 0 then (True, used, reader')
          else if sint count < 0 then (False, used, reader')
          else if \<not> fits count used limit then (False, used, reader')
          else discard_entry api reader' (used + count) limit)"
  by pat_completeness auto
termination
proof (relation "measure (\<lambda>(api, reader, used, limit). unat limit - unat used)")
  fix api :: "'a libarchive" and reader reader' used limit count and x xb :: "string \<times> 'a" and xa
  assume "count \<noteq> 0" "\<not> \<not> fits count used limit"
  then have "fits count used limit" by simp
  from fits_unat [OF this \<open>count \<noteq> 0\<close>] \<open>count \<noteq> 0\<close>
  show "((api, reader', used + count, limit), (api, reader, used, limit))
      \<in> measure (\<lambda>(api, reader, used, limit). unat limit - unat used)"
    by (auto simp: word_unat_eq_iff)
qed simp

declare discard_entry.simps [simp del]

function list_loop ::
  "'a libarchive \<Rightarrow> archive_limits \<Rightarrow> 'a \<Rightarrow> archive_entry list \<Rightarrow> 64 word \<Rightarrow>
     archive_entry list expected" where
  "list_loop api limits reader result unpacked =
     (case a_next_header api reader of
        (None, reader') \<Rightarrow>
          (case a_error api reader' of
             Some err \<Rightarrow> Inl (''archive iteration failed: '' @ err)
           | None \<Rightarrow> Inr result)
      | (Some raw, reader') \<Rightarrow>
          if length result \<ge> max_entries limits then Inl ''archive entry-count limit exceeded''
          else (case entry_of raw limits of
                  Inl err \<Rightarrow> Inl err
                | Inr entry \<Rightarrow>
                    if \<not> fits (ae_size entry) unpacked (max_unpacked_bytes limits)
                    then Inl ''archive unpacked-size limit exceeded''
                    else (case discard_entry api reader' (unpacked + ae_size entry)
                                 (max_unpacked_bytes limits) of
                            (kept, unpacked', reader'') \<Rightarrow>
                              if kept then list_loop api limits reader'' (result @ [entry]) unpacked'
                              else Inl ''archive unpacked-size limit exceeded'')))"
  by pat_completeness auto
termination
  by (relation "measure (\<lambda>(api, limits, reader, result, unpacked). max_entries limits - length result)") auto

declare list_loop.simps [simp del]

definition list_archive ::
  "'a libarchive \<Rightarrow> string + 64 word \<Rightarrow> 'a open_result \<Rightarrow> archive_limits \<Rightarrow>
     archive_entry list expected" where
  "list_archive api file_size opened limits =
     (case open_archive file_size opened limits of
        Inl err \<Rightarrow> Inl err
      | Inr reader \<Rightarrow> list_loop api limits reader [] 0)"

text \<open>\<^verbatim>\<open>archive_read_data\<close> writes into the string's buffer at an offset; bytes beyond the
  end of the buffer are not part of the string.\<close>

definition write_at :: "string \<Rightarrow> nat \<Rightarrow> string \<Rightarrow> string" where
  "write_at buffer offset data =
     take (length buffer) (take offset buffer @ data @ drop (offset + length data) buffer)"

lemma length_write_at [simp]: "length (write_at buffer offset data) = length buffer"
  by (simp add: write_at_def)

function read_data :: "'a libarchive \<Rightarrow> 'a \<Rightarrow> string \<Rightarrow> nat \<Rightarrow> string expected" where
  "read_data api reader result offset =
     (if offset < length result then
        (case a_read_data api (length result - offset) reader of
           (count, data, reader') \<Rightarrow>
             if sint count \<le> 0 then Inl ''archive entry read failed''
             else read_data api reader' (write_at result offset data) (offset + unat count))
      else Inr result)"
  by pat_completeness auto
termination
proof (relation "measure (\<lambda>(api, reader, result, offset). length result - offset)")
  fix api :: "'a libarchive" and reader reader' and result data :: string
    and offset :: nat and count :: "64 word" and x xa
  assume "offset < length result" "\<not> sint count \<le> 0"
  then have "count \<noteq> 0" by auto
  then have "unat count \<noteq> 0" by (simp add: word_unat_eq_iff)
  with \<open>offset < length result\<close>
  show "((api, reader', write_at result offset data, offset + unat count), (api, reader, result, offset))
      \<in> measure (\<lambda>(api, reader, result, offset). length result - offset)"
    by simp
qed simp

declare read_data.simps [simp del]

partial_function (option) read_loop ::
  "'a libarchive \<Rightarrow> archive_limits \<Rightarrow> string \<Rightarrow> nat \<Rightarrow> 'a \<Rightarrow> string expected option" where
  "read_loop api limits wanted max_bytes reader =
     (case a_next_header api reader of
        (None, _) \<Rightarrow> Some (Inl (''archive entry not found: '' @ wanted))
      | (Some raw, reader') \<Rightarrow>
          (case entry_of raw limits of
             Inl err \<Rightarrow> Some (Inl err)
           | Inr entry \<Rightarrow>
               if ae_path entry \<noteq> wanted then
                 (case discard_entry api reader' 0 (max_unpacked_bytes limits) of
                    (kept, _, reader'') \<Rightarrow>
                      if kept then read_loop api limits wanted max_bytes reader''
                      else Some (Inl ''archive entry read failed''))
               else if ae_kind entry \<noteq> KindRegular \<or> max_bytes < unat (ae_size entry) then
                 Some (Inl ''archive entry is not bounded regular data'')
               else Some (read_data api reader' (replicate (unat (ae_size entry)) zero_byte) 0)))"

definition read_archive ::
  "'a libarchive \<Rightarrow> string + 64 word \<Rightarrow> 'a open_result \<Rightarrow> string \<Rightarrow> nat \<Rightarrow> archive_limits \<Rightarrow>
     string expected option" where
  "read_archive api file_size opened wanted max_bytes limits =
     (case safe_path (Some (c_str wanted)) (max_path_bytes limits) of
        Inl err \<Rightarrow> Some (Inl err)
      | Inr safe \<Rightarrow>
          (case open_archive file_size opened limits of
             Inl err \<Rightarrow> Some (Inl err)
           | Inr reader \<Rightarrow> read_loop api limits safe max_bytes reader))"

section \<open>What a safe path is\<close>

definition archive_safe :: "nat \<Rightarrow> string \<Rightarrow> bool" where
  "archive_safe limit p \<longleftrightarrow>
     length p \<le> limit \<and> zero_byte \<notin> set p \<and> list_all plain_component (split_on CHR ''/'' p)"

lemma split_on_hd_sep: "p \<noteq> [] \<Longrightarrow> hd p = sep \<Longrightarrow> [] \<in> set (split_on sep p)"
  by (cases p) auto

lemma plain_component_nonempty: "plain_component c \<Longrightarrow> c \<noteq> []"
  by (simp add: plain_component_def)

lemma plain_split_nonempty:
  assumes "list_all plain_component (split_on CHR ''/'' p)"
  shows "p \<noteq> [] \<and> hd p \<noteq> CHR ''/''"
proof -
  have "[] \<notin> set (split_on CHR ''/'' p)"
    using assms plain_component_nonempty unfolding list_all_iff by blast
  moreover have "p = [] \<Longrightarrow> [] \<in> set (split_on CHR ''/'' p)" by simp
  ultimately show ?thesis using split_on_hd_sep [of p "CHR ''/''"] by blast
qed

lemma plain_components_iff:
  "list_all plain_component (split_on CHR ''/'' p) \<longleftrightarrow>
     \<not> (\<exists>c \<in> set (split_on CHR ''/'' p). c = [] \<or> c = ''.'' \<or> c = ''..'')"
  using split_on_components [of _ "CHR ''/''" p] unfolding list_all_iff plain_component_def by blast

lemma safe_path_iff:
  "safe_path (Some raw) limit = Inr p \<longleftrightarrow> p = strip_dot_slash raw \<and> archive_safe limit p"
proof -
  let ?p = "strip_dot_slash raw"
  have nul: "find_if (\<lambda>c. c = zero_byte) ?p = None \<longleftrightarrow> zero_byte \<notin> set ?p"
    by (auto simp: find_if_None)
  have "safe_path (Some raw) limit = Inr p \<longleftrightarrow>
      p = ?p \<and> ?p \<noteq> [] \<and> length ?p \<le> limit \<and> hd ?p \<noteq> CHR ''/'' \<and> zero_byte \<notin> set ?p \<and>
      list_all plain_component (split_on CHR ''/'' ?p)"
    unfolding safe_path_def plain_components_iff scan_components_split nul option.case Let_def by auto
  then show ?thesis using plain_split_nonempty [of ?p] unfolding archive_safe_def by blast
qed

lemma safe_link_iff:
  "safe_link (Some raw) limit = Inr p \<longleftrightarrow>
     p = raw \<and> raw \<noteq> [] \<and> length raw \<le> limit \<and> hd raw \<noteq> CHR ''/'' \<and> zero_byte \<notin> set raw \<and>
     ''..'' \<notin> set (split_on CHR ''/'' raw)"
  by (auto simp: safe_link_def scan_components_split find_if_None not_less split: if_splits)

section \<open>Where a safe path leads\<close>

lemma plain_no_slash: "list_all plain_component cs \<Longrightarrow> \<forall>c \<in> set cs. CHR ''/'' \<notin> set c"
  unfolding list_all_iff plain_component_def by blast

lemma split_absolute_join:
  "cs \<noteq> [] \<Longrightarrow> list_all plain_component cs \<Longrightarrow>
     split_on CHR ''/'' (CHR ''/'' # join_with CHR ''/'' cs) = [] # cs"
  by (simp add: split_join plain_no_slash)

lemma norm_components_plain:
  assumes "list_all plain_component cs"
  shows "norm_components True ([] # cs) = cs"
proof -
  have "foldl (norm_step True) [] cs = rev cs"
    using foldl_norm_step_names [of cs True "[]"] assms unfolding list_all_iff by simp
  then show ?thesis by (simp add: norm_components_def)
qed

lemma plain_not_elided: "plain_component c \<Longrightarrow> c \<notin> {[], ''.'', ''..''}"
  unfolding plain_component_def by blast

lemma lexically_normal_plain:
  assumes "cs \<noteq> []" "list_all plain_component cs"
  shows "lexically_normal (CHR ''/'' # join_with CHR ''/'' cs) = CHR ''/'' # join_with CHR ''/'' cs"
proof -
  let ?p = "CHR ''/'' # join_with CHR ''/'' cs"
  have abs: "is_absolute ?p" by (simp add: is_absolute_def)
  have "last cs \<in> set cs" using assms(1) by simp
  then have "last cs \<notin> {[], ''.'', ''..''}"
    using assms(2) plain_not_elided unfolding list_all_iff by blast
  moreover have "last ([] # cs) = last cs" using assms(1) by simp
  ultimately show ?thesis
    unfolding lexically_normal_def split_absolute_join [OF assms] Let_def
    using abs assms(1) by (simp add: norm_components_plain [OF assms(2)])
qed

lemma has_filename_join:
  assumes "cs \<noteq> []" "list_all plain_component cs"
  shows "has_filename (CHR ''/'' # join_with CHR ''/'' cs)"
proof -
  have last: "plain_component (last cs)"
    using assms unfolding list_all_iff by (meson last_in_set)
  then have "last (last cs) \<noteq> CHR ''/''" "last cs \<noteq> []"
    unfolding plain_component_def by (metis last_in_set)+
  moreover have "cs \<noteq> [] \<Longrightarrow> last cs \<noteq> [] \<Longrightarrow> last (join_with CHR ''/'' cs) = last (last cs) \<and>
      join_with CHR ''/'' cs \<noteq> []" for cs
    by (induction "CHR ''/''" cs rule: join_with.induct) auto
  ultimately show ?thesis using assms(1) by (simp add: has_filename_def)
qed

lemma path_append_join:
  assumes "cs \<noteq> []" "list_all plain_component cs" "p \<noteq> []" "hd p \<noteq> CHR ''/''"
  shows "path_append (CHR ''/'' # join_with CHR ''/'' cs) p =
    CHR ''/'' # join_with CHR ''/'' cs @ CHR ''/'' # p"
  using assms has_filename_join [OF assms(1,2)]
  by (cases p) (simp_all add: path_append_def is_absolute_def)

lemma safe_path_stays:
  assumes "archive_safe limit p" "cs \<noteq> []" "list_all plain_component cs"
  shows "lexically_normal (path_append (CHR ''/'' # join_with CHR ''/'' cs) p) =
    CHR ''/'' # join_with CHR ''/'' cs @ CHR ''/'' # p"
proof -
  have parts: "list_all plain_component (split_on CHR ''/'' p)" using assms(1) by (simp add: archive_safe_def)
  note ne = plain_split_nonempty [OF parts]
  have join: "join_with CHR ''/'' (cs @ split_on CHR ''/'' p) =
      join_with CHR ''/'' cs @ CHR ''/'' # p"
    using join_with_append [OF assms(2), of "split_on CHR ''/'' p" "CHR ''/''"] by simp
  have "list_all plain_component (cs @ split_on CHR ''/'' p)" using assms(3) parts by simp
  with lexically_normal_plain [of "cs @ split_on CHR ''/'' p"] assms(2)
  show ?thesis unfolding path_append_join [OF assms(2,3) ne [THEN conjunct1] ne [THEN conjunct2]] join
    by simp
qed

lemma safe_link_stays:
  assumes "t \<noteq> []" "hd t \<noteq> CHR ''/''" "''..'' \<notin> set (split_on CHR ''/'' t)"
    and "cs \<noteq> []" "list_all plain_component cs"
  shows "starts_with (lexically_normal (path_append (CHR ''/'' # join_with CHR ''/'' cs) t))
    (CHR ''/'' # join_with CHR ''/'' cs)"
proof -
  let ?b = "CHR ''/'' # join_with CHR ''/'' cs"
  let ?rest = "filter (\<lambda>c. \<not> skipped_component c) (split_on CHR ''/'' t)"
  have kept: "norm_components True (split_on CHR ''/'' (?b @ CHR ''/'' # t)) = cs @ ?rest"
    unfolding norm_components_append [OF assms(3)] split_absolute_join [OF assms(4,5)]
      norm_components_plain [OF assms(5)] ..
  obtain tail where "lexically_normal (?b @ CHR ''/'' # t) =
      CHR ''/'' # join_with CHR ''/'' (cs @ ?rest) @ tail"
    by (rule lexically_normal_kept [OF _ kept]) (simp_all add: is_absolute_def assms(4))
  moreover have "\<exists>u. join_with CHR ''/'' (cs @ ?rest) = join_with CHR ''/'' cs @ u"
    using join_with_append [OF assms(4), of ?rest] by (cases "?rest = []") auto
  moreover have "path_append ?b t = ?b @ CHR ''/'' # t"
    using path_append_join [OF assms(4,5,1,2)] by simp
  ultimately show ?thesis by (auto simp: starts_with_iff)
qed

section \<open>The entries of a listing\<close>

definition link_safe :: "nat \<Rightarrow> string \<Rightarrow> bool" where
  "link_safe limit t \<longleftrightarrow>
     t \<noteq> [] \<and> length t \<le> limit \<and> hd t \<noteq> CHR ''/'' \<and> ''..'' \<notin> set (split_on CHR ''/'' t)"

definition entry_safe :: "archive_limits \<Rightarrow> archive_entry \<Rightarrow> bool" where
  "entry_safe limits e \<longleftrightarrow>
     archive_safe (max_path_bytes limits) (ae_path e) \<and> ae_mode e AND 0xC00 = 0 \<and>
     (if ae_kind e = KindRegular then ae_link_target e = []
      else link_safe (max_path_bytes limits) (ae_link_target e))"

lemma entry_link_safe:
  "entry_link k t limits e = Inr e' \<Longrightarrow>
     e' = e\<lparr>ae_kind := k, ae_link_target := ae_link_target e'\<rparr> \<and>
     link_safe (max_path_bytes limits) (ae_link_target e')"
proof -
  assume a: "entry_link k t limits e = Inr e'"
  then obtain l where l: "safe_link t (max_path_bytes limits) = Inr l"
    and e': "e' = e\<lparr>ae_kind := k, ae_link_target := l\<rparr>"
    by (auto simp: entry_link_def split: sum.splits)
  from l obtain raw where "t = Some raw" by (cases t) (simp_all add: safe_link_def)
  with l have "link_safe (max_path_bytes limits) l"
    unfolding link_safe_def by (simp add: safe_link_iff)
  with e' show ?thesis by simp
qed

lemma typed_entry_safe:
  assumes "typed_entry raw limits entry = Inr e" "ae_kind entry = KindRegular" "ae_link_target entry = []"
  shows "ae_path e = ae_path entry \<and>
    (if ae_kind e = KindRegular then ae_link_target e = []
     else link_safe (max_path_bytes limits) (ae_link_target e))"
proof -
  have link: "ae_path e = ae_path entry \<and> ae_kind e = k \<and> link_safe (max_path_bytes limits) (ae_link_target e)"
    if "entry_link k t limits entry = Inr e" for k t
  proof -
    from entry_link_safe [OF that] have e: "e = entry\<lparr>ae_kind := k, ae_link_target := ae_link_target e\<rparr>"
      and "link_safe (max_path_bytes limits) (ae_link_target e)" by blast+
    moreover have "ae_path e = ae_path entry" by (subst e) simp
    moreover have "ae_kind e = k" by (subst e) simp
    ultimately show ?thesis by blast
  qed
  show ?thesis
    using assms link unfolding typed_entry_def by (auto split: if_splits)
qed

lemma entry_of_safe:
  assumes "entry_of raw limits = Inr e"
  shows "entry_safe limits e"
proof -
  from assms obtain path where path: "safe_path (raw_pathname raw) (max_path_bytes limits) = Inr path"
    by (auto simp: entry_of_def split: sum.splits)
  then obtain r where "raw_pathname raw = Some r" by (cases "raw_pathname raw") (simp_all add: safe_path_def)
  with path have safe: "archive_safe (max_path_bytes limits) path" by (auto simp: safe_path_iff)
  from assms path obtain entry where typed: "typed_entry raw limits entry = Inr e"
    and entry: "ae_path entry = path" "ae_kind entry = KindRegular" "ae_link_target entry = []"
    and mode: "ae_mode e AND 0xC00 = 0"
    unfolding entry_of_def by (simp split: sum.splits if_splits)
  from typed_entry_safe [OF typed entry(2,3)] entry(1) safe mode show ?thesis
    unfolding entry_safe_def by simp
qed

text \<open>What the loop keeps: the entries so far are safe and bounded in number, and the sizes they
  declare are accounted for in the running total, which stays below the limit.\<close>

definition listing_inv :: "archive_limits \<Rightarrow> archive_entry list \<Rightarrow> 64 word \<Rightarrow> bool" where
  "listing_inv limits es unpacked \<longleftrightarrow>
     length es \<le> max_entries limits \<and> list_all (entry_safe limits) es \<and>
     sum_list (map (\<lambda>e. unat (ae_size e)) es) \<le> unat unpacked \<and>
     unat unpacked \<le> unat (max_unpacked_bytes limits)"

lemma fits_total:
  assumes "fits b t l" "unat t \<le> unat l"
  shows "unat (t + b) = unat t + unat b \<and> unat (t + b) \<le> unat l"
proof (cases "b = 0")
  case False
  from fits_unat [OF assms(1) False] show ?thesis by simp
qed (use assms(2) in simp)

lemma discard_entry_bounds:
  "discard_entry api reader used limit = (ok, used', reader') \<Longrightarrow> unat used \<le> unat limit \<Longrightarrow>
     unat used \<le> unat used' \<and> unat used' \<le> unat limit"
proof (induction api reader used limit rule: discard_entry.induct)
  case (1 api reader used limit)
  obtain count data reader1 where r: "a_read_data api 65536 reader = (count, data, reader1)"
    by (cases "a_read_data api 65536 reader") auto
  show ?case
  proof (cases "count = 0 \<or> sint count < 0 \<or> \<not> fits count used limit")
    case True
    with 1(2,3) r show ?thesis by (subst (asm) discard_entry.simps) (auto split: if_splits)
  next
    case False
    with 1(2) r have "discard_entry api reader1 (used + count) limit = (ok, used', reader')"
      by (subst (asm) discard_entry.simps) simp
    with False 1(1) [OF r [symmetric] refl] fits_total [of count used limit] 1(3)
    show ?thesis by simp
  qed
qed

lemma list_loop_inv:
  "list_loop api limits reader result unpacked = Inr es \<Longrightarrow> listing_inv limits result unpacked \<Longrightarrow>
     \<exists>total_size. listing_inv limits es total_size"
proof (induction api limits reader result unpacked rule: list_loop.induct)
  case (1 api limits reader result unpacked)
  obtain h reader1 where h: "a_next_header api reader = (h, reader1)" by fastforce
  show ?case
  proof (cases h)
    case None
    with 1(2) h have "es = result" by (subst (asm) list_loop.simps) (simp split: option.splits)
    with 1(3) show ?thesis by blast
  next
    case (Some raw)
    let ?max = "max_unpacked_bytes limits"
    from 1(2) h Some have len: "length result < max_entries limits"
      by (subst (asm) list_loop.simps) (simp split: if_splits)
    with 1(2) h Some obtain entry where e: "entry_of raw limits = Inr entry"
      by (subst (asm) list_loop.simps) (simp split: sum.splits)
    with 1(2) h Some len have fit: "fits (ae_size entry) unpacked ?max"
      by (subst (asm) list_loop.simps) (simp split: if_splits)
    obtain kept used reader2 where d:
      "discard_entry api reader1 (unpacked + ae_size entry) ?max = (kept, used, reader2)"
      by (cases "discard_entry api reader1 (unpacked + ae_size entry) ?max") auto
    have kept: kept "list_loop api limits reader2 (result @ [entry]) used = Inr es"
      using 1(2) h Some len e fit d by (subst (asm) list_loop.simps, simp split: if_splits)+
    note tot = fits_total [OF fit]
    have "listing_inv limits (result @ [entry]) used"
      using 1(3) tot discard_entry_bounds [OF d] len entry_of_safe [OF e] by (auto simp: listing_inv_def)
    with kept show ?thesis
      using 1(1) [OF h [symmetric] Some _ e _ d [symmetric] refl] len fit by simp
  qed
qed

section \<open>A reader over a list of entries\<close>

lemma list_archive_inv:
  assumes "list_archive api file_size opened limits = Inr es"
  shows "\<exists>n. listing_inv limits es n"
proof -
  from assms obtain reader where loop: "list_loop api limits reader [] 0 = Inr es"
    by (auto simp: list_archive_def split: sum.splits)
  have "listing_inv limits [] 0" by (simp add: listing_inv_def)
  from list_loop_inv [OF loop this] show ?thesis .
qed

text \<open>An in-memory archive on which the properties are exercised: the entries still to come and
  the data left in the current one.\<close>

type_synonym memory_archive = "(raw_entry \<times> string) list \<times> string"

definition memory_api :: "memory_archive libarchive" where
  "memory_api =
     \<lparr>a_next_header = \<lambda>(es, data). (case es of [] \<Rightarrow> (None, (es, data)) | (raw, d) # es' \<Rightarrow> (Some raw, (es', d))),
      a_read_data = \<lambda>n (es, data). (word_of_nat (length (take n data)), take n data, (es, drop n data)),
      a_error = \<lambda>_. None\<rparr>"

definition file_entry :: "string \<Rightarrow> int \<Rightarrow> raw_entry" where
  "file_entry path n = \<lparr>raw_pathname = Some path, raw_size = Some n, raw_mode = 0x1A4,
     raw_filetype = AE_IFREG, raw_symlink = None, raw_hardlink = None\<rparr>"

lemma scan_data_file: "safe_path (Some ''a/b'') 4096 = Inr ''a/b''"
  by (simp add: safe_path_iff archive_safe_def plain_component_def)

lemma entry_of_file:
  "entry_of (file_entry ''a/b'' 2) (default_limits\<lparr>max_unpacked_bytes := m\<rparr>) =
     Inr \<lparr>ae_path = ''a/b'', ae_kind = KindRegular, ae_link_target = [], ae_size = 2, ae_mode = 0x1A4\<rparr>"
  unfolding entry_of_def
  by (simp add: file_entry_def default_limits_def scan_data_file typed_entry_def)

lemma memory_calls:
  "a_next_header memory_api ([(raw, d)], []) = (Some raw, ([], d))"
  "a_next_header memory_api ([], []) = (None, ([], []))"
  "a_error memory_api r = None"
  "a_read_data memory_api n (es, []) = (0, [], (es, []))"
  "2 \<le> n \<Longrightarrow> a_read_data memory_api n (es, ''hi'') = (2, ''hi'', (es, []))"
  by (simp_all add: memory_api_def)

lemma memory_discard_empty: "discard_entry memory_api (es, []) n limit = (True, n, (es, []))"
  by (subst discard_entry.simps) (simp add: memory_calls)

lemma memory_discard:
  "discard_entry memory_api (es, ''hi'') n limit =
     (if fits 2 n limit then (True, n + 2, (es, [])) else (False, n, (es, [])))"
  by (subst discard_entry.simps) (simp add: memory_calls memory_discard_empty)

lemma memory_open:
  "open_archive (Inr 100) (Opened r) (default_limits\<lparr>max_unpacked_bytes := m\<rparr>) = Inr r"
  "max_path_bytes (default_limits\<lparr>max_unpacked_bytes := m\<rparr>) = 4096"
  by (simp_all add: open_archive_def default_limits_def)

lemma memory_list:
  "list_archive memory_api (Inr 100) (Opened ([(file_entry ''a/b'' 2, ''hi'')], []))
     (default_limits\<lparr>max_unpacked_bytes := 4\<rparr>) =
   Inr [\<lparr>ae_path = ''a/b'', ae_kind = KindRegular, ae_link_target = [], ae_size = 2, ae_mode = 0x1A4\<rparr>]"
proof -
  let ?l = "default_limits\<lparr>max_unpacked_bytes := 4\<rparr>"
  have lim: "max_unpacked_bytes ?l = 4" "max_entries ?l = 100000" by (simp_all add: default_limits_def)
  have fit: "fits 2 0 4" "fits 2 2 4" by (simp_all add: fits_def)
  have fin: "list_loop memory_api ?l ([], []) es u = Inr es" for es u
    by (subst list_loop.simps) (simp add: memory_calls)
  show ?thesis
    unfolding list_archive_def memory_open sum.case
    by (subst list_loop.simps) (simp add: memory_calls entry_of_file memory_discard lim fit fin)
qed

section \<open>An archive file\<close>

text \<open>What libarchive delivers for one opened file, as far as a run reads it: the headers still to come, each
  with the answers to the reads of its data, the answers left for the current entry, and the error at the
  end. A file has finitely many headers.\<close>

type_synonym delivered = "(raw_entry \<times> (64 word \<times> string) list) list \<times> (64 word \<times> string) list \<times> string option"

definition delivered_api :: "delivered libarchive" where
  "delivered_api =
     \<lparr>a_next_header = \<lambda>(headers, chunks, err).
        (case headers of
           [] \<Rightarrow> (None, ([], chunks, err))
         | (raw, chunks') # headers' \<Rightarrow> (Some raw, (headers', chunks', err))),
      a_read_data = \<lambda>n (headers, chunks, err).
        (case chunks of
           [] \<Rightarrow> (0, [], (headers, [], err))
         | (count, data) # chunks' \<Rightarrow> (count, data, (headers, chunks', err))),
      a_error = \<lambda>(headers, chunks, err). err\<rparr>"

record archive_file =
  af_size :: "string + 64 word"
  af_open :: "delivered open_result"

lemma delivered_simps [simp]:
  "a_next_header delivered_api ([], chunks, err) = (None, ([], chunks, err))"
  "a_next_header delivered_api ((raw, chunks') # headers, chunks, err) = (Some raw, (headers, chunks', err))"
  "a_read_data delivered_api n (headers, [], err) = (0, [], (headers, [], err))"
  "a_read_data delivered_api n (headers, (count, data) # chunks, err) = (count, data, (headers, chunks, err))"
  "a_error delivered_api (headers, chunks, err) = err"
  by (simp_all add: delivered_api_def)

lemma discard_delivered:
  "\<exists>kept used' chunks'. discard_entry delivered_api (headers, chunks, err) used limit =
     (kept, used', (headers, chunks', err))"
proof (induction chunks arbitrary: used)
  case Nil
  have "discard_entry delivered_api (headers, [], err) used limit = (True, used, (headers, [], err))"
    by (subst discard_entry.simps) simp
  then show ?case by blast
next
  case (Cons chunk chunks)
  obtain count data where chunk: "chunk = (count, data)" by (cases chunk)
  show ?case
    using Cons [of "used + count"] by (subst discard_entry.simps) (simp add: chunk, blast)
qed

text \<open>Reading out of a file returns.\<close>

lemma read_loop_delivered:
  "\<exists>res. read_loop delivered_api limits wanted max_bytes (headers, chunks, err) = Some res"
proof (induction headers arbitrary: chunks)
  case Nil
  show ?case by (subst read_loop.simps) simp
next
  case (Cons header headers)
  obtain raw chunks' where header: "header = (raw, chunks')" by (cases header)
  obtain kept used chunks'' where discard: "discard_entry delivered_api (headers, chunks', err) 0
      (max_unpacked_bytes limits) = (kept, used, (headers, chunks'', err))"
    using discard_delivered by metis
  show ?case
    using Cons [of chunks'']
    by (subst read_loop.simps) (auto simp: header discard split: sum.splits)
qed

text \<open>\<^verbatim>\<open>read\<close> and \<^verbatim>\<open>list\<close> on a file, with the limits they have by default.\<close>

definition archive_read :: "archive_file \<Rightarrow> string \<Rightarrow> nat \<Rightarrow> string expected" where
  "archive_read f wanted max_bytes =
     (case read_archive delivered_api (af_size f) (af_open f) wanted max_bytes default_limits of
        Some result \<Rightarrow> result | None \<Rightarrow> Inl [])"

definition archive_list :: "archive_file \<Rightarrow> archive_entry list expected" where
  "archive_list f = list_archive delivered_api (af_size f) (af_open f) default_limits"

lemma archive_read_returns:
  "read_archive delivered_api (af_size f) (af_open f) wanted max_bytes default_limits =
     Some (archive_read f wanted max_bytes)"
proof -
  have "\<exists>res. read_loop delivered_api limits wanted' max_bytes reader = Some res" for limits wanted' reader
    using read_loop_delivered by (cases reader) blast
  then have "\<exists>res. read_archive delivered_api (af_size f) (af_open f) wanted max_bytes default_limits = Some res"
    by (auto simp: read_archive_def split: sum.splits)
  then show ?thesis by (auto simp: archive_read_def)
qed

section \<open>Properties\<close>

text \<open>C9. Containment: appending a path the adapter accepts to an absolute directory, other than the root and
  already in normal form, yields after lexical normalisation exactly that directory, a separator and the
  accepted path; and a link target the adapter accepts, taken from such a directory, stays below that
  directory. Lexically, no archive entry can name a place outside the directory it is placed in.\<close>

theorem archive_paths_contained:
  assumes "safe_path raw limit = Inr p" and "safe_link raw_target limit = Inr t"
    and "cs \<noteq> []" and "list_all plain_component cs"
  shows "lexically_normal (path_append (CHR ''/'' # join_with CHR ''/'' cs) p) =
      CHR ''/'' # join_with CHR ''/'' cs @ CHR ''/'' # p \<and>
    starts_with (lexically_normal (path_append (CHR ''/'' # join_with CHR ''/'' cs) t))
      (CHR ''/'' # join_with CHR ''/'' cs) \<and>
    length p \<le> limit \<and> length t \<le> limit"
proof -
  from assms(1) have safe: "archive_safe limit p"
    by (cases raw) (auto simp: safe_path_iff, simp add: safe_path_def)
  from assms(2) have link: "t \<noteq> []" "hd t \<noteq> CHR ''/''" "''..'' \<notin> set (split_on CHR ''/'' t)" "length t \<le> limit"
    by (cases raw_target; simp add: safe_link_iff; simp add: safe_link_def)+
  show ?thesis
    using safe_path_stays [OF safe assms(3,4)] safe_link_stays [OF link(1-3) assms(3,4)] link(4) safe
    unfolding archive_safe_def by blast
qed

theorem archive_paths_contained_witness:
  "lexically_normal (path_append ''/var/tmp'' ''a/b'') = ''/var/tmp/a/b'' \<and>
   starts_with (lexically_normal (path_append ''/var/tmp'' ''./b'')) ''/var/tmp''"
proof -
  have "safe_link (Some ''./b'') 4096 = Inr ''./b''" by (simp add: safe_link_iff)
  moreover have "list_all plain_component [''var'', ''tmp'']" by (simp add: plain_component_def)
  ultimately show ?thesis
    using archive_paths_contained [OF scan_data_file, of "Some ''./b''" "''./b''" "[''var'', ''tmp'']"] by simp
qed

text \<open>C38. Whatever libarchive delivers, a listing that succeeds has at most the permitted number
  of entries, their declared sizes add up to at most the unpacked limit without wrapping around,
  and every entry has a safe path, no set-user-id or set-group-id bit and, if it is a link, a
  target without dot-dot components.\<close>

theorem list_archive_bounded:
  assumes "list_archive api file_size opened limits = Inr es"
  shows "length es \<le> max_entries limits \<and>
    sum_list (map (\<lambda>e. unat (ae_size e)) es) \<le> unat (max_unpacked_bytes limits) \<and>
    list_all (entry_safe limits) es"
  using list_archive_inv [OF assms] by (auto simp: listing_inv_def)

theorem list_archive_bounded_witness:
  "sum_list (map (\<lambda>e. unat (ae_size e))
     [\<lparr>ae_path = ''a/b'', ae_kind = KindRegular, ae_link_target = [], ae_size = 2, ae_mode = 0x1A4\<rparr>]) \<le> 4"
  using list_archive_bounded [OF memory_list] by simp

lemma read_data_length: "read_data api reader buf offset = Inr s \<Longrightarrow> length s = length buf"
proof (induction api reader buf offset rule: read_data.induct)
  case (1 api reader buf offset)
  obtain count data reader' where r: "a_read_data api (length buf - offset) reader = (count, data, reader')"
    by (cases "a_read_data api (length buf - offset) reader") auto
  from 1 r show ?case
    by (cases "offset < length buf \<and> \<not> sint count \<le> 0")
      (subst (asm) read_data.simps, auto split: if_splits)+
qed

lemma read_loop_length:
  "read_loop api limits wanted max_bytes reader = Some res \<Longrightarrow> \<forall>s. res = Inr s \<longrightarrow> length s \<le> max_bytes"
proof (rule read_loop.raw_induct [where P = "\<lambda>api limits wanted max_bytes reader res. \<forall>s. res = Inr s \<longrightarrow> length s \<le> max_bytes"])
  fix loop :: "'a libarchive \<Rightarrow> archive_limits \<Rightarrow> string \<Rightarrow> nat \<Rightarrow> 'a \<Rightarrow> string expected option"
    and api limits wanted and max_bytes :: nat and reader res
  assume IH: "\<And>api limits wanted max_bytes reader y. loop api limits wanted max_bytes reader = Some y \<Longrightarrow>
      \<forall>s. y = Inr s \<longrightarrow> length s \<le> max_bytes"
  assume body: "(case a_next_header api reader of
        (None, _) \<Rightarrow> Some (Inl (''archive entry not found: '' @ wanted))
      | (Some raw, reader') \<Rightarrow>
          (case entry_of raw limits of
             Inl err \<Rightarrow> Some (Inl err)
           | Inr entry \<Rightarrow>
               if ae_path entry \<noteq> wanted then
                 (case discard_entry api reader' 0 (max_unpacked_bytes limits) of
                    (kept, _, reader'') \<Rightarrow>
                      if kept then loop api limits wanted max_bytes reader''
                      else Some (Inl ''archive entry read failed''))
               else if ae_kind entry \<noteq> KindRegular \<or> max_bytes < unat (ae_size entry) then
                 Some (Inl ''archive entry is not bounded regular data'')
               else Some (read_data api reader' (replicate (unat (ae_size entry)) zero_byte) 0))) = Some res"
  show "\<forall>s. res = Inr s \<longrightarrow> length s \<le> max_bytes"
    using body IH read_data_length
    by (fastforce split: prod.splits option.splits sum.splits if_splits)
qed

lemma archive_read_length: "archive_read f wanted max_bytes = Inr s \<Longrightarrow> length s \<le> max_bytes"
  using archive_read_returns [of f wanted max_bytes] read_loop_length [where res = "Inr s"]
  by (auto simp: read_archive_def split: sum.splits)

text \<open>A file read out of an archive is never longer than the caller's bound, whatever the
  archive contains; a name that is not a safe path is refused before the archive is opened.\<close>

theorem read_archive_bounded:
  assumes "read_archive api file_size opened wanted max_bytes limits = Some (Inr s)"
  shows "length s \<le> max_bytes \<and>
    archive_safe (max_path_bytes limits) (strip_dot_slash (c_str wanted))"
proof -
  from assms obtain safe reader where safe: "safe_path (Some (c_str wanted)) (max_path_bytes limits) = Inr safe"
    and "read_loop api limits safe max_bytes reader = Some (Inr s)"
    by (auto simp: read_archive_def split: sum.splits)
  with read_loop_length [OF this(2)] show ?thesis by (auto simp: safe_path_iff)
qed

theorem read_archive_bounded_witness:
  "read_archive memory_api (Inr 100) (Opened ([(file_entry ''a/b'' 2, ''hi'')], [])) ''./a/b'' 10
     (default_limits\<lparr>max_unpacked_bytes := 4\<rparr>) = Some (Inr ''hi'') \<and> length ''hi'' \<le> 10"
proof -
  have buf: "read_data memory_api r ''hi'' (Suc (Suc 0)) = Inr ''hi''" for r
    by (subst read_data.simps) simp
  have two: "replicate 2 zero_byte = [zero_byte, zero_byte]" by (simp add: numeral_2_eq_2)
  have data: "read_data memory_api ([], ''hi'') (replicate 2 zero_byte) 0 = Inr ''hi''"
    unfolding two by (subst read_data.simps) (simp add: memory_calls write_at_def buf)
  have path: "safe_path (Some (c_str ''./a/b'')) 4096 = Inr ''a/b''"
    by (simp add: safe_path_iff c_str_def archive_safe_def plain_component_def)
  have eq: "read_archive memory_api (Inr 100) (Opened ([(file_entry ''a/b'' 2, ''hi'')], [])) ''./a/b'' 10
     (default_limits\<lparr>max_unpacked_bytes := 4\<rparr>) = Some (Inr ''hi'')"
    unfolding read_archive_def memory_open path sum.case
    by (subst read_loop.simps) (simp add: memory_calls entry_of_file data)
  from eq read_archive_bounded [OF eq] show ?thesis by blast
qed

text \<open>The unpacked limit is charged twice for every file, once for the declared size and once
  for the data read past: an archive whose only file has two bytes is listed under a limit of
  four bytes but rejected under a limit of three.\<close>

theorem list_archive_charges_twice:
  "list_archive memory_api (Inr 100) (Opened ([(file_entry ''a/b'' 2, ''hi'')], []))
     (default_limits\<lparr>max_unpacked_bytes := 3\<rparr>) = Inl ''archive unpacked-size limit exceeded'' \<and>
   list_archive memory_api (Inr 100) (Opened ([(file_entry ''a/b'' 2, ''hi'')], []))
     (default_limits\<lparr>max_unpacked_bytes := 4\<rparr>) =
   Inr [\<lparr>ae_path = ''a/b'', ae_kind = KindRegular, ae_link_target = [], ae_size = 2, ae_mode = 0x1A4\<rparr>]"
proof
  let ?l = "default_limits\<lparr>max_unpacked_bytes := 3\<rparr>"
  have lim: "max_unpacked_bytes ?l = 3" "max_entries ?l = 100000" by (simp_all add: default_limits_def)
  have fit: "fits 2 0 3" "\<not> fits 2 2 3" by (simp_all add: fits_def word_le_nat_alt)
  show "list_archive memory_api (Inr 100) (Opened ([(file_entry ''a/b'' 2, ''hi'')], [])) ?l =
      Inl ''archive unpacked-size limit exceeded''"
    unfolding list_archive_def memory_open sum.case
    by (subst list_loop.simps) (simp add: memory_calls entry_of_file memory_discard lim fit)
qed (rule memory_list)

section \<open>The reader object\<close>

text \<open>\<^verbatim>\<open>Reader\<close> owns a \<^verbatim>\<open>struct archive\<close>; its value is the pointer, \<^term>\<open>None\<close> the null pointer. The list is
  what is passed to \<^verbatim>\<open>archive_read_free\<close>.\<close>

definition reader_destroy :: "nat option \<Rightarrow> nat option list" where
  "reader_destroy pointer = (if pointer \<noteq> None then [pointer] else [])"

definition reader_move :: "nat option \<Rightarrow> nat option \<times> nat option" where
  "reader_move other = (other, None)"

definition reader_assign :: "nat option \<Rightarrow> nat option \<Rightarrow> nat option list \<times> nat option \<times> nat option" where
  "reader_assign pointer other = (if pointer \<noteq> None then [pointer] else [], other, None)"

definition archive_reader :: "nat option handle_class" where
  "archive_reader = \<lparr>hc_live = \<lambda>p. p \<noteq> None, hc_blank = None, hc_destroy = reader_destroy,
     hc_move = reader_move, hc_assign = reader_assign\<rparr>"

interpretation reader: owning_handle archive_reader
  by unfold_locales (simp_all add: archive_reader_def reader_destroy_def reader_move_def reader_assign_def)

text \<open>Archives are freed once: whatever a program does with readers, none is freed that is not open, and
  the open ones are those some reader or the program holds.\<close>

lemma archives_freed_once:
  assumes "(handle_step archive_reader)\<^sup>*\<^sup>* empty_world w"
  shows "hw_bad w = []" "hw_open w = hw_raw w \<union> {p. \<exists>h. handle_owns (hc_live archive_reader) w h p}"
  by (rule reader.run_resources [OF assms])+

end
