(* ===== verification/Package_Inspect.thy ===== *)
theory Package_Inspect
  imports Archive_Adapter Sandbox
begin

text \<open>
  The inspection of a package file (\<^verbatim>\<open>src/package/package.cpp\<close>, the helpers and
  \<^verbatim>\<open>inspect\<close>): reading \<^verbatim>\<open>.PKGINFO\<close>, classifying the archive's entries and verifying the
  detached signature in a sandbox, together with the JSON and fingerprint helpers.

  The archive is read and listed by \<open>Archive_Adapter\<close>; the answers of the file system, of libarchive
  and of the sandboxed runs (\<open>Sandbox\<close>) are the fields of \<open>inspect_env\<close>. What a sandboxed run answers
  depends on its whole command, its configuration and its time limit.
\<close>

section \<open>Options, metadata, result\<close>

record package_options =
  po_privileged :: bool
  po_run_all :: bool
  po_byte_diff :: bool
  po_confirm_privileged :: bool
  po_workers :: nat
  po_timeout :: "64 word"
  po_format :: string
  po_network :: string
  po_mirrors :: "string list"
  po_allowed_hosts :: "string list"
  po_rootfs :: string
  po_session_root :: string
  po_database :: string
  po_cgroup_root :: string
  po_build_repetitions :: nat

definition default_package_options :: package_options where
  "default_package_options =
     \<lparr>po_privileged = False, po_run_all = False, po_byte_diff = False, po_confirm_privileged = False,
      po_workers = 4, po_timeout = 30, po_format = ''terminal'', po_network = ''off'',
      po_mirrors = [], po_allowed_hosts = [], po_rootfs = [],
      po_session_root = ''/tmp/execell-package'',
      po_database = ''/tmp/execell-package/observations.db'', po_cgroup_root = [],
      po_build_repetitions = 1\<rparr>"

record package_metadata =
  pm_package :: string
  pm_name :: string
  pm_version :: string
  pm_architecture :: string
  pm_dependencies :: "string list"
  pm_files :: "string list"
  pm_scripts :: "string list"
  pm_hooks :: "string list"
  pm_executables :: "string list"
  pm_executable_fingerprints :: "string list"
  pm_signature :: string

record package_result =
  pr_ok :: bool
  pr_error :: string
  pr_metadata :: package_metadata
  pr_created :: "string list"
  pr_modified :: "string list"
  pr_deleted :: "string list"
  pr_mode_changed :: "string list"
  pr_ownership_changed :: "string list"
  pr_hash_changed :: "string list"
  pr_risk_factors :: "string list"
  pr_risk_score :: int
  pr_verdict :: string
  pr_risk_level :: string
  pr_risk_action :: string
  pr_session :: string
  pr_installed :: bool
  pr_report_data :: string
  pr_baseline :: bool
  pr_smoke_scans :: "string list"
  pr_process_events :: "string list"
  pr_network_events :: "string list"
  pr_events :: "string list"
  pr_coverage :: "string list"
  pr_coverage_confidence :: int

definition empty_metadata :: package_metadata where
  "empty_metadata =
     \<lparr>pm_package = [], pm_name = [], pm_version = [], pm_architecture = [], pm_dependencies = [],
      pm_files = [], pm_scripts = [], pm_hooks = [], pm_executables = [],
      pm_executable_fingerprints = [], pm_signature = []\<rparr>"

definition empty_result :: package_result where
  "empty_result =
     \<lparr>pr_ok = False, pr_error = [], pr_metadata = empty_metadata, pr_created = [], pr_modified = [],
      pr_deleted = [], pr_mode_changed = [], pr_ownership_changed = [], pr_hash_changed = [],
      pr_risk_factors = [], pr_risk_score = 0, pr_verdict = ''reject'', pr_risk_level = ''none'',
      pr_risk_action = ''reject'', pr_session = [], pr_installed = False, pr_report_data = [],
      pr_baseline = False, pr_smoke_scans = [], pr_process_events = [], pr_network_events = [],
      pr_events = [], pr_coverage = [], pr_coverage_confidence = 0\<rparr>"

section \<open>Text helpers\<close>

abbreviation (input) line_feed :: char where "line_feed \<equiv> CHR 0x0A"

text \<open>\<^verbatim>\<open>text.substr(begin, ...)\<close> up to the next line feed.\<close>

definition rest_of_line :: "string \<Rightarrow> nat \<Rightarrow> string" where
  "rest_of_line text begin =
     substr text begin
       (case find_if_from (\<lambda>c. c = line_feed) text begin of
          None \<Rightarrow> length text - begin | Some e \<Rightarrow> e - begin)"

definition pkginfo_value :: "string \<Rightarrow> string \<Rightarrow> string" where
  "pkginfo_value text key =
     (let prefix = key @ '' = ''
      in case find_str prefix text of
           None \<Rightarrow> []
         | Some start \<Rightarrow> rest_of_line text (start + length prefix))"

function pkginfo_values_from :: "string \<Rightarrow> string \<Rightarrow> nat \<Rightarrow> string list" where
  "pkginfo_values_from text key pos =
     (let prefix = key @ '' = ''
      in case find_str_from prefix text pos of
           None \<Rightarrow> []
         | Some p \<Rightarrow>
             rest_of_line text (p + length prefix) #
             pkginfo_values_from text key (p + length prefix))"
  by pat_completeness auto
termination
  by (relation "measure (\<lambda>(text, key, pos). length text + 1 - pos)")
    (auto simp: find_str_from_def dest!: find_str_Some split: if_splits)

declare pkginfo_values_from.simps [simp del]

definition pkginfo_values :: "string \<Rightarrow> string \<Rightarrow> string list" where
  "pkginfo_values text key = pkginfo_values_from text key 0"

definition json_escape_char :: "char \<Rightarrow> string" where
  "json_escape_char c =
     (let pre = (if c = dquote \<or> c = backslash then [backslash] else [])
      in if c = CHR 0x0A then pre @ [backslash, CHR ''n'']
         else if c = CHR 0x0D then pre @ [backslash, CHR ''r'']
         else if c = CHR 0x09 then pre @ [backslash, CHR ''t'']
         else pre @ [c])"

definition json_escape :: "string \<Rightarrow> string" where
  "json_escape s = concat (map json_escape_char s)"

definition quoted :: "string \<Rightarrow> string" where
  "quoted s = quote @ json_escape s @ quote"

definition json_array :: "string list \<Rightarrow> string" where
  "json_array values = ''['' @ join_with CHR '','' (map quoted values) @ '']''"

definition json_object_array :: "string list \<Rightarrow> string" where
  "json_object_array values = ''['' @ join_with CHR '','' values @ '']''"

section \<open>Fingerprints\<close>

abbreviation (input) fnv_offset :: "64 word" where "fnv_offset \<equiv> 1469598103934665603"
abbreviation (input) fnv_prime :: "64 word" where "fnv_prime \<equiv> 1099511628211"

definition fnv_step :: "64 word \<Rightarrow> char \<Rightarrow> 64 word" where
  "fnv_step hash c = (hash XOR word_of_nat (of_char c)) * fnv_prime"

definition fingerprint :: "string \<Rightarrow> string" where
  "fingerprint value = dec_word (foldl fnv_step fnv_offset value)"

text \<open>The read loop over blocks of 8192 bytes; a file that cannot be opened is \<^term>\<open>None\<close>.\<close>

function hash_blocks :: "64 word \<Rightarrow> string \<Rightarrow> 64 word" where
  "hash_blocks hash data =
     (let block = take 8192 data
      in if block = [] then hash
         else hash_blocks (foldl fnv_step hash block) (drop 8192 data))"
  by pat_completeness auto
termination
  by (relation "measure (\<lambda>(hash, data). length data)") auto

declare hash_blocks.simps [simp del]

definition file_fingerprint :: "string option \<Rightarrow> string" where
  "file_fingerprint content =
     (case content of None \<Rightarrow> [] | Some data \<Rightarrow> dec_word (hash_blocks fnv_offset data))"

section \<open>Inspection\<close>

definition package_name :: "string \<Rightarrow> bool" where
  "package_name path \<longleftrightarrow>
     ends_with path ''.pkg.tar.zst'' \<or> ends_with path ''.pkg.tar.xz'' \<or>
     ends_with path ''.pkg.tar.gz'' \<or> ends_with path ''.pkg.tar.bz2'' \<or>
     ends_with path ''.pkg.tar.lrz'' \<or> ends_with path ''.pkg.tar.lzo'' \<or>
     ends_with path ''.pkg.tar.lz4'' \<or> ends_with path ''.pkg.tar.lz''"

definition is_script :: "string \<Rightarrow> bool" where
  "is_script path \<longleftrightarrow> path = ''.INSTALL'' \<or> ends_with path ''/.INSTALL''"

definition is_hook :: "string \<Rightarrow> bool" where
  "is_hook path \<longleftrightarrow> ends_with path ''.hook'' \<or> contains_str path ''/hooks/''"

definition note_entry :: "archive_entry \<Rightarrow> package_metadata \<Rightarrow> package_metadata" where
  "note_entry e m =
     (let path = ae_path e;
          m1 = m\<lparr>pm_files := pm_files m @ [path]\<rparr>;
          m2 = (if is_script path then m1\<lparr>pm_scripts := pm_scripts m1 @ [path]\<rparr> else m1)
      in if is_hook path then m2\<lparr>pm_hooks := pm_hooks m2 @ [path]\<rparr> else m2)"

definition verify_config :: "package_options \<Rightarrow> sandbox_config" where
  "verify_config options =
     default_config\<lparr>user_namespace := True, mount_namespace := True, network_namespace := True,
       read_only_root := True, clean_environment := True, cpu_seconds := po_timeout options,
       sc_max_processes := 32, max_file_bytes := 16 * 1024 * 1024,
       seccomp_allowlist := default_package_syscalls\<rparr>"

text \<open>What the file system answers for a path, what libarchive delivers when the package is opened to read its
  metadata and again to list it, and the captured run of a command.\<close>

record inspect_env =
  ie_regular :: "string \<Rightarrow> bool"
  ie_symlink :: "string \<Rightarrow> bool"
  ie_exists :: "string \<Rightarrow> bool"
  ie_access :: "string \<Rightarrow> bool"
  ie_info_file :: archive_file
  ie_list_file :: archive_file
  ie_run :: "string list \<Rightarrow> sandbox_config \<Rightarrow> 64 word \<Rightarrow> captured"

definition with_error :: "string \<Rightarrow> package_result \<Rightarrow> package_result" where
  "with_error err result = result\<lparr>pr_error := err\<rparr>"

definition verify_keyring :: "inspect_env \<Rightarrow> string" where
  "verify_keyring env =
     (if ie_exists env ''/etc/pacman.d/gnupg/pubring.gpg'' then ''/etc/pacman.d/gnupg/pubring.gpg''
      else ''/etc/pacman.d/gnupg/pubring.kbx'')"

text \<open>From the signature file on.\<close>

definition verify_signature ::
  "inspect_env \<Rightarrow> string \<Rightarrow> package_options \<Rightarrow> package_result \<Rightarrow> package_result" where
  "verify_signature env package options result =
     (let sig = package @ ''.sig''
      in if \<not> ie_exists env sig \<or> ie_symlink env sig
         then with_error ''signature verification failed: detached signature missing'' result
         else if \<not> ie_access env ''/usr/bin/gpgv''
         then with_error ''signature verification unavailable: gpgv missing'' result
         else
           (let keyring = verify_keyring env
            in if \<not> ie_exists env keyring
               then with_error ''signature verification unavailable: Arch keyring missing'' result
               else
                 (let verify = ie_run env [''/usr/bin/gpgv'', ''--keyring'', keyring, sig, package]
                                 (verify_config options) (po_timeout options)
                  in if cap_timed_out verify \<or> cap_status verify \<noteq> 0 then
                       with_error (if cap_timed_out verify then ''signature verification timed out''
                                   else ''signature verification failed'') result
                     else result\<lparr>pr_metadata := (pr_metadata result)\<lparr>pm_signature := ''valid''\<rparr>,
                                 pr_ok := True\<rparr>)))"

definition identify :: "string \<Rightarrow> string \<Rightarrow> package_metadata" where
  "identify package info =
     empty_metadata\<lparr>pm_package := package, pm_name := pkginfo_value info ''pkgname'',
       pm_version := pkginfo_value info ''pkgver'', pm_architecture := pkginfo_value info ''arch'',
       pm_dependencies := pkginfo_values info ''depend''\<rparr>"

text \<open>From the identity checks on.\<close>

definition inspect_identified ::
  "inspect_env \<Rightarrow> string \<Rightarrow> package_options \<Rightarrow> package_metadata \<Rightarrow> package_result" where
  "inspect_identified env package options m =
     (let r = empty_result\<lparr>pr_metadata := m\<rparr>
      in if pm_name m = [] \<or> pm_version m = [] \<or> pm_architecture m = [] then
           with_error ''package metadata missing required identity fields'' r
         else if pm_architecture m \<noteq> ''x86_64'' \<and> pm_architecture m \<noteq> ''any'' then
           with_error (''unsupported architecture: '' @ pm_architecture m) r
         else (case archive_list (ie_list_file env) of
                 Inl err \<Rightarrow> with_error err r
               | Inr listing \<Rightarrow>
                   verify_signature env package options
                     (empty_result\<lparr>pr_metadata := fold note_entry listing m\<rparr>)))"

definition inspect :: "inspect_env \<Rightarrow> string \<Rightarrow> package_options \<Rightarrow> package_result" where
  "inspect env package options =
     (let r0 = empty_result\<lparr>pr_metadata := empty_metadata\<lparr>pm_package := package\<rparr>\<rparr>
      in if \<not> package_name (path_filename package) then
           with_error ''unsupported package: expected .pkg.tar.*'' r0
         else if \<not> ie_regular env package \<or> ie_symlink env package
         then with_error ''package does not exist'' r0
         else (case archive_read (ie_info_file env) ''.PKGINFO'' (2 ^ 20) of
                 Inl err \<Rightarrow> with_error err r0
               | Inr info \<Rightarrow> inspect_identified env package options (identify package info)))"

section \<open>Properties\<close>

lemma hash_blocks_foldl: "hash_blocks h data = foldl fnv_step h data"
proof (induction h data rule: hash_blocks.induct)
  case (1 h data)
  have app: "foldl fnv_step h data = foldl fnv_step (foldl fnv_step h (take 8192 data)) (drop 8192 data)"
    by (metis append_take_drop_id foldl_append)
  show ?case
  proof (cases "data = []")
    case True
    then show ?thesis by (subst hash_blocks.simps) simp
  next
    case False
    then have "take 8192 data \<noteq> []" by simp
    with 1 app show ?thesis by (subst hash_blocks.simps) (simp add: Let_def)
  qed
qed

text \<open>The fingerprint of a file, computed block by block, is the fingerprint of its content as
  one string, for contents of every length; so fingerprints of files, of archive members and of
  JSON texts are comparable.\<close>

theorem file_fingerprint_is_fingerprint:
  "file_fingerprint (Some data) = fingerprint data"
  by (simp add: file_fingerprint_def fingerprint_def hash_blocks_foldl)

lemma fold_note_entry:
  "fold note_entry es m =
     m\<lparr>pm_files := pm_files m @ map ae_path es,
       pm_scripts := pm_scripts m @ filter is_script (map ae_path es),
       pm_hooks := pm_hooks m @ filter is_hook (map ae_path es)\<rparr>"
  by (induction es arbitrary: m) (simp_all add: note_entry_def Let_def)

lemma verify_signature_ok:
  assumes "pr_ok (verify_signature env package options r)" "\<not> pr_ok r"
  shows "ie_exists env (package @ ''.sig'')" "\<not> ie_symlink env (package @ ''.sig'')"
    "ie_access env ''/usr/bin/gpgv''" "ie_exists env (verify_keyring env)"
    "cap_status (ie_run env [''/usr/bin/gpgv'', ''--keyring'', verify_keyring env, package @ ''.sig'', package]
       (verify_config options) (po_timeout options)) = 0"
    "\<not> cap_timed_out (ie_run env [''/usr/bin/gpgv'', ''--keyring'', verify_keyring env, package @ ''.sig'', package]
       (verify_config options) (po_timeout options))"
    "verify_signature env package options r =
       r\<lparr>pr_metadata := (pr_metadata r)\<lparr>pm_signature := ''valid''\<rparr>, pr_ok := True\<rparr>"
  using assms by (auto simp: verify_signature_def with_error_def Let_def split: if_splits)

lemma inspect_ok_stages:
  assumes "pr_ok (inspect env package options)"
  shows "package_name (path_filename package)" "ie_regular env package" "\<not> ie_symlink env package"
    "\<exists>info es. archive_read (ie_info_file env) ''.PKGINFO'' (2 ^ 20) = Inr info \<and>
       archive_list (ie_list_file env) = Inr es \<and>
       pm_name (identify package info) \<noteq> [] \<and> pm_version (identify package info) \<noteq> [] \<and>
       pm_architecture (identify package info) \<in> {''x86_64'', ''any''} \<and>
       inspect env package options = verify_signature env package options
         (empty_result\<lparr>pr_metadata := fold note_entry es (identify package info)\<rparr>)"
proof -
  have bad: "\<not> pr_ok (with_error e r)" if "\<not> pr_ok r" for e r
    using that by (simp add: with_error_def)
  have r0: "\<not> pr_ok empty_result" by (simp add: empty_result_def)
  from assms show names: "package_name (path_filename package)" "ie_regular env package" "\<not> ie_symlink env package"
    using bad r0 by (auto simp: inspect_def Let_def split: if_splits)
  with assms obtain info where info: "archive_read (ie_info_file env) ''.PKGINFO'' (2 ^ 20) = Inr info"
    using bad r0 by (auto simp: inspect_def Let_def split: sum.splits)
  define m where "m = identify package info"
  have ins: "inspect env package options = inspect_identified env package options m"
    unfolding inspect_def Let_def m_def using names info by simp
  have fields: "pm_name m \<noteq> []" "pm_version m \<noteq> []" "pm_architecture m = ''x86_64'' \<or> pm_architecture m = ''any''"
    using assms bad r0 unfolding ins inspect_identified_def Let_def by (auto split: if_splits)
  then have ins2: "inspect env package options = (case archive_list (ie_list_file env) of
               Inl err \<Rightarrow> with_error err (empty_result\<lparr>pr_metadata := m\<rparr>)
             | Inr listing \<Rightarrow> verify_signature env package options
                 (empty_result\<lparr>pr_metadata := fold note_entry listing m\<rparr>))"
    unfolding ins inspect_identified_def Let_def by auto
  with assms obtain es where "archive_list (ie_list_file env) = Inr es"
    using bad r0 by (auto split: sum.splits)
  with ins2 info fields show "\<exists>info es. archive_read (ie_info_file env) ''.PKGINFO'' (2 ^ 20) = Inr info \<and>
       archive_list (ie_list_file env) = Inr es \<and>
       pm_name (identify package info) \<noteq> [] \<and> pm_version (identify package info) \<noteq> [] \<and>
       pm_architecture (identify package info) \<in> {''x86_64'', ''any''} \<and>
       inspect env package options = verify_signature env package options
         (empty_result\<lparr>pr_metadata := fold note_entry es (identify package info)\<rparr>)"
    unfolding m_def by auto
qed

text \<open>C16. A package passes inspection only if every check has passed: it has a package file name, is a
  regular file and no symbolic link; \<^verbatim>\<open>gpgv\<close>, run to the end in the verification sandbox within the time
  limit, exited with status zero on the detached signature beside the package, which is no symbolic link,
  and on the package itself, with an Arch keyring that exists; the metadata, at most a megabyte of
  \<^verbatim>\<open>.PKGINFO\<close> read from the archive, name it, its version and a supported architecture; and the recorded
  files, scripts and hooks are exactly those of the listing of the archive, which has at most 100000
  entries of at most a gigabyte together, each with a safe path.\<close>

theorem inspect_ok_means_verified:
  assumes "pr_ok (inspect env package options)"
  shows "package_name (path_filename package) \<and> ie_regular env package \<and> \<not> ie_symlink env package \<and>
    ie_exists env (package @ ''.sig'') \<and> \<not> ie_symlink env (package @ ''.sig'') \<and>
    ie_access env ''/usr/bin/gpgv'' \<and>
    (\<exists>keyring verify. keyring \<in> {''/etc/pacman.d/gnupg/pubring.gpg'', ''/etc/pacman.d/gnupg/pubring.kbx''} \<and>
       ie_exists env keyring \<and>
       verify = ie_run env [''/usr/bin/gpgv'', ''--keyring'', keyring, package @ ''.sig'', package]
         (verify_config options) (po_timeout options) \<and>
       cap_status verify = 0 \<and> \<not> cap_timed_out verify) \<and>
    (\<exists>info es m. archive_read (ie_info_file env) ''.PKGINFO'' (2 ^ 20) = Inr info \<and> length info \<le> 2 ^ 20 \<and>
       archive_list (ie_list_file env) = Inr es \<and> length es \<le> 100000 \<and>
       sum_list (map (\<lambda>e. unat (ae_size e)) es) \<le> 2 ^ 30 \<and> list_all (entry_safe default_limits) es \<and>
       m = pr_metadata (inspect env package options) \<and>
       pm_name m = pkginfo_value info ''pkgname'' \<and> pm_name m \<noteq> [] \<and>
       pm_version m = pkginfo_value info ''pkgver'' \<and> pm_version m \<noteq> [] \<and>
       pm_architecture m = pkginfo_value info ''arch'' \<and> pm_architecture m \<in> {''x86_64'', ''any''} \<and>
       pm_files m = map ae_path es \<and> pm_scripts m = filter is_script (map ae_path es) \<and>
       pm_hooks m = filter is_hook (map ae_path es) \<and> pm_signature m = ''valid'')"
proof -
  note stages = inspect_ok_stages [OF assms]
  from stages(4) obtain info es where
    info: "archive_read (ie_info_file env) ''.PKGINFO'' (2 ^ 20) = Inr info"
    and es: "archive_list (ie_list_file env) = Inr es"
    and ident: "pm_name (identify package info) \<noteq> []" "pm_version (identify package info) \<noteq> []"
      "pm_architecture (identify package info) \<in> {''x86_64'', ''any''}"
    and ins: "inspect env package options = verify_signature env package options
         (empty_result\<lparr>pr_metadata := fold note_entry es (identify package info)\<rparr>)" by blast
  have "\<not> pr_ok (empty_result\<lparr>pr_metadata := fold note_entry es (identify package info)\<rparr>)"
    by (simp add: empty_result_def)
  note sig = verify_signature_ok [OF assms [unfolded ins] this]
  have meta: "pr_metadata (inspect env package options) =
      (fold note_entry es (identify package info))\<lparr>pm_signature := ''valid''\<rparr>"
    unfolding ins sig(7) by simp
  have len: "length info \<le> 2 ^ 20"
    using archive_read_length [OF info] .
  from list_archive_inv [OF es [unfolded archive_list_def]] have
    bounds: "length es \<le> 100000" "sum_list (map (\<lambda>e. unat (ae_size e)) es) \<le> 2 ^ 30"
      "list_all (entry_safe default_limits) es"
    by (auto simp: listing_inv_def default_limits_def)
  have key: "verify_keyring env \<in> {''/etc/pacman.d/gnupg/pubring.gpg'', ''/etc/pacman.d/gnupg/pubring.kbx''}"
    by (simp add: verify_keyring_def)
  have fields: "pm_files (identify package info) = []" "pm_scripts (identify package info) = []"
    "pm_hooks (identify package info) = []" by (simp_all add: identify_def empty_metadata_def)
  have "\<exists>keyring verify. keyring \<in> {''/etc/pacman.d/gnupg/pubring.gpg'', ''/etc/pacman.d/gnupg/pubring.kbx''} \<and>
       ie_exists env keyring \<and>
       verify = ie_run env [''/usr/bin/gpgv'', ''--keyring'', keyring, package @ ''.sig'', package]
         (verify_config options) (po_timeout options) \<and>
       cap_status verify = 0 \<and> \<not> cap_timed_out verify"
    using key sig(4-6) by blast
  moreover have "\<exists>m. m = pr_metadata (inspect env package options) \<and>
       pm_name m = pkginfo_value info ''pkgname'' \<and> pm_name m \<noteq> [] \<and>
       pm_version m = pkginfo_value info ''pkgver'' \<and> pm_version m \<noteq> [] \<and>
       pm_architecture m = pkginfo_value info ''arch'' \<and> pm_architecture m \<in> {''x86_64'', ''any''} \<and>
       pm_files m = map ae_path es \<and> pm_scripts m = filter is_script (map ae_path es) \<and>
       pm_hooks m = filter is_hook (map ae_path es) \<and> pm_signature m = ''valid''"
    using ident fields unfolding meta fold_note_entry by (simp add: identify_def)
  ultimately show ?thesis using stages(1-3) sig(1-3) info len es bounds by blast
qed

text \<open>Inspection fills in the metadata, the error and the verdict, and nothing else.\<close>

lemma inspect_fresh:
  "pr_created (inspect env package options) = []" "pr_mode_changed (inspect env package options) = []"
  "pr_ownership_changed (inspect env package options) = []" "pr_hash_changed (inspect env package options) = []"
  "pr_risk_score (inspect env package options) = 0" "pr_coverage_confidence (inspect env package options) = 0"
  "pr_network_events (inspect env package options) = []" "\<not> pr_installed (inspect env package options)"
  by (simp_all add: inspect_def inspect_identified_def verify_signature_def with_error_def empty_result_def
      Let_def split: sum.split)

definition sample_info :: string where
  "sample_info = ''pkgname = hello'' @ newline @ ''pkgver = 1-1'' @ newline @ ''arch = any'' @ newline"

definition info_entry :: raw_entry where
  "info_entry = file_entry ''.PKGINFO'' 40"

definition sample_info_file :: archive_file where
  "sample_info_file = \<lparr>af_size = Inr 100, af_open = Opened ([(info_entry, [(40, sample_info)])], [], None)\<rparr>"

definition sample_list_file :: archive_file where
  "sample_list_file = \<lparr>af_size = Inr 100, af_open = Opened ([(file_entry ''.INSTALL'' 3, [])], [], None)\<rparr>"

definition sample_env :: inspect_env where
  "sample_env = \<lparr>ie_regular = \<lambda>_. True, ie_symlink = \<lambda>_. False, ie_exists = \<lambda>_. True, ie_access = \<lambda>_. True,
     ie_info_file = sample_info_file, ie_list_file = sample_list_file,
     ie_run = \<lambda>_ _ _. no_capture\<lparr>cap_status := 0\<rparr>\<rparr>"

lemma sample_archive:
  "archive_read sample_info_file ''.PKGINFO'' (2 ^ 20) = Inr sample_info"
  "archive_list sample_list_file =
     Inr [\<lparr>ae_path = ''.INSTALL'', ae_kind = KindRegular, ae_link_target = [], ae_size = 3, ae_mode = 0x1A4\<rparr>]"
proof -
  have len: "length sample_info = 40" by (simp add: sample_info_def newline_def)
  have safe: "safe_path (Some (c_str ''.PKGINFO'')) 4096 = Inr ''.PKGINFO''"
    "safe_path (Some ''.PKGINFO'') 4096 = Inr ''.PKGINFO''" "safe_path (Some ''.INSTALL'') 4096 = Inr ''.INSTALL''"
    by (simp_all add: safe_path_iff c_str_def archive_safe_def plain_component_def)
  have limits: "max_path_bytes default_limits = 4096" "max_entries default_limits = 100000"
    "max_unpacked_bytes default_limits = 2 ^ 30" "\<not> max_archive_bytes default_limits < 100"
    by (simp_all add: default_limits_def word_less_nat_alt)
  have entry: "entry_of info_entry default_limits =
      Inr \<lparr>ae_path = ''.PKGINFO'', ae_kind = KindRegular, ae_link_target = [], ae_size = 40, ae_mode = 0x1A4\<rparr>"
    "entry_of (file_entry ''.INSTALL'' 3) default_limits =
      Inr \<lparr>ae_path = ''.INSTALL'', ae_kind = KindRegular, ae_link_target = [], ae_size = 3, ae_mode = 0x1A4\<rparr>"
    unfolding entry_of_def info_entry_def by (simp_all add: file_entry_def limits safe typed_entry_def)
  have whole: "write_at (replicate 40 zero_byte) 0 sample_info = sample_info" by (simp add: write_at_def len)
  have last: "read_data delivered_api r sample_info 40 = Inr sample_info" for r
    by (subst read_data.simps) (simp add: len)
  have data: "read_data delivered_api ([], [(40, sample_info)], None) (replicate 40 zero_byte) 0 = Inr sample_info"
    by (subst read_data.simps) (simp add: whole last)
  show "archive_read sample_info_file ''.PKGINFO'' (2 ^ 20) = Inr sample_info"
    unfolding archive_read_def read_archive_def
    by (simp add: sample_info_file_def limits safe open_archive_def)
      (subst read_loop.simps, simp add: entry data)
  have fin: "list_loop delivered_api default_limits ([], [], None) es u = Inr es" for es u
    by (subst list_loop.simps) simp
  have discard: "discard_entry delivered_api ([], [], None) u l = (True, u, ([], [], None))" for u l
    by (subst discard_entry.simps) simp
  have fit: "fits 3 0 1073741824" by (simp add: fits_def word_le_nat_alt)
  show "archive_list sample_list_file =
     Inr [\<lparr>ae_path = ''.INSTALL'', ae_kind = KindRegular, ae_link_target = [], ae_size = 3, ae_mode = 0x1A4\<rparr>]"
    unfolding archive_list_def list_archive_def
    by (simp add: sample_list_file_def limits open_archive_def)
      (subst list_loop.simps, simp add: entry limits discard fit fin)
qed

lemma sample_values:
  "pkginfo_value sample_info ''pkgname'' = ''hello''"
  "pkginfo_value sample_info ''pkgver'' = ''1-1''"
  "pkginfo_value sample_info ''arch'' = ''any''"
  by (simp_all add: pkginfo_value_def sample_info_def newline_def rest_of_line_def substr_def
      find_if_from_def)

lemma sample_inspect_ok:
  "pr_ok (inspect sample_env ''hello-1-1-any.pkg.tar.zst'' default_package_options)"
proof -
  have fname: "path_filename ''hello-1-1-any.pkg.tar.zst'' = ''hello-1-1-any.pkg.tar.zst''"
    unfolding path_filename_def by (subst split_on_single) simp_all
  have name: "package_name ''hello-1-1-any.pkg.tar.zst''"
    unfolding package_name_def by (rule disjI1) (simp add: ends_with_def)
  have env: "ie_regular sample_env p" "\<not> ie_symlink sample_env p" "ie_info_file sample_env = sample_info_file"
    "ie_list_file sample_env = sample_list_file" for p
    by (simp_all add: sample_env_def)
  have sig: "pr_ok (verify_signature sample_env p default_package_options r)" for p r
    by (simp add: verify_signature_def sample_env_def no_capture_def)
  have meta: "pm_name (identify p sample_info) = ''hello''" "pm_version (identify p sample_info) = ''1-1''"
    "pm_architecture (identify p sample_info) = ''any''" for p
    by (simp_all add: identify_def sample_values)
  show ?thesis
    unfolding inspect_def fname using name env sig
    by (simp add: inspect_identified_def meta sample_archive(2) sample_archive(1) [simplified])
qed

theorem inspect_ok_means_verified_witness:
  "pr_ok (inspect sample_env ''hello-1-1-any.pkg.tar.zst'' default_package_options) \<and>
   pm_signature (pr_metadata (inspect sample_env ''hello-1-1-any.pkg.tar.zst'' default_package_options)) = ''valid''"
  using sample_inspect_ok inspect_ok_means_verified [OF sample_inspect_ok] by blast

text \<open>The sandbox the signature is verified in is always admissible: its configuration passes
  the sandbox's own validation exactly when the timeout is at most a day, and the process it
  starts is confined by the default filter, with its network cut off and a clean environment.\<close>

theorem verify_config_admissible:
  "(validate h (verify_config options) = Inr ()) = (unat (po_timeout options) \<le> 86400) \<and>
   UnshareNetwork \<in> set (child_plan (verify_config options)) \<and>
   ClearEnvironment \<in> set (child_plan (verify_config options)) \<and>
   InstallFilter (installed_program default_package_syscalls) \<in> set (child_plan (verify_config options))"
proof -
  have al: "default_package_syscalls \<noteq> []" by (simp add: default_package_syscalls_def)
  have "(validate h (verify_config options) = Inr ()) = (\<not> po_timeout options > 86400)"
    by (simp add: validate_def validate_backend_def validate_cgroup_def verify_config_def default_config_def)
  moreover have "set (child_confinement (verify_config options)) \<supseteq>
      {ClearEnvironment, InstallFilter (installed_program default_package_syscalls)}"
    using al by (simp add: child_confinement_def verify_config_def default_config_def)
  moreover have "UnshareNetwork \<in> set (child_isolation (verify_config options))"
    by (simp add: child_isolation_def verify_config_def default_config_def)
  ultimately show ?thesis by (auto simp: child_plan_def word_le_nat_alt not_less)
qed

text \<open>Metadata keys are searched as substrings, not at the start of a line: a description that
  contains the text of another key supplies that key's value.\<close>

theorem pkginfo_value_unanchored:
  "pkginfo_value (''pkgdesc = x arch = any'' @ newline @ ''arch = mips'' @ newline) ''arch'' = ''any''"
  by (simp add: pkginfo_value_def newline_def rest_of_line_def substr_def find_if_from_def)

end
