(* ===== verification/Storage.thy ===== *)
theory Storage
  imports Archive_Adapter "HOL-Library.Char_ord" "HOL-Library.List_Lexorder" Owned_Handle
begin

text \<open>
  The observation database (\<^verbatim>\<open>src/package/storage.cpp\<close>). The two tables are lists of rows in
  insertion order; the statements of the source are written out as operations on them. SQLite
  itself is a parameter in two places: the rowid it gives to a new row (\<open>rowid\<close>, of which
  only what its documentation promises is assumed, locale \<open>rowid_source\<close>), and the outcome
  of every statement: \<open>calls k\<close> is \<^term>\<open>None\<close> when the \<open>k\<close>-th statement of an operation
  succeeds from its preparation to its last step, and otherwise the failed call's name and
  SQLite's message. An exception is the left summand of the result.
\<close>

section \<open>Data\<close>

record package_identity =
  id_name :: string
  id_version :: string
  id_architecture :: string
  id_signature :: string
  id_source_revision :: string
  id_dependency_fingerprint :: string
  id_package_hash :: string
  id_build_options :: string
  id_static_fingerprint :: string
  id_dynamic_fingerprint :: string

record stored_event =
  sv_category :: string
  sv_action :: string
  sv_subject :: string
  sv_detail :: string
  sv_dynamic :: bool

record observation =
  obs_id :: int
  obs_baseline :: bool

record version_delta =
  de_compared :: bool
  de_from_baseline :: bool
  de_identity_changed :: bool
  de_source_changed :: bool
  de_dependencies_changed :: bool
  de_added_events :: "string list"
  de_removed_events :: "string list"

definition no_delta :: version_delta where
  "no_delta = \<lparr>de_compared = False, de_from_baseline = False, de_identity_changed = False,
     de_source_changed = False, de_dependencies_changed = False, de_added_events = [],
     de_removed_events = []\<rparr>"

text \<open>Rows of the tables \<^verbatim>\<open>observations\<close> and \<^verbatim>\<open>events\<close>, and the database with the
  schema version recorded in \<^verbatim>\<open>schema_migrations\<close> (zero when there is none).\<close>

record observation_row =
  or_id :: int
  or_identity :: package_identity
  or_baseline :: bool

record event_row =
  er_observation :: int
  er_event :: stored_event

record database =
  db_version :: int
  db_observations :: "observation_row list"
  db_events :: "event_row list"

definition empty_database :: database where
  "empty_database = \<lparr>db_version = 0, db_observations = [], db_events = []\<rparr>"

abbreviation (input) schema_version :: int where "schema_version \<equiv> 1"

type_synonym sql_calls = "nat \<Rightarrow> (string \<times> string) option"
type_synonym rowid_choice = "int list \<Rightarrow> int"

definition check :: "(string \<times> string) option \<Rightarrow> unit expected" where
  "check result =
     (case result of None \<Rightarrow> Inr () | Some (operation, message) \<Rightarrow> Inl (operation @ '': '' @ message))"

section \<open>Opening\<close>

text \<open>\<^verbatim>\<open>migrate\<close>: a database written by a newer build is refused; an empty one gets its
  tables. Statements: the pragma, \<^verbatim>\<open>BEGIN\<close>, the four statements of the migration as one, and
  \<^verbatim>\<open>COMMIT\<close>; a failure after \<^verbatim>\<open>BEGIN\<close> rolls back.\<close>

definition migrate :: "sql_calls \<Rightarrow> database \<Rightarrow> database \<times> unit expected" where
  "migrate calls db =
     (case check (calls 0) of
        Inl e \<Rightarrow> (db, Inl e)
      | Inr _ \<Rightarrow>
          (case check (calls 1) of
             Inl e \<Rightarrow> (db, Inl e)
           | Inr _ \<Rightarrow>
               if db_version db > schema_version
               then (db, Inl ''database schema is newer than this build'')
               else
                 (let migrated = (if db_version db < 1
                                  then \<lparr>db_version = 1, db_observations = [], db_events = []\<rparr> else db)
                  in case check (calls 2) of
                       Inl e \<Rightarrow> (db, Inl e)
                     | Inr _ \<Rightarrow>
                         (case check (calls 3) of
                            Inl e \<Rightarrow> (db, Inl e)
                          | Inr _ \<Rightarrow> (migrated, Inr ())))))"

definition open_database :: "string option \<Rightarrow> sql_calls \<Rightarrow> database \<Rightarrow> database \<times> unit expected" where
  "open_database open_error calls db =
     (case open_error of
        Some message \<Rightarrow> (db, Inl (''open database: '' @ message))
      | None \<Rightarrow> migrate calls db)"

section \<open>Storing\<close>

text \<open>Text is bound with length \<open>-1\<close>: it ends at the first NUL.\<close>

definition bind_identity :: "package_identity \<Rightarrow> package_identity" where
  "bind_identity i =
     \<lparr>id_name = c_str (id_name i), id_version = c_str (id_version i),
      id_architecture = c_str (id_architecture i), id_signature = c_str (id_signature i),
      id_source_revision = c_str (id_source_revision i),
      id_dependency_fingerprint = c_str (id_dependency_fingerprint i),
      id_package_hash = c_str (id_package_hash i), id_build_options = c_str (id_build_options i),
      id_static_fingerprint = c_str (id_static_fingerprint i),
      id_dynamic_fingerprint = c_str (id_dynamic_fingerprint i)\<rparr>"

definition bind_event :: "stored_event \<Rightarrow> stored_event" where
  "bind_event e =
     \<lparr>sv_category = c_str (sv_category e), sv_action = c_str (sv_action e),
      sv_subject = c_str (sv_subject e), sv_detail = c_str (sv_detail e), sv_dynamic = sv_dynamic e\<rparr>"

definition name_seen :: "string \<Rightarrow> database \<Rightarrow> bool" where
  "name_seen name db \<longleftrightarrow> list_ex (\<lambda>row. id_name (or_identity row) = name) (db_observations db)"

definition insert_observation :: "int \<Rightarrow> package_identity \<Rightarrow> database \<Rightarrow> database" where
  "insert_observation new_id identity db =
     db\<lparr>db_observations := db_observations db @
          [\<lparr>or_id = new_id, or_identity = bind_identity identity,
            or_baseline = \<not> name_seen (c_str (id_name identity)) db\<rparr>]\<rparr>"

fun insert_events :: "sql_calls \<Rightarrow> nat \<Rightarrow> int \<Rightarrow> stored_event list \<Rightarrow> database \<Rightarrow> database expected" where
  "insert_events calls k new_id [] db = Inr db"
| "insert_events calls k new_id (e # es) db =
     (case check (calls k) of
        Inl err \<Rightarrow> Inl err
      | Inr _ \<Rightarrow>
          insert_events calls (Suc k) new_id es
            (db\<lparr>db_events := db_events db @ [\<lparr>er_observation = new_id, er_event = bind_event e\<rparr>]\<rparr>))"

definition stored_baseline :: "int \<Rightarrow> database \<Rightarrow> bool" where
  "stored_baseline i db =
     (case find (\<lambda>row. or_id row = i) (db_observations db) of None \<Rightarrow> False | Some row \<Rightarrow> or_baseline row)"

text \<open>Statements: \<^verbatim>\<open>BEGIN\<close> (outside the \<^verbatim>\<open>try\<close> block), the row, \<^verbatim>\<open>COMMIT\<close>, the final
  query, then one per event. The roll back after a failed query finds the transaction already
  committed.\<close>

definition store ::
  "rowid_choice \<Rightarrow> sql_calls \<Rightarrow> package_identity \<Rightarrow> stored_event list \<Rightarrow> database \<Rightarrow>
   database \<times> observation expected" where
  "store rowid calls identity events db =
     (case check (calls 0) of
        Inl e \<Rightarrow> (db, Inl e)
      | Inr _ \<Rightarrow>
          (case check (calls 1) of
             Inl e \<Rightarrow> (db, Inl e)
           | Inr _ \<Rightarrow>
               (let new_id = rowid (map or_id (db_observations db))
                in case insert_events calls 4 new_id events (insert_observation new_id identity db) of
                     Inl e \<Rightarrow> (db, Inl e)
                   | Inr db' \<Rightarrow>
                       (case check (calls 2) of
                          Inl e \<Rightarrow> (db, Inl e)
                        | Inr _ \<Rightarrow>
                            (case check (calls 3) of
                               Inl e \<Rightarrow> (db', Inl e)
                             | Inr _ \<Rightarrow>
                                 (db', Inr \<lparr>obs_id = new_id, obs_baseline = stored_baseline new_id db'\<rparr>))))))"

section \<open>Comparing\<close>

text \<open>The loop of \<^verbatim>\<open>compare\<close> keeps the last row of each version; its locals start as an
  empty row with id zero.\<close>

definition blank_row :: observation_row where
  "blank_row = \<lparr>or_id = 0,
     or_identity = \<lparr>id_name = [], id_version = [], id_architecture = [], id_signature = [],
        id_source_revision = [], id_dependency_fingerprint = [], id_package_hash = [],
        id_build_options = [], id_static_fingerprint = [], id_dynamic_fingerprint = []\<rparr>,
     or_baseline = False\<rparr>"

definition ordered_rows :: "database \<Rightarrow> observation_row list" where
  "ordered_rows db = sort_key or_id (db_observations db)"

definition compare_row :: "string \<Rightarrow> observation_row \<Rightarrow> observation_row \<times> observation_row \<Rightarrow>
    observation_row \<times> observation_row" where
  "compare_row from row acc =
     (case acc of (f, t) \<Rightarrow> if id_version (or_identity row) = from then (row, t) else (f, row))"

definition compare_rows :: "string \<Rightarrow> string \<Rightarrow> string \<Rightarrow> database \<Rightarrow> observation_row \<times> observation_row" where
  "compare_rows name from to db =
     fold (compare_row from)
       (filter (\<lambda>row. id_name (or_identity row) = c_str name \<and>
                      id_version (or_identity row) \<in> {c_str from, c_str to}) (ordered_rows db))
       (blank_row, blank_row)"

definition unit_separator :: string where
  "unit_separator = [CHR 0x1F]"

definition event_key :: "stored_event \<Rightarrow> string" where
  "event_key e =
     sv_category e @ unit_separator @ sv_action e @ unit_separator @ sv_subject e @ unit_separator @
     sv_detail e @ unit_separator @ (if sv_dynamic e then ''1'' else ''0'')"

text \<open>A \<^verbatim>\<open>std::set<std::string>\<close> is the sorted list of its elements.\<close>

definition event_set :: "int \<Rightarrow> database \<Rightarrow> string list" where
  "event_set i db =
     sort (remdups (map (\<lambda>row. event_key (er_event row))
       (filter (\<lambda>row. er_observation row = i) (db_events db))))"

definition set_difference :: "string list \<Rightarrow> string list \<Rightarrow> string list" where
  "set_difference a b = filter (\<lambda>x. x \<notin> set b) a"

definition compare_database :: "sql_calls \<Rightarrow> string \<Rightarrow> string \<Rightarrow> string \<Rightarrow> database \<Rightarrow> version_delta expected" where
  "compare_database calls name from to db =
     (case check (calls 0) of
        Inl e \<Rightarrow> Inl e
      | Inr _ \<Rightarrow>
          (case compare_rows name from to db of
             (f, t) \<Rightarrow>
               if or_id f = 0 \<or> or_id t = 0 then Inr no_delta
               else
                 (let a = or_identity f; b = or_identity t
                  in case check (calls 1) of
                       Inl e \<Rightarrow> Inl e
                     | Inr _ \<Rightarrow>
                         (case check (calls 2) of
                            Inl e \<Rightarrow> Inl e
                          | Inr _ \<Rightarrow>
                              Inr \<lparr>de_compared = True, de_from_baseline = or_baseline f,
                                   de_identity_changed =
                                     (id_architecture a \<noteq> id_architecture b \<or>
                                      id_signature a \<noteq> id_signature b \<or>
                                      id_package_hash a \<noteq> id_package_hash b \<or>
                                      id_build_options a \<noteq> id_build_options b \<or>
                                      id_static_fingerprint a \<noteq> id_static_fingerprint b \<or>
                                      id_dynamic_fingerprint a \<noteq> id_dynamic_fingerprint b),
                                   de_source_changed = (id_source_revision a \<noteq> id_source_revision b),
                                   de_dependencies_changed =
                                     (id_dependency_fingerprint a \<noteq> id_dependency_fingerprint b),
                                   de_added_events =
                                     set_difference (event_set (or_id t) db) (event_set (or_id f) db),
                                   de_removed_events =
                                     set_difference (event_set (or_id f) db) (event_set (or_id t) db)\<rparr>))))"

definition previous_version :: "sql_calls \<Rightarrow> string \<Rightarrow> string \<Rightarrow> database \<Rightarrow> string option expected" where
  "previous_version calls name current db =
     (case check (calls 0) of
        Inl e \<Rightarrow> Inl e
      | Inr _ \<Rightarrow>
          (case rev (filter (\<lambda>row. id_name (or_identity row) = c_str name \<and>
                                   id_version (or_identity row) \<noteq> c_str current) (ordered_rows db)) of
             [] \<Rightarrow> Inr None
           | row # _ \<Rightarrow> Inr (Some (id_version (or_identity row)))))"

section \<open>The invariant\<close>

definition baselines_first :: "observation_row list \<Rightarrow> bool" where
  "baselines_first rows \<longleftrightarrow>
     (\<forall>k < length rows. or_baseline (rows ! k) =
        (\<forall>j < k. id_name (or_identity (rows ! j)) \<noteq> id_name (or_identity (rows ! k))))"

definition db_wf :: "database \<Rightarrow> bool" where
  "db_wf db \<longleftrightarrow>
     sorted_wrt (<) (map or_id (db_observations db)) \<and>
     list_all (\<lambda>row. 0 < or_id row) (db_observations db) \<and>
     baselines_first (db_observations db) \<and>
     list_all (\<lambda>row. er_observation row \<in> or_id ` set (db_observations db)) (db_events db)"

lemma db_wf_empty [simp]: "db_wf empty_database"
  by (simp add: db_wf_def empty_database_def baselines_first_def)

text \<open>What SQLite documents of the rowid of a new row, while the largest rowid in use is below the maximum
  \<open>2 ^ 63 - 1\<close>: it is positive and above every rowid in use. A table that has reached the maximum, where
  SQLite tries other rowids, is not covered.\<close>

locale rowid_source =
  fixes rowid :: rowid_choice
  assumes rowid_positive: "0 < rowid ids"
    and rowid_fresh: "i \<in> set ids \<Longrightarrow> i < rowid ids"

lemma baselines_first_append:
  assumes "baselines_first rows"
    and "or_baseline row = (\<not> list_ex (\<lambda>r. id_name (or_identity r) = id_name (or_identity row)) rows)"
  shows "baselines_first (rows @ [row])"
  unfolding baselines_first_def
proof (intro allI impI)
  fix k assume k: "k < length (rows @ [row])"
  show "or_baseline ((rows @ [row]) ! k) =
      (\<forall>j<k. id_name (or_identity ((rows @ [row]) ! j)) \<noteq> id_name (or_identity ((rows @ [row]) ! k)))"
  proof (cases "k < length rows")
    case True
    then have "\<And>j. j < k \<Longrightarrow> (rows @ [row]) ! j = rows ! j" by (simp add: nth_append)
    with True assms(1) show ?thesis by (simp add: baselines_first_def nth_append)
  next
    case False
    with k have [simp]: "k = length rows" by simp
    have "list_ex P rows = (\<exists>j < length rows. P (rows ! j))" for P
      by (metis in_set_conv_nth list_ex_iff)
    with assms(2) show ?thesis by (simp add: nth_append)
  qed
qed

definition event_rows :: "int \<Rightarrow> stored_event list \<Rightarrow> event_row list" where
  "event_rows i es = map (\<lambda>e. \<lparr>er_observation = i, er_event = bind_event e\<rparr>) es"

lemma insert_events_result:
  "insert_events calls k i es db = Inr db' \<Longrightarrow>
     db' = db\<lparr>db_events := db_events db @ event_rows i es\<rparr>"
  by (induction calls k i es db rule: insert_events.induct)
    (auto simp: event_rows_def split: sum.splits)

text \<open>A store either leaves the database as it was or appends one observation and its events; it
  reports success only in the second case.\<close>

lemma store_outcome:
  fixes rowid :: rowid_choice and db :: database
  defines "i \<equiv> rowid (map or_id (db_observations db))"
  shows "(\<exists>e. store rowid calls identity es db = (db, Inl e)) \<or>
    (\<exists>db' r. insert_events calls 4 i es (insert_observation i identity db) = Inr db' \<and>
       store rowid calls identity es db = (db', r) \<and>
       (\<forall>obs. r = Inr obs \<longrightarrow> obs = \<lparr>obs_id = i, obs_baseline = stored_baseline i db'\<rparr>))"
  unfolding store_def Let_def i_def [symmetric]
  by (cases "check (calls 0)"; cases "check (calls 1)"; cases "check (calls 2)"; cases "check (calls 3)";
      cases "insert_events calls 4 i es (insert_observation i identity db)") simp_all

lemma store_cases:
  obtains (unchanged) e where "store rowid calls identity es db = (db, Inl e)"
  | (appended) r i where "i = rowid (map or_id (db_observations db))"
      "store rowid calls identity es db =
         ((insert_observation i identity db)\<lparr>db_events := db_events db @ event_rows i es\<rparr>, r)"
      "\<And>obs. r = Inr obs \<Longrightarrow> obs_id obs = i \<and>
         obs_baseline obs = stored_baseline i (insert_observation i identity db)"
proof -
  have ev: "db_events (insert_observation i identity db) = db_events db" for i
    by (simp add: insert_observation_def)
  have sb: "stored_baseline i (d\<lparr>db_events := x\<rparr>) = stored_baseline i d" for i d x
    by (simp add: stored_baseline_def)
  let ?i = "rowid (map or_id (db_observations db))"
  consider (fail) e where "store rowid calls identity es db = (db, Inl e)"
    | (go) db' r where "insert_events calls 4 ?i es (insert_observation ?i identity db) = Inr db'"
        "store rowid calls identity es db = (db', r)"
        "\<And>obs. r = Inr obs \<Longrightarrow> obs = \<lparr>obs_id = ?i, obs_baseline = stored_baseline ?i db'\<rparr>"
    using store_outcome [of rowid calls identity es db] by blast
  then show thesis
  proof cases
    case fail
    then show thesis by (rule unchanged)
  next
    case go
    have db': "db' = (insert_observation ?i identity db)\<lparr>db_events := db_events db @ event_rows ?i es\<rparr>"
      using insert_events_result [OF go(1)] by (simp add: ev)
    show thesis
      by (rule appended [OF refl go(2) [unfolded db']]) (use go(3) db' in \<open>auto simp: sb\<close>)
  qed
qed

context rowid_source
begin

lemma insert_wf:
  assumes "db_wf db" and i: "i = rowid (map or_id (db_observations db))"
  shows "db_wf ((insert_observation i identity db)\<lparr>db_events := db_events db @ event_rows i es\<rparr>)"
proof -
  let ?row = "\<lparr>or_id = i, or_identity = bind_identity identity,
            or_baseline = \<not> name_seen (c_str (id_name identity)) db\<rparr>"
  have "baselines_first (db_observations db @ [?row])"
    by (rule baselines_first_append)
      (use assms(1) in \<open>simp_all add: db_wf_def name_seen_def bind_identity_def\<close>)
  then show ?thesis
    using assms(1) rowid_positive rowid_fresh
    by (auto simp: db_wf_def insert_observation_def i sorted_wrt_append event_rows_def list_all_iff)
qed

lemma store_wf: "db_wf db \<Longrightarrow> db_wf (fst (store rowid calls identity es db))"
  by (rule store_cases [of rowid calls identity es db]) (simp_all add: insert_wf)

end

definition next_rowid :: rowid_choice where
  "next_rowid ids = fold max ids 0 + 1"

lemma fold_max_bound: "(i :: int) \<in> set ids \<or> i \<le> a \<Longrightarrow> i \<le> fold max ids a"
  by (induction ids arbitrary: a) (auto simp: max.coboundedI1 max.coboundedI2)

interpretation sqlite_rowids: rowid_source next_rowid
  using fold_max_bound [of 0 _ 0] fold_max_bound [of _ _ 0]
  by unfold_locales (force simp: next_rowid_def)+

text \<open>A history of the database: requests, each with the outcome of its statements.\<close>

type_synonym request = "sql_calls \<times> package_identity \<times> stored_event list"

definition store_all :: "rowid_choice \<Rightarrow> request list \<Rightarrow> database \<Rightarrow> database" where
  "store_all rowid = fold (\<lambda>(calls, identity, es) db. fst (store rowid calls identity es db))"

context rowid_source
begin

lemma store_all_wf: "db_wf db \<Longrightarrow> db_wf (store_all rowid reqs db)"
  unfolding store_all_def by (induction reqs arbitrary: db) (auto simp: store_wf)

end

section \<open>Comparison\<close>

lemma ordered_rows_wf [simp]: "db_wf db \<Longrightarrow> ordered_rows db = db_observations db"
  unfolding ordered_rows_def db_wf_def
  by (metis sort_key_id_if_sorted strict_sorted_iff)

definition last_or :: "'a \<Rightarrow> 'a list \<Rightarrow> 'a" where
  "last_or d xs = (if xs = [] then d else List.last xs)"

lemma last_or_simps [simp]: "last_or d [] = d" "last_or d (x # xs) = last_or x xs"
  "last_or d (xs @ [x]) = x"
  by (simp_all add: last_or_def)

lemma fold_compare_row:
  "fold (compare_row from) rows (f, t) =
     (last_or f (filter (\<lambda>r. id_version (or_identity r) = from) rows),
      last_or t (filter (\<lambda>r. id_version (or_identity r) \<noteq> from) rows))"
  by (induction rows arbitrary: f t) (auto simp: compare_row_def)

definition version_rows :: "string \<Rightarrow> string \<Rightarrow> database \<Rightarrow> observation_row list" where
  "version_rows name v db =
     filter (\<lambda>r. id_name (or_identity r) = name \<and> id_version (or_identity r) = v) (db_observations db)"

lemma c_str_id: "zero_byte \<notin> set s \<Longrightarrow> c_str s = s"
  by (simp add: c_str_def takeWhile_eq_all_conv) blast

lemma compare_rows_latest:
  assumes "db_wf db" "from \<noteq> to"
    and "zero_byte \<notin> set name" "zero_byte \<notin> set from" "zero_byte \<notin> set to"
  shows "compare_rows name from to db =
    (last_or blank_row (version_rows name from db), last_or blank_row (version_rows name to db))"
  using assms
  by (auto simp: compare_rows_def fold_compare_row c_str_id version_rows_def
      intro!: arg_cong [of _ _ "last_or blank_row"] filter_cong)

lemma event_set_props: "sorted (event_set i db)" "distinct (event_set i db)"
  by (simp_all add: event_set_def)

definition event_keys :: "int \<Rightarrow> database \<Rightarrow> string set" where
  "event_keys i db =
     set (map (\<lambda>row. event_key (er_event row)) (filter (\<lambda>row. er_observation row = i) (db_events db)))"

lemma set_event_set [simp]: "set (event_set i db) = event_keys i db"
  by (simp add: event_set_def event_keys_def)

lemma set_difference_props:
  "set (set_difference a b) = set a - set b"
  "sorted a \<Longrightarrow> sorted (set_difference a b)" "distinct a \<Longrightarrow> distinct (set_difference a b)"
  by (auto simp: set_difference_def sorted_wrt_filter)

lemma last_or_member: "xs \<noteq> [] \<Longrightarrow> last_or d xs \<in> set xs"
  by (simp add: last_or_def)

lemma blank_row_id [simp]: "or_id blank_row = 0"
  by (simp add: blank_row_def)

lemma latest_id_zero:
  "db_wf db \<Longrightarrow> or_id (last_or blank_row (version_rows name v db)) = 0 \<longleftrightarrow> version_rows name v db = []"
  using last_or_member [of "version_rows name v db" blank_row]
  by (cases "version_rows name v db = []") (force simp: version_rows_def db_wf_def list_all_iff)+

lemma compare_database_latest:
  assumes "db_wf db" "from \<noteq> to"
    and "zero_byte \<notin> set name" "zero_byte \<notin> set from" "zero_byte \<notin> set to"
    and "version_rows name from db \<noteq> []" "version_rows name to db \<noteq> []"
  defines "f \<equiv> List.last (version_rows name from db)" and "t \<equiv> List.last (version_rows name to db)"
  obtains d where "compare_database (\<lambda>_. None) name from to db = Inr d" "de_compared d"
    "de_from_baseline d = or_baseline f"
    "set (de_added_events d) = event_keys (or_id t) db - event_keys (or_id f) db"
    "set (de_removed_events d) = event_keys (or_id f) db - event_keys (or_id t) db"
    "sorted (de_added_events d)" "distinct (de_added_events d)"
proof -
  have rows: "compare_rows name from to db = (f, t)"
    using assms compare_rows_latest [of db "from" to name] by (simp add: last_or_def)
  have ids: "or_id f \<noteq> 0" "or_id t \<noteq> 0"
    using assms latest_id_zero [of db name "from"] latest_id_zero [of db name to]
    by (simp_all add: last_or_def)
  show thesis
    by (rule that [of "\<lparr>de_compared = True, de_from_baseline = or_baseline f, de_identity_changed = _,
          de_source_changed = _, de_dependencies_changed = _,
          de_added_events = set_difference (event_set (or_id t) db) (event_set (or_id f) db),
          de_removed_events = set_difference (event_set (or_id f) db) (event_set (or_id t) db)\<rparr>"])
      (simp_all add: compare_database_def check_def rows ids Let_def set_difference_props event_set_props)
qed

lemma previous_version_row:
  assumes "db_wf db" "previous_version calls name current db = Inr (Some p)" "zero_byte \<notin> set name"
    "zero_byte \<notin> set current"
  shows "version_rows name p db \<noteq> [] \<and> p \<noteq> current"
proof -
  let ?rows = "filter (\<lambda>row. id_name (or_identity row) = name \<and> id_version (or_identity row) \<noteq> current)
      (db_observations db)"
  from assms obtain row rest where "rev ?rows = row # rest" "p = id_version (or_identity row)"
    by (auto simp: previous_version_def c_str_id split: sum.splits list.splits)
  moreover from \<open>rev ?rows = row # rest\<close> have "row \<in> set ?rows" by (metis list.set_intros(1) set_rev)
  then have "row \<in> set (db_observations db)" "id_name (or_identity row) = name"
    "id_version (or_identity row) \<noteq> current" by simp_all
  ultimately show ?thesis by (auto simp: version_rows_def filter_empty_conv simp del: rev_eq_Cons_iff)
qed

section \<open>Properties\<close>

text \<open>C11. Whatever statements fail along the way, a database built by any sequence of stores, with rowids
  chosen as SQLite does below its maximal rowid, keeps its invariant: the observation ids are positive and strictly increasing, exactly the first
  observation of every package name is marked as its baseline, and every stored event belongs to
  a stored observation.\<close>

theorem store_history_invariant:
  fixes reqs :: "request list"
  assumes "rowid_source rowid"
  defines "db \<equiv> store_all rowid reqs empty_database"
  shows "sorted_wrt (<) (map or_id (db_observations db)) \<and>
    list_all (\<lambda>row. 0 < or_id row) (db_observations db) \<and>
    (let rows = db_observations db
     in \<forall>k < length rows. or_baseline (rows ! k) =
          (\<forall>j < k. id_name (or_identity (rows ! j)) \<noteq> id_name (or_identity (rows ! k)))) \<and>
    list_all (\<lambda>row. er_observation row \<in> or_id ` set (db_observations db)) (db_events db)"
proof -
  have "db_wf db" unfolding db_def by (rule rowid_source.store_all_wf [OF assms(1) db_wf_empty])
  then show ?thesis by (simp add: db_wf_def baselines_first_def Let_def)
qed

definition sample_identity :: "string \<Rightarrow> package_identity" where
  "sample_identity v =
     \<lparr>id_name = ''p'', id_version = v, id_architecture = ''any'', id_signature = ''valid'',
      id_source_revision = [], id_dependency_fingerprint = ''0'', id_package_hash = v,
      id_build_options = [], id_static_fingerprint = [], id_dynamic_fingerprint = []\<rparr>"

definition sample_event :: "string \<Rightarrow> stored_event" where
  "sample_event d =
     \<lparr>sv_category = ''c'', sv_action = ''a'', sv_subject = ''s'', sv_detail = d, sv_dynamic = True\<rparr>"

definition sample_database :: database where
  "sample_database =
     store_all next_rowid [(\<lambda>_. None, sample_identity ''1'', [sample_event ''x''])] empty_database"

lemmas sample_eval = store_all_def store_def check_def insert_observation_def name_seen_def
  sample_identity_def sample_event_def bind_identity_def bind_event_def c_str_def empty_database_def
  next_rowid_def stored_baseline_def

theorem store_history_invariant_witness:
  "map or_baseline (db_observations (store_all next_rowid
     [(\<lambda>_. None, sample_identity ''1'', []), (\<lambda>k. if k = 2 then Some (''sqlite'', ''busy'') else None,
        sample_identity ''3'', []), (\<lambda>_. None, sample_identity ''2'', [])] empty_database)) = [True, False] \<and>
   sorted_wrt (<) (map or_id (db_observations sample_database))"
  using store_history_invariant [OF sqlite_rowids.rowid_source_axioms,
      of "[(\<lambda>_. None, sample_identity ''1'', [sample_event ''x''])]"]
  by (simp add: sample_eval sample_database_def)

lemma find_last:
  "P x \<Longrightarrow> list_all (\<lambda>y. \<not> P y) xs \<Longrightarrow> find P (xs @ [x]) = Some x"
  by (induction xs) auto

lemma filter_event_rows:
  "filter (\<lambda>row. er_observation row = j) (event_rows i es) = (if j = i then event_rows i es else [])"
  by (auto simp: event_rows_def filter_empty_conv)

lemma event_keys_append:
  "db_events db' = db_events db @ event_rows i es \<Longrightarrow>
     event_keys j db' = event_keys j db \<union> (if j = i then (event_key \<circ> bind_event) ` set es else {})"
  by (simp add: event_keys_def filter_event_rows) (simp add: event_rows_def image_image)

lemma version_rows_insert:
  assumes "zero_byte \<notin> set (id_name identity)" "zero_byte \<notin> set (id_version identity)"
    "db_observations db' = db_observations (insert_observation i identity db)"
  shows "\<exists>row. or_id row = i \<and>
    version_rows (id_name identity) v db' = version_rows (id_name identity) v db @
      (if v = id_version identity then [row] else [])"
  using assms
  by (intro exI [of _ "\<lparr>or_id = i, or_identity = bind_identity identity,
      or_baseline = \<not> name_seen (c_str (id_name identity)) db\<rparr>"])
    (auto simp: version_rows_def insert_observation_def bind_identity_def c_str_id)

context rowid_source
begin

lemma new_id_unused:
  assumes "db_wf db" and i: "i = rowid (map or_id (db_observations db))"
  shows "row \<in> set (db_observations db) \<Longrightarrow> or_id row < i" "event_keys i db = {}"
proof -
  show old: "or_id row < i" if "row \<in> set (db_observations db)" for row
    using that rowid_fresh i by simp
  have "er_observation e \<noteq> i" if "e \<in> set (db_events db)" for e
  proof -
    from that assms(1) obtain row where "row \<in> set (db_observations db)" "er_observation e = or_id row"
      by (auto simp: db_wf_def list_all_iff)
    with old [of row] show ?thesis by simp
  qed
  then show "event_keys i db = {}" by (simp add: event_keys_def)
qed

lemma new_row_baseline:
  assumes "db_wf db" and i: "i = rowid (map or_id (db_observations db))"
  shows "stored_baseline i (insert_observation i identity db) = (\<not> name_seen (c_str (id_name identity)) db)"
proof -
  have "list_all (\<lambda>row. or_id row \<noteq> i) (db_observations db)"
    using new_id_unused(1) [OF assms] by (fastforce simp: list_all_iff)
  then show ?thesis
    unfolding stored_baseline_def insert_observation_def by (simp add: find_last)
qed

end

text \<open>C37. A stored version can be compared with its predecessor, for names and versions free of NUL
  characters: if a store into a well-formed database reports success, and before it another version of the same
  package was the latest one, then the comparison of the two versions finds both, and the added
  events are, in order and without repetition, exactly the keys of the events just stored that the
  earlier version did not have; and the new observation is no baseline.\<close>

theorem stored_version_comparable:
  assumes "rowid_source rowid" and wf: "db_wf db"
    and stored: "store rowid calls identity es db = (db', Inr obs)"
    and prev: "previous_version calls' (id_name identity) (id_version identity) db = Inr (Some p)"
    and nul: "zero_byte \<notin> set (id_name identity)" "zero_byte \<notin> set (id_version identity)" "zero_byte \<notin> set p"
  shows "\<exists>d. compare_database (\<lambda>_. None) (id_name identity) p (id_version identity) db' = Inr d \<and>
      de_compared d \<and> sorted (de_added_events d) \<and> distinct (de_added_events d) \<and>
      set (de_added_events d) = (event_key \<circ> bind_event) ` set es -
        event_keys (or_id (List.last (version_rows (id_name identity) p db))) db \<and>
      \<not> obs_baseline obs"
proof -
  let ?n = "id_name identity" and ?v = "id_version identity"
  from stored obtain i where i: "i = rowid (map or_id (db_observations db))"
    and db': "db' = (insert_observation i identity db)\<lparr>db_events := db_events db @ event_rows i es\<rparr>"
    and obs: "obs_baseline obs = stored_baseline i (insert_observation i identity db)"
    by (cases rule: store_cases [of rowid calls identity es db]) auto
  note fresh = rowid_source.new_id_unused [OF assms(1) wf i]
  have wf': "db_wf db'" unfolding db' by (rule rowid_source.insert_wf [OF assms(1) wf i])
  have obs': "db_observations db' = db_observations (insert_observation i identity db)" by (simp add: db')
  note rows = version_rows_insert [OF nul(1,2) obs']
  from previous_version_row [OF wf prev nul(1,2)] have p: "version_rows ?n p db \<noteq> []" "p \<noteq> ?v" by simp_all
  from rows [of p] p have pr: "version_rows ?n p db' = version_rows ?n p db" by auto
  from rows [of ?v] have vr: "version_rows ?n ?v db' \<noteq> []" "or_id (List.last (version_rows ?n ?v db')) = i" by auto
  let ?f = "List.last (version_rows ?n p db)"
  have f: "?f \<in> set (db_observations db)" "id_name (or_identity ?f) = ?n"
    using last_in_set [OF p(1)] by (simp_all add: version_rows_def)
  have "name_seen (c_str ?n) db"
    using f by (auto simp: name_seen_def list_ex_iff c_str_id [OF nul(1)])
  then have base: "\<not> obs_baseline obs"
    using obs rowid_source.new_row_baseline [OF assms(1) wf i] by simp
  have ev: "db_events db' = db_events db @ event_rows i es" by (simp add: db')
  have keys: "event_keys i db' = (event_key \<circ> bind_event) ` set es"
    "event_keys (or_id ?f) db' = event_keys (or_id ?f) db"
    using fresh(1) [OF f(1)] fresh(2) event_keys_append [OF ev] by auto
  from compare_database_latest [OF wf' p(2) nul(1) nul(3) nul(2)] p pr vr
  obtain d where "compare_database (\<lambda>_. None) ?n p ?v db' = Inr d" "de_compared d"
    "set (de_added_events d) = event_keys i db' - event_keys (or_id ?f) db'"
    "sorted (de_added_events d)" "distinct (de_added_events d)" by metis
  with keys base show ?thesis by auto
qed

theorem stored_version_comparable_witness:
  "db_wf sample_database \<and>
   (\<exists>d. compare_database (\<lambda>_. None) ''p'' ''1'' ''2''
          (fst (store next_rowid (\<lambda>_. None) (sample_identity ''2'') [sample_event ''y''] sample_database)) = Inr d \<and>
        de_compared d)"
proof -
  have wf: "db_wf sample_database"
    unfolding sample_database_def by (rule sqlite_rowids.store_all_wf) simp
  obtain db' obs where st: "store next_rowid (\<lambda>_. None) (sample_identity ''2'') [sample_event ''y''] sample_database
      = (db', Inr obs)"
    by (simp add: sample_eval sample_database_def)
  have prev: "previous_version (\<lambda>_. None) (id_name (sample_identity ''2'')) (id_version (sample_identity ''2''))
      sample_database = Inr (Some ''1'')"
    by (simp add: previous_version_def sample_eval sample_database_def ordered_rows_def)
  from stored_version_comparable [OF sqlite_rowids.rowid_source_axioms wf st prev]
  obtain d where "compare_database (\<lambda>_. None) ''p'' ''1'' ''2'' db' = Inr d" "de_compared d"
    by (auto simp: sample_identity_def)
  with wf st show ?thesis by auto
qed

section \<open>Statements\<close>

text \<open>The class \<^verbatim>\<open>Statement\<close> and \<^verbatim>\<open>exec\<close> over SQLite's result codes. Each member makes one call and passes its
  code to \<^verbatim>\<open>check\<close> with the name of the operation; \<^verbatim>\<open>next\<close> first takes out the two codes of a step.\<close>

abbreviation (input) SQLITE_OK :: int where "SQLITE_OK \<equiv> 0"
abbreviation (input) SQLITE_ROW :: int where "SQLITE_ROW \<equiv> 100"
abbreviation (input) SQLITE_DONE :: int where "SQLITE_DONE \<equiv> 101"

definition sqlite_check :: "int \<Rightarrow> string \<Rightarrow> string \<Rightarrow> unit expected" where
  "sqlite_check code operation errmsg = (if code \<noteq> SQLITE_OK then Inl (operation @ '': '' @ errmsg) else Inr ())"

datatype sqlite_call = SqlExec | SqlPrepare | SqlBindText | SqlBindInteger | SqlReset | SqlClearBindings

fun call_name :: "sqlite_call \<Rightarrow> string" where
  "call_name SqlExec = ''sqlite''"
| "call_name SqlPrepare = ''prepare''"
| "call_name SqlBindText = ''bind text''"
| "call_name SqlBindInteger = ''bind integer''"
| "call_name SqlReset = ''reset''"
| "call_name SqlClearBindings = ''clear bindings''"

definition statement_next :: "int \<Rightarrow> string \<Rightarrow> bool expected" where
  "statement_next code errmsg =
     (if code = SQLITE_ROW then Inr True
      else if code = SQLITE_DONE then Inr False
      else case sqlite_check code ''step'' errmsg of Inl e \<Rightarrow> Inl e | Inr _ \<Rightarrow> Inr False)"

text \<open>A statement from its preparation to its step: the calls made before the step with their codes and
  messages, then the code and message of the step.\<close>

fun run_calls :: "(sqlite_call \<times> int \<times> string) list \<Rightarrow> unit expected" where
  "run_calls [] = Inr ()"
| "run_calls ((call, code, errmsg) # rest) =
     (case sqlite_check code (call_name call) errmsg of Inl e \<Rightarrow> Inl e | Inr _ \<Rightarrow> run_calls rest)"

definition run_statement :: "(sqlite_call \<times> int \<times> string) list \<Rightarrow> int \<times> string \<Rightarrow> bool expected" where
  "run_statement calls step =
     (case run_calls calls of Inl e \<Rightarrow> Inl e | Inr _ \<Rightarrow> statement_next (fst step) (snd step))"

text \<open>What \<open>sql_calls\<close> says of such a statement: nothing, or the first call that failed.\<close>

definition statement_outcome :: "(sqlite_call \<times> int \<times> string) list \<Rightarrow> int \<times> string \<Rightarrow> (string \<times> string) option" where
  "statement_outcome calls step =
     (case find (\<lambda>(_, code, _). code \<noteq> SQLITE_OK) calls of
        Some (call, _, errmsg) \<Rightarrow> Some (call_name call, errmsg)
      | None \<Rightarrow> if fst step \<in> {SQLITE_OK, SQLITE_ROW, SQLITE_DONE} then None else Some (''step'', snd step))"

text \<open>The outcome of a whole statement decides the same as its calls one by one: the exception is the one
  of the first call that fails, and without one the statement has a row exactly when its step says
  so.\<close>

lemma statement_outcome_refines:
  "run_statement calls step =
     (case check (statement_outcome calls step) of Inl e \<Rightarrow> Inl e | Inr _ \<Rightarrow> Inr (fst step = SQLITE_ROW))"
  unfolding run_statement_def
proof (induction calls)
  case Nil
  show ?case by (cases step) (simp add: statement_next_def statement_outcome_def sqlite_check_def check_def)
next
  case (Cons c calls)
  obtain call code errmsg where c: "c = (call, code, errmsg)" by (cases c) auto
  show ?case
  proof (cases "code = SQLITE_OK")
    case True
    with Cons.IH show ?thesis by (simp add: c sqlite_check_def statement_outcome_def)
  next
    case False
    then show ?thesis by (simp add: c sqlite_check_def statement_outcome_def check_def)
  qed
qed

section \<open>The connection\<close>

text \<open>\<^verbatim>\<open>Database\<close> owns a connection; its value is the pointer, \<^term>\<open>None\<close> the null pointer. The list is what is
  passed to \<^verbatim>\<open>sqlite3_close\<close>.\<close>

definition database_destroy :: "nat option \<Rightarrow> nat option list" where
  "database_destroy handle = (if handle \<noteq> None then [handle] else [])"

definition database_move :: "nat option \<Rightarrow> nat option \<times> nat option" where
  "database_move other = (other, None)"

definition database_assign :: "nat option \<Rightarrow> nat option \<Rightarrow> nat option list \<times> nat option \<times> nat option" where
  "database_assign handle other = (if handle \<noteq> None then [handle] else [], other, None)"

definition database_handle :: "nat option handle_class" where
  "database_handle = \<lparr>hc_live = \<lambda>p. p \<noteq> None, hc_blank = None, hc_destroy = database_destroy,
     hc_move = database_move, hc_assign = database_assign\<rparr>"

interpretation connection: owning_handle database_handle
  by unfold_locales (simp_all add: database_handle_def database_destroy_def database_move_def database_assign_def)

text \<open>\<^verbatim>\<open>open\<close> on the connection that \<^verbatim>\<open>sqlite3_open_v2\<close> made, if it made one: what is closed again and the
  handle of the object returned, none when the function throws.\<close>

definition open_connection ::
  "nat option \<Rightarrow> string option \<Rightarrow> sql_calls \<Rightarrow> database \<Rightarrow> nat option list \<times> nat option" where
  "open_connection pointer open_error calls db =
     (if open_error \<noteq> None then (if pointer \<noteq> None then [pointer] else [], None)
      else case snd (migrate calls db) of Inl _ \<Rightarrow> ([pointer], None) | Inr _ \<Rightarrow> ([], pointer))"

text \<open>A connection is never lost: \<^verbatim>\<open>open\<close> either closes it and throws or hands it to the object it
  returns, and afterwards it is closed once, whatever a program does with such objects.\<close>

lemma open_connection_kept:
  assumes "pointer = Some p" "open_connection pointer open_error calls db = (closed, handle)"
  shows "closed = [pointer] \<and> handle = None \<and> (\<exists>e. snd (open_database open_error calls db) = Inl e) \<or>
    closed = [] \<and> handle = pointer \<and> snd (open_database open_error calls db) = Inr ()"
  using assms by (auto simp: open_connection_def open_database_def split: if_splits option.splits sum.splits)

lemma connections_closed_once:
  assumes "(handle_step database_handle)\<^sup>*\<^sup>* empty_world w"
  shows "hw_bad w = []" "hw_open w = hw_raw w \<union> {p. \<exists>h. handle_owns (hc_live database_handle) w h p}"
  by (rule connection.run_resources [OF assms])+

end
