(* ===== verification/Package_Report.thy ===== *)
theory Package_Report
  imports Package_Inspect Storage
begin

text \<open>
  What the package commands write (\<^verbatim>\<open>src/package/package.cpp\<close>): the artifacts of a session,
  the printed result, and the commands that only produce a report (\<^verbatim>\<open>fetch\<close>,
  \<^verbatim>\<open>compare\<close>, \<^verbatim>\<open>report\<close>). Output is the text written; whether a file can be
  written is a parameter.
\<close>

section \<open>Session artifacts\<close>

text \<open>A JSON object from its members; the first member has no leading comma.\<close>

definition member :: "string \<Rightarrow> string \<Rightarrow> string" where
  "member key text = quote @ key @ quote @ '':'' @ text"

definition json_members :: "(string \<times> string) list \<Rightarrow> string" where
  "json_members ms = ''{'' @ join_with CHR '','' (map (\<lambda>(k, v). member k v) ms) @ ''}''"

definition metadata_json :: "package_result \<Rightarrow> string" where
  "metadata_json r =
     (let m = pr_metadata r
      in json_members
           [(''schema_version'', ''2''), (''package'', quoted (pm_package m)),
            (''name'', quoted (pm_name m)), (''version'', quoted (pm_version m)),
            (''architecture'', quoted (pm_architecture m)), (''signature'', quoted (pm_signature m)),
            (''dependencies'', json_array (pm_dependencies m)), (''scripts'', json_array (pm_scripts m)),
            (''hooks'', json_array (pm_hooks m)), (''files'', json_array (pm_files m)),
            (''executables'', json_array (pm_executables m)),
            (''executable_fingerprints'', json_array (pm_executable_fingerprints m))] @ newline)"

definition summary_json :: "package_result \<Rightarrow> string" where
  "summary_json r =
     json_members
       [(''schema_version'', ''2''), (''ok'', json_bool (pr_ok r)),
        (''risk_score'', dec_int (pr_risk_score r)), (''verdict'', quoted (pr_verdict r)),
        (''coverage_confidence'', dec_int (pr_coverage_confidence r))] @ newline"

definition filesystem_json :: "package_result \<Rightarrow> string" where
  "filesystem_json r =
     json_members
       [(''schema_version'', ''2''), (''created'', json_array (pr_created r)),
        (''modified'', json_array (pr_modified r)), (''deleted'', json_array (pr_deleted r)),
        (''mode_changed'', json_array (pr_mode_changed r)),
        (''ownership_changed'', json_array (pr_ownership_changed r)),
        (''hash_changed'', json_array (pr_hash_changed r))] @ newline"

definition events_json :: "string list \<Rightarrow> string" where
  "events_json events =
     json_members [(''schema_version'', ''1''), (''events'', json_object_array events)] @ newline"

definition risk_json :: "package_result \<Rightarrow> string" where
  "risk_json r =
     json_members
       [(''schema_version'', ''2''), (''score'', dec_int (pr_risk_score r)),
        (''verdict'', quoted (pr_verdict r)), (''factors'', json_array (pr_risk_factors r)),
        (''coverage'', json_array (pr_coverage r)),
        (''coverage_confidence'', dec_int (pr_coverage_confidence r))] @ newline"

definition event_lines :: "string list \<Rightarrow> string" where
  "event_lines events = concat (map (\<lambda>e. e @ newline) events)"

text \<open>The conjunction of the six writes stops at the first that fails. A write is the name of the
  file in the session directory with its text.\<close>

fun write_while_good :: "(string \<Rightarrow> bool) \<Rightarrow> (string \<times> string) list \<Rightarrow> (string \<times> string) list \<times> bool" where
  "write_while_good write [] = ([], True)"
| "write_while_good write ((name, text) # fs) =
     (if write name
      then (let (written, ok) = write_while_good write fs in ((name, text) # written, ok))
      else ([], False))"

definition artifact_files :: "package_result \<Rightarrow> (string \<times> string) list" where
  "artifact_files r =
     [(''metadata.json'', metadata_json r), (''summary.json'', summary_json r),
      (''filesystem.json'', filesystem_json r), (''processes.json'', events_json (pr_process_events r)),
      (''network.json'', events_json (pr_network_events r)), (''risk.json'', risk_json r)]"

definition write_artifacts ::
  "bool \<Rightarrow> (string \<Rightarrow> bool) \<Rightarrow> package_result \<Rightarrow> (string \<times> string) list \<times> bool" where
  "write_artifacts directory write r =
     (if \<not> directory then ([], False)
      else
        (let (written, ok) = write_while_good write (artifact_files r)
         in if write ''events.jsonl''
            then (written @ [(''events.jsonl'', event_lines (pr_events r))], ok)
            else (written, False)))"

section \<open>Printing\<close>

text \<open>A path is streamed with \<^verbatim>\<open>std::quoted\<close>.\<close>

definition stream_path :: "string \<Rightarrow> string" where
  "stream_path p =
     quote @ concat (map (\<lambda>c. if c = dquote \<or> c = backslash then [backslash, c] else [c]) p) @ quote"

definition print_json :: "package_result \<Rightarrow> string" where
  "print_json r =
     (let m = pr_metadata r
      in json_members
           [(''ok'', json_bool (pr_ok r)), (''error'', quoted (pr_error r)),
            (''package'', quoted (pm_package m)), (''name'', quoted (pm_name m)),
            (''version'', quoted (pm_version m)), (''architecture'', quoted (pm_architecture m)),
            (''signature'', quoted (pm_signature m)), (''risk_score'', dec_int (pr_risk_score r)),
            (''risk_level'', quoted (pr_risk_level r)), (''risk_action'', quoted (pr_risk_action r)),
            (''verdict'', quoted (pr_verdict r)), (''baseline'', json_bool (pr_baseline r)),
            (''session'', quoted (pr_session r)), (''created'', dec_nat (length (pr_created r))),
            (''modified'', dec_nat (length (pr_modified r))),
            (''deleted'', dec_nat (length (pr_deleted r)))] @ newline)"

definition print_terminal :: "package_result \<Rightarrow> string" where
  "print_terminal r =
     (let m = pr_metadata r
      in (if pr_ok r then ''package: '' @ pm_name m @ '' '' @ pm_version m else ''package: rejected'') @ newline @
         (if pr_error r \<noteq> [] then ''error: '' @ pr_error r @ newline else []) @
         (if pr_ok r then
            ''architecture: '' @ pm_architecture m @ '' signature: '' @ pm_signature m @
            newline @ ''risk: '' @ dec_int (pr_risk_score r) @ '' verdict: '' @ pr_verdict r @
            newline @ ''files: '' @ dec_nat (length (pm_files m)) @
            '' executables: '' @ dec_nat (length (pm_executables m)) @
            newline @ ''session: '' @ stream_path (pr_session r) @ newline
          else []))"

definition print_result :: "package_result \<Rightarrow> package_options \<Rightarrow> string" where
  "print_result r options =
     (if pr_report_data r \<noteq> [] \<and> (po_format options = ''json'' \<or> po_format options = ''jsonl'')
      then pr_report_data r
      else if po_format options = ''jsonl'' then event_lines (pr_events r)
      else if po_format options = ''json'' then print_json r
      else if pr_report_data r \<noteq> [] then pr_report_data r
      else print_terminal r)"

section \<open>Reports\<close>

definition fetch :: "string \<Rightarrow> package_options \<Rightarrow> package_result" where
  "fetch target options =
     with_error ''fetch unavailable: download phase requires isolated network sandbox'' empty_result"

definition compare_json :: "string \<Rightarrow> string \<Rightarrow> string \<Rightarrow> version_delta \<Rightarrow> string" where
  "compare_json name from to d =
     json_members
       [(''schema_version'', ''1''), (''package'', quoted name), (''from'', quoted from),
        (''to'', quoted to), (''compared'', json_bool (de_compared d)),
        (''from_baseline'', json_bool (de_from_baseline d)),
        (''identity_changed'', json_bool (de_identity_changed d)),
        (''source_changed'', json_bool (de_source_changed d)),
        (''dependencies_changed'', json_bool (de_dependencies_changed d)),
        (''added_events'', json_array (de_added_events d)),
        (''removed_events'', json_array (de_removed_events d))] @ newline"

text \<open>What a use of the database meets: whether its parent directory can be made, whether the file
  opens, and the outcome of the statements of each operation. A build without SQLite has no
  \<open>db_io\<close>.\<close>

record db_io =
  dio_parent_error :: "string option"
  dio_open_error :: "string option"
  dio_migrate :: sql_calls
  dio_previous :: sql_calls
  dio_store :: sql_calls
  dio_compare :: sql_calls
  dio_rowid :: rowid_choice

definition comparison_failed :: "string \<Rightarrow> package_result" where
  "comparison_failed what = with_error (''SQLite comparison failed: '' @ what) empty_result"

definition comparison :: "string \<Rightarrow> string \<Rightarrow> string \<Rightarrow> version_delta \<Rightarrow> package_result" where
  "comparison name from to d =
     (let r = empty_result\<lparr>pr_ok := de_compared d, pr_report_data := compare_json name from to d\<rparr>
      in if \<not> pr_ok r then with_error ''no observations for requested versions'' r else r)"

definition compare_versions ::
  "db_io option \<Rightarrow> string \<Rightarrow> string \<Rightarrow> string \<Rightarrow> database \<Rightarrow> database \<times> package_result" where
  "compare_versions build name from to db =
     (case build of
        None \<Rightarrow> (db, with_error ''SQLite baseline storage unavailable'' empty_result)
      | Some io \<Rightarrow>
          (case dio_parent_error io of
             Some what \<Rightarrow>
               (db, with_error (''SQLite database parent creation failed: '' @ what) empty_result)
           | None \<Rightarrow>
               (case open_database (dio_open_error io) (dio_migrate io) db of
                  (db1, Inl what) \<Rightarrow> (db1, comparison_failed what)
                | (db1, Inr _) \<Rightarrow>
                    (case compare_database (dio_compare io) name from to db1 of
                       Inl what \<Rightarrow> (db1, comparison_failed what)
                     | Inr d \<Rightarrow> (db1, comparison name from to d)))))"

text \<open>The content of \<^verbatim>\<open>summary.json\<close> is the parameter; \<^term>\<open>None\<close> when it cannot be
  opened.\<close>

definition report :: "string option \<Rightarrow> string \<Rightarrow> package_result" where
  "report summary session =
     (let r = empty_result\<lparr>pr_session := session\<rparr>
      in case summary of
           None \<Rightarrow> with_error (''session report missing: '' @ path_append session ''summary.json'') r
         | Some text \<Rightarrow> r\<lparr>pr_ok := True, pr_report_data := text\<rparr>)"

end
