(* ===== verification/Observation.thy ===== *)
theory Observation
  imports Package_Inspect
begin

text \<open>
  The observation of scripts, hooks and executables (\<^verbatim>\<open>src/package/observation.cpp\<close>).
  \<open>run_one\<close> is the whole of \<^verbatim>\<open>run_one\<close> on the answers of the file system and of the
  sandbox for one path. The worker threads of \<^verbatim>\<open>observe\<close> are a step relation on the shared
  index, the state of each worker and the array of partial results: a step is one action of one
  worker, and the main thread's \<^verbatim>\<open>workers.clear()\<close> is part of the state, since the
  destructor of a \<^verbatim>\<open>std::jthread\<close> requests a stop before it joins.
\<close>

section \<open>Results\<close>

record observed =
  ob_events :: "string list"
  ob_processes :: "string list"
  ob_network :: "string list"
  ob_smoke :: "string list"
  ob_risk_factors :: "string list"
  ob_coverage :: "string list"

definition no_observation :: observed where
  "no_observation = \<lparr>ob_events = [], ob_processes = [], ob_network = [], ob_smoke = [],
     ob_risk_factors = [], ob_coverage = []\<rparr>"

definition add_event :: "string \<Rightarrow> observed \<Rightarrow> observed" where
  "add_event e r = r\<lparr>ob_events := ob_events r @ [e]\<rparr>"

definition add_process :: "string \<Rightarrow> observed \<Rightarrow> observed" where
  "add_process e r = r\<lparr>ob_processes := ob_processes r @ [e]\<rparr>"

definition add_network :: "string \<Rightarrow> observed \<Rightarrow> observed" where
  "add_network e r = r\<lparr>ob_network := ob_network r @ [e]\<rparr>"

definition add_smoke :: "string \<Rightarrow> observed \<Rightarrow> observed" where
  "add_smoke e r = r\<lparr>ob_smoke := ob_smoke r @ [e]\<rparr>"

definition add_factor :: "string \<Rightarrow> observed \<Rightarrow> observed" where
  "add_factor e r = r\<lparr>ob_risk_factors := ob_risk_factors r @ [e]\<rparr>"

definition add_coverage :: "string \<Rightarrow> observed \<Rightarrow> observed" where
  "add_coverage e r = r\<lparr>ob_coverage := ob_coverage r @ [e]\<rparr>"

lemmas add_defs = add_event_def add_process_def add_network_def add_smoke_def add_factor_def
  add_coverage_def

section \<open>One observation\<close>

definition escape_char :: "char \<Rightarrow> string" where
  "escape_char c =
     (let pre = (if c = dquote \<or> c = backslash then [backslash] else [])
      in if c = CHR 0x0A then pre @ [backslash, CHR ''n'']
         else if c = CHR 0x0D then pre @ [backslash, CHR ''r'']
         else pre @ [c])"

definition escape :: "string \<Rightarrow> string" where
  "escape value = concat (map escape_char value)"

text \<open>An event object of the given type with further members.\<close>

definition event_object :: "string \<Rightarrow> string \<Rightarrow> string" where
  "event_object type rest =
     ''{'' @ quote @ ''schema_version'' @ quote @ '':1'' @ json_key ''type'' @ quote @ type @ quote @ rest @ ''}''"

definition string_member :: "string \<Rightarrow> string \<Rightarrow> string" where
  "string_member key text = json_key key @ quote @ text @ quote"

record observe_options =
  oo_timeout :: "64 word"
  oo_global_timeout :: "64 word"
  oo_network :: bool
  oo_run_all :: bool
  oo_max_workers :: nat
  oo_output_limit :: nat
  oo_cgroup_root :: string

text \<open>The answers for one path: whether it is staged, the writable root of an isolated session (or
  \<^term>\<open>None\<close> when none could be made), whether the file is in it, the name of the task's control
  group and whether it could be created, and the captured run.\<close>

record observe_env =
  oe_staged :: bool
  oe_session :: "string option"
  oe_in_session :: bool
  oe_cgroup_name :: string
  oe_cgroup_created :: bool
  oe_run :: "string list \<Rightarrow> sandbox_config \<Rightarrow> captured"

definition observe_config :: "observe_options \<Rightarrow> string \<Rightarrow> string \<Rightarrow> sandbox_config" where
  "observe_config options root task_cgroup =
     default_config\<lparr>network_namespace := True, mount_namespace := True, sc_rootfs := root,
       read_only_root := False, clean_environment := True, trace_events := True,
       cgroup := (cgroup default_config)\<lparr>cg_path := task_cgroup\<rparr>,
       cpu_seconds := oo_timeout options, sc_max_processes := 64, max_file_bytes := 64 * 1024 * 1024,
       seccomp_allowlist := default_package_syscalls\<rparr>"

definition trace_marker :: string where
  "trace_marker = ''EXECELL_TRACE:''"

definition note_trace :: "string \<Rightarrow> observed \<Rightarrow> observed" where
  "note_trace event r =
     (let r1 = add_event event r;
          r2 = (if contains_str event ''network_'' then add_network event r1 else r1)
      in if contains_str event ''process_'' then add_process event r2 else r2)"

text \<open>The loop over the trace lines of standard error.\<close>

function trace_lines :: "string \<Rightarrow> nat \<Rightarrow> string list" where
  "trace_lines err position =
     (case find_str_from trace_marker err position of
        None \<Rightarrow> []
      | Some p \<Rightarrow>
          (let begin = p + length trace_marker
           in case find_if_from (\<lambda>c. c = line_feed) err begin of
                None \<Rightarrow> substr err begin (length err - begin) # trace_lines err (length err)
              | Some e \<Rightarrow> substr err begin (e - begin) # trace_lines err (e + 1)))"
  by pat_completeness auto
termination
proof (relation "measure (\<lambda>(err, position). length err + 1 - position)", goal_cases)
  case 1
  then show ?case by simp
next
  case (2 err position p x)
  have "0 < length trace_marker" by (simp add: trace_marker_def)
  with find_str_from_bounds [OF 2(1)] have "position < length err" by linarith
  then show ?case by simp
next
  case (3 err position p x e)
  from find_if_from_bounds [OF 3(3)] 3(2) have "p \<le> e" "e < length err" by auto
  with find_str_from_bounds(1) [OF 3(1)] show ?case by simp
qed

declare trace_lines.simps [simp del]

definition flag :: "string \<Rightarrow> string \<times> string \<Rightarrow> observed \<Rightarrow> observed" where
  "flag combined rule r =
     (case rule of (text, factor) \<Rightarrow> if contains_str combined text then add_factor factor r else r)"

definition flag_rules :: "(string \<times> string) list" where
  "flag_rules =
     [(''systemctl'', ''service activation attempt''), (''/etc/systemd'', ''service persistence attempt''),
      (''/etc/cron'', ''persistence attempt''), (''setuid'', ''privilege change attempt''),
      (''setcap'', ''capability change attempt'')]"

text \<open>From the captured run on.\<close>

definition note_captured :: "string \<Rightarrow> bool \<Rightarrow> captured \<Rightarrow> observed \<Rightarrow> observed" where
  "note_captured path script c r0 =
     (let kind = (if script then ''maintainer_script'' else ''executable_smoke'');
          path_member = string_member ''path'' (escape path);
          r1 = add_event (event_object kind
                 (path_member @ json_key ''status'' @ dec_int (cap_status c) @
                  json_key ''timed_out'' @ json_bool (cap_timed_out c) @
                  string_member ''stdout'' (escape (cap_stdout c)) @
                  string_member ''stderr'' (escape (cap_stderr c)))) r0;
          first_path = ''{'' @ quote @ ''path'' @ quote @ '':'' @ quote @ escape path @ quote;
          r2 = add_process (first_path @ json_key ''status'' @ dec_int (cap_status c) @ ''}'') r1;
          r3 = add_network (first_path @ json_key ''isolated'' @ ''true}'') r2;
          r4 = fold note_trace (trace_lines (cap_stderr c) 0) r3;
          r5 = add_smoke (path @ '':'' @ (if cap_status c = 0 then ''passed'' else ''failed'') @ '':status='' @
                 dec_int (cap_status c) @ (if cap_timed_out c then '':timeout'' else [])) r4;
          r6 = add_coverage (path @ '':'' @ (if cap_timed_out c then ''timed-out'' else ''executed'')) r5
      in fold (flag (cap_stdout c @ newline @ cap_stderr c)) flag_rules r6)"

text \<open>From the isolated session on.\<close>

definition run_isolated ::
  "observe_env \<Rightarrow> observe_options \<Rightarrow> string \<Rightarrow> bool \<Rightarrow> string \<Rightarrow> observed \<Rightarrow> observed" where
  "run_isolated env options path script root r =
     (if \<not> oe_in_session env then
        add_coverage (path @ '':rejected:missing-file'')
          (add_factor ''per-observation snapshot missing staged file'' r)
      else if oo_cgroup_root options \<noteq> [] \<and> \<not> oe_cgroup_created env then
        add_factor ''cgroup task creation failed'' r
      else
        (let task_cgroup = (if oo_cgroup_root options = [] then []
                            else path_append (oo_cgroup_root options) (oe_cgroup_name env));
             config = observe_config options root task_cgroup;
             command = (if script then [''/bin/sh'', ''/'' @ path, ''install''] else [''/'' @ path])
         in note_captured path script (oe_run env command config)
              (add_event (event_object ''attestation'' (json_key ''manifest'' @ attestation config)) r)))"

definition run_one ::
  "observe_env \<Rightarrow> observe_options \<Rightarrow> string \<Rightarrow> bool \<Rightarrow> observed \<Rightarrow> observed" where
  "run_one env options path script r =
     (if is_absolute path \<or> contains_str path ''..'' then r
      else if \<not> oe_staged env then
        add_coverage (path @ '':skipped:not-staged'')
          (add_event (event_object ''observation_skipped''
             (string_member ''path'' (escape path) @ string_member ''reason'' ''not staged'')) r)
      else case oe_session env of
             None \<Rightarrow>
               add_coverage (path @ '':rejected:snapshot'')
                 (add_event (event_object ''observation_rejected'' (string_member ''reason'' ''snapshot''))
                   (add_factor ''per-observation rootfs snapshot unavailable'' r))
           | Some root \<Rightarrow> run_isolated env options path script root r)"

section \<open>Workers\<close>

record observe_task =
  ot_path :: string
  ot_script :: bool

definition observe_tasks :: "string list \<Rightarrow> string list \<Rightarrow> string list \<Rightarrow> observe_task list" where
  "observe_tasks scripts hooks executables =
     map (\<lambda>p. \<lparr>ot_path = p, ot_script = True\<rparr>) scripts @
     map (\<lambda>p. \<lparr>ot_path = p, ot_script = True\<rparr>) hooks @
     map (\<lambda>p. \<lparr>ot_path = p, ot_script = False\<rparr>) executables"

definition worker_count :: "observe_options \<Rightarrow> observe_task list \<Rightarrow> nat" where
  "worker_count options tasks = min (max (oo_max_workers options) 1) (length tasks)"

text \<open>A worker is at the head of its loop, past the check of its stop token, holds a task index it
  has taken, or has returned.\<close>

datatype worker = AtHead | PastCheck | Holding nat | Returned

text \<open>\<open>wp_stops\<close> counts the workers whose destructor has begun: a stop was requested of exactly
  these, in order.\<close>

record pool =
  wp_next :: nat
  wp_workers :: "worker list"
  wp_stops :: nat
  wp_partial :: "observed list"

definition start_pool :: "observe_options \<Rightarrow> observe_task list \<Rightarrow> pool" where
  "start_pool options tasks =
     \<lparr>wp_next = 0, wp_workers = replicate (worker_count options tasks) AtHead, wp_stops = 0,
      wp_partial = replicate (length tasks) no_observation\<rparr>"

definition expired :: "observe_task \<Rightarrow> observed \<Rightarrow> observed" where
  "expired task r =
     add_coverage (ot_path task @ '':skipped:global-timeout'')
       (add_factor ''global observation budget exhausted''
         (add_smoke (ot_path task @ '':skipped:global-timeout'') r))"

definition worker_failed :: "string option \<Rightarrow> observed \<Rightarrow> observed" where
  "worker_failed what r =
     add_event (event_object ''worker_failure'' [])
       (add_factor (''observation worker failed: '' @
          (case what of None \<Rightarrow> ''unknown error'' | Some w \<Rightarrow> w)) r)"

text \<open>\<open>remaining\<close> is what is left of the global budget, in seconds, rounded as the source rounds
  it.\<close>

definition task_options :: "observe_options \<Rightarrow> 64 word \<Rightarrow> observe_options" where
  "task_options options seconds = options\<lparr>oo_timeout := min (oo_timeout options) seconds\<rparr>"

definition set_worker :: "nat \<Rightarrow> worker \<Rightarrow> pool \<Rightarrow> pool" where
  "set_worker w state p = p\<lparr>wp_workers := (wp_workers p)[w := state]\<rparr>"

definition set_partial :: "nat \<Rightarrow> observed \<Rightarrow> pool \<Rightarrow> pool" where
  "set_partial i r p = p\<lparr>wp_partial := (wp_partial p)[i := r]\<rparr>"

text \<open>The steps of the threads. \<^const>\<open>run_one\<close> is a single step: between taking an index and writing
  its result a worker touches no data of the pool. Three things lie outside this picture: an observation
  is taken to return, each task has an environment of its own (descriptor numbers are not shared between
  the threads), and a task that throws leaves only its failure in its result, not what \<^verbatim>\<open>run_one\<close> had
  added to it before.\<close>

inductive pool_step :: "observe_options \<Rightarrow> (nat \<Rightarrow> observe_env) \<Rightarrow> observe_task list \<Rightarrow> pool \<Rightarrow> pool \<Rightarrow> bool"
  for options envs tasks where
  stop_seen: "\<lbrakk>w < length (wp_workers p); wp_workers p ! w = AtHead; w < wp_stops p\<rbrakk> \<Longrightarrow>
    pool_step options envs tasks p (set_worker w Returned p)"
| no_stop: "\<lbrakk>w < length (wp_workers p); wp_workers p ! w = AtHead; \<not> w < wp_stops p\<rbrakk> \<Longrightarrow>
    pool_step options envs tasks p (set_worker w PastCheck p)"
| take_task: "\<lbrakk>w < length (wp_workers p); wp_workers p ! w = PastCheck; wp_next p < length tasks\<rbrakk> \<Longrightarrow>
    pool_step options envs tasks p ((set_worker w (Holding (wp_next p)) p)\<lparr>wp_next := wp_next p + 1\<rparr>)"
| out_of_tasks: "\<lbrakk>w < length (wp_workers p); wp_workers p ! w = PastCheck; \<not> wp_next p < length tasks\<rbrakk> \<Longrightarrow>
    pool_step options envs tasks p ((set_worker w Returned p)\<lparr>wp_next := wp_next p + 1\<rparr>)"
| budget_exhausted: "\<lbrakk>w < length (wp_workers p); wp_workers p ! w = Holding i\<rbrakk> \<Longrightarrow>
    pool_step options envs tasks p
      (set_worker w Returned (set_partial i (expired (tasks ! i) (wp_partial p ! i)) p))"
| task_run: "\<lbrakk>w < length (wp_workers p); wp_workers p ! w = Holding i\<rbrakk> \<Longrightarrow>
    pool_step options envs tasks p
      (set_worker w AtHead (set_partial i
        (run_one (envs i) (task_options options seconds) (ot_path (tasks ! i)) (ot_script (tasks ! i))
          (wp_partial p ! i)) p))"
| task_threw: "\<lbrakk>w < length (wp_workers p); wp_workers p ! w = Holding i\<rbrakk> \<Longrightarrow>
    pool_step options envs tasks p
      (set_worker w AtHead (set_partial i (worker_failed what (wp_partial p ! i)) p))"
| destroy_next: "\<lbrakk>wp_stops p < length (wp_workers p);
      list_all (\<lambda>s. s = Returned) (take (wp_stops p) (wp_workers p))\<rbrakk> \<Longrightarrow>
    pool_step options envs tasks p (p\<lparr>wp_stops := wp_stops p + 1\<rparr>)"

inductive_cases pool_stepE: "pool_step options envs tasks p p'"

definition pool_finished :: "pool \<Rightarrow> bool" where
  "pool_finished p \<longleftrightarrow>
     wp_stops p = length (wp_workers p) \<and> list_all (\<lambda>s. s = Returned) (wp_workers p)"

section \<open>The whole observation\<close>

definition merge :: "observed \<Rightarrow> observed \<Rightarrow> observed" where
  "merge part r =
     r\<lparr>ob_events := ob_events r @ ob_events part, ob_processes := ob_processes r @ ob_processes part,
       ob_network := ob_network r @ ob_network part, ob_smoke := ob_smoke r @ ob_smoke part,
       ob_risk_factors := ob_risk_factors r @ ob_risk_factors part,
       ob_coverage := ob_coverage r @ ob_coverage part\<rparr>"

definition observe_start :: "observe_options \<Rightarrow> observe_task list \<Rightarrow> observed" where
  "observe_start options tasks =
     (let r = no_observation\<lparr>ob_events :=
            [event_object ''observation_start''
               (string_member ''network'' (if oo_network options then ''requested'' else ''isolated'')),
             event_object ''sandbox_policy''
               (json_key ''no_new_privileges'' @ ''true'' @ string_member ''capabilities'' ''dropped'')]\<rparr>
      in if tasks = [] then add_smoke ''*:skipped:no executables discovered'' r else r)"

text \<open>\<open>present\<close> says which paths exist below the root, \<open>modes\<close> the permissions of the
  entries of the walk (\<^term>\<open>None\<close> when they cannot be read).\<close>

definition observe_finish :: "(string \<Rightarrow> bool) \<Rightarrow> 32 word option list \<Rightarrow> observed \<Rightarrow> observed" where
  "observe_finish present modes r0 =
     (let r1 = (if present ''etc/systemd/system'' \<or> present ''etc/init.d''
                then add_event (event_object ''service_path'' [])
                       (add_factor ''service activation or persistence path present'' r0) else r0);
          r2 = (if present ''etc/cron.d'' \<or> present ''etc/cron.hourly'' \<or> present ''etc/cron.daily''
                then add_event (event_object ''persistence_path'' [])
                       (add_factor ''scheduled persistence path present'' r1) else r1);
          r3 = (if list_ex (\<lambda>m. case m of None \<Rightarrow> False | Some mode \<Rightarrow> mode AND 0x800 \<noteq> 0) modes
                then add_event (event_object ''privilege_change'' [])
                       (add_factor ''setuid payload present'' r2) else r2)
      in add_event (event_object ''observation_complete'' []) r3)"

definition observe_result ::
  "observe_options \<Rightarrow> (string \<Rightarrow> bool) \<Rightarrow> 32 word option list \<Rightarrow> observe_task list \<Rightarrow> pool \<Rightarrow> observed" where
  "observe_result options present modes tasks p =
     observe_finish present modes (fold merge (wp_partial p) (observe_start options tasks))"

section \<open>Properties of one observation\<close>

lemma note_trace_coverage [simp]: "ob_coverage (note_trace e r) = ob_coverage r"
  by (simp add: note_trace_def add_defs Let_def)

lemma flag_coverage [simp]: "ob_coverage (flag c rule r) = ob_coverage r"
  by (simp add: flag_def add_defs split: prod.split)

lemma fold_coverage:
  "(\<And>x r. ob_coverage (f x r) = ob_coverage r) \<Longrightarrow> ob_coverage (fold f xs r) = ob_coverage r"
  by (induction xs arbitrary: r) simp_all

lemma note_captured_coverage:
  "ob_coverage (note_captured path script c r) =
     ob_coverage r @ [path @ '':'' @ (if cap_timed_out c then ''timed-out'' else ''executed'')]"
proof -
  have fl: "ob_coverage (fold (flag x) xs r') = ob_coverage r'" for x xs r' by (rule fold_coverage) simp
  have tr: "ob_coverage (fold note_trace xs r') = ob_coverage r'" for xs r' by (rule fold_coverage) simp
  show ?thesis unfolding note_captured_def Let_def fl by (simp add: add_defs tr)
qed

lemma run_one_coverage: "length (ob_coverage (run_one env options path script r)) \<le> length (ob_coverage r) + 1"
  unfolding run_one_def run_isolated_def Let_def
  by (simp add: add_coverage_def add_event_def add_factor_def note_captured_coverage split: option.split)

text \<open>What one entry of the array of partial results can be.\<close>

definition partial_of ::
  "observe_options \<Rightarrow> (nat \<Rightarrow> observe_env) \<Rightarrow> observe_task list \<Rightarrow> nat \<Rightarrow> observed \<Rightarrow> bool" where
  "partial_of options envs tasks i r \<longleftrightarrow>
     r = no_observation \<or> r = expired (tasks ! i) no_observation \<or>
     (\<exists>what. r = worker_failed what no_observation) \<or>
     (\<exists>seconds. r = run_one (envs i) (task_options options seconds) (ot_path (tasks ! i))
                      (ot_script (tasks ! i)) no_observation)"

lemma partial_of_coverage: "partial_of options envs tasks i r \<Longrightarrow> length (ob_coverage r) \<le> 1"
  using run_one_coverage [of _ _ _ _ no_observation]
  by (auto simp: partial_of_def expired_def worker_failed_def add_defs no_observation_def)

section \<open>Properties of the pool\<close>

definition held :: "pool \<Rightarrow> nat \<Rightarrow> bool" where
  "held p i \<longleftrightarrow> Holding i \<in> set (wp_workers p)"

definition pool_ok :: "observe_options \<Rightarrow> (nat \<Rightarrow> observe_env) \<Rightarrow> observe_task list \<Rightarrow> pool \<Rightarrow> bool" where
  "pool_ok options envs tasks p \<longleftrightarrow>
     length (wp_partial p) = length tasks \<and> wp_stops p \<le> length (wp_workers p) \<and>
     (\<forall>i. held p i \<longrightarrow> i < wp_next p \<and> i < length tasks) \<and>
     (\<forall>w < length (wp_workers p). \<forall>w' < length (wp_workers p). \<forall>i.
        wp_workers p ! w = Holding i \<and> wp_workers p ! w' = Holding i \<longrightarrow> w = w') \<and>
     (\<forall>i < length tasks. partial_of options envs tasks i (wp_partial p ! i) \<and>
        (wp_next p \<le> i \<or> held p i \<longrightarrow> wp_partial p ! i = no_observation))"

lemma start_pool_ok: "pool_ok options envs tasks (start_pool options tasks)"
  by (auto simp: pool_ok_def start_pool_def held_def partial_of_def)

lemma held_nth: "w < length (wp_workers p) \<Longrightarrow> wp_workers p ! w = Holding i \<Longrightarrow> held p i"
  unfolding held_def by (metis nth_mem)

text \<open>A worker that holds nothing afterwards.\<close>

lemma held_release:
  assumes "pool_ok options envs tasks p" "w < length (wp_workers p)" "s = AtHead \<or> s = PastCheck \<or> s = Returned"
  shows "held (set_worker w s p) i \<longleftrightarrow> held p i \<and> wp_workers p ! w \<noteq> Holding i"
proof
  assume "held (set_worker w s p) i"
  then obtain v where v: "v < length (wp_workers p)" "(wp_workers p)[w := s] ! v = Holding i"
    by (auto simp: held_def set_worker_def in_set_conv_nth)
  with assms(3) have "v \<noteq> w" by auto
  with v have "wp_workers p ! v = Holding i" by simp
  moreover have "wp_workers p ! w \<noteq> Holding i"
    using calculation v(1) \<open>v \<noteq> w\<close> assms(1,2) by (auto simp: pool_ok_def)
  ultimately show "held p i \<and> wp_workers p ! w \<noteq> Holding i" using v(1) held_nth by blast
next
  assume "held p i \<and> wp_workers p ! w \<noteq> Holding i"
  then obtain v where "v < length (wp_workers p)" "wp_workers p ! v = Holding i" "v \<noteq> w"
    by (auto simp: held_def in_set_conv_nth)
  then have "(wp_workers p)[w := s] ! v = Holding i" "v < length ((wp_workers p)[w := s])" by simp_all
  then show "held (set_worker w s p) i" unfolding held_def set_worker_def by (metis nth_mem pool.select_convs(2) pool.surjective pool.update_convs(2))
qed

lemma set_partial_frame [simp]:
  "wp_workers (set_partial i r p) = wp_workers p" "wp_next (set_partial i r p) = wp_next p"
  "wp_stops (set_partial i r p) = wp_stops p" "wp_partial (set_partial i r p) = (wp_partial p)[i := r]"
  "wp_workers (set_worker w s p) = (wp_workers p)[w := s]" "wp_next (set_worker w s p) = wp_next p"
  "wp_stops (set_worker w s p) = wp_stops p" "wp_partial (set_worker w s p) = wp_partial p"
  by (simp_all add: set_partial_def set_worker_def)

lemma held_set_partial [simp]: "held (set_partial i r p) j = held p j"
  by (simp add: held_def)

lemma held_frame [simp]: "held (p\<lparr>wp_next := n\<rparr>) j = held p j" "held (p\<lparr>wp_stops := n\<rparr>) j = held p j"
  by (simp_all add: held_def)

lemma unique_update:
  assumes "\<And>w w' i. w < length xs \<Longrightarrow> w' < length xs \<Longrightarrow> xs ! w = Holding i \<Longrightarrow> xs ! w' = Holding i \<Longrightarrow> w = w'"
    and "\<And>i. s = Holding i \<Longrightarrow> Holding i \<notin> set xs"
    and "v < length xs" "v' < length xs" "xs[w := s] ! v = Holding i" "xs[w := s] ! v' = Holding i"
  shows "v = v'"
proof (cases "v = w"; cases "v' = w")
  assume "v = w" "v' \<noteq> w"
  with assms show ?thesis by (metis nth_list_update_eq nth_list_update_neq nth_mem)
next
  assume "v \<noteq> w" "v' = w"
  with assms show ?thesis by (metis nth_list_update_eq nth_list_update_neq nth_mem)
next
  assume "v \<noteq> w" "v' \<noteq> w"
  with assms show ?thesis by simp
qed simp

lemma pool_ok_release:
  assumes "pool_ok options envs tasks p" "w < length (wp_workers p)" "s = AtHead \<or> s = PastCheck \<or> s = Returned"
    and "\<And>i. wp_workers p ! w \<noteq> Holding i"
  shows "pool_ok options envs tasks (set_worker w s p)"
proof -
  have un: "v = v'" if "v < length (wp_workers p)" "v' < length (wp_workers p)"
    "(wp_workers p)[w := s] ! v = Holding i" "(wp_workers p)[w := s] ! v' = Holding i" for v v' i
    by (rule unique_update [of "wp_workers p" s v v' w i]) (use that assms in \<open>auto simp: pool_ok_def\<close>)
  show ?thesis
    using assms(1) held_release [OF assms(1-3)] assms(4) un
    unfolding pool_ok_def by simp
qed

lemma pool_ok_deliver:
  assumes "pool_ok options envs tasks p" "w < length (wp_workers p)" "s = AtHead \<or> s = Returned"
    and "wp_workers p ! w = Holding i" and "partial_of options envs tasks i r"
  shows "pool_ok options envs tasks (set_worker w s (set_partial i r p))"
proof -
  let ?q = "set_worker w s (set_partial i r p)"
  have un: "v = v'" if "v < length (wp_workers p)" "v' < length (wp_workers p)"
    "(wp_workers p)[w := s] ! v = Holding k" "(wp_workers p)[w := s] ! v' = Holding k" for v v' k
    by (rule unique_update [of "wp_workers p" s v v' w k]) (use that assms in \<open>auto simp: pool_ok_def\<close>)
  have hp: "held p i" using assms(2,4) by (rule held_nth)
  have eq: "set_worker w s (set_partial i r p) = set_partial i r (set_worker w s p)"
    by (simp add: set_worker_def set_partial_def)
  have h: "held ?q k \<longleftrightarrow> held p k \<and> k \<noteq> i" for k
    unfolding eq using held_release [OF assms(1,2), of s k] assms(3,4) by auto
  have i: "i < length tasks" "i < wp_next p" using assms(1) hp by (auto simp: pool_ok_def)
  show ?thesis
    using assms(1,5) un i h unfolding pool_ok_def
    by (auto simp: nth_list_update)
qed

lemma pool_ok_take:
  assumes "pool_ok options envs tasks p" "w < length (wp_workers p)" "wp_workers p ! w = PastCheck"
    "wp_next p < length tasks"
  shows "pool_ok options envs tasks ((set_worker w (Holding (wp_next p)) p)\<lparr>wp_next := wp_next p + 1\<rparr>)"
proof -
  let ?n = "wp_next p"
  have free: "\<not> held p ?n" using assms(1) by (auto simp: pool_ok_def)
  have un: "v = v'" if "v < length (wp_workers p)" "v' < length (wp_workers p)"
    "(wp_workers p)[w := Holding ?n] ! v = Holding k" "(wp_workers p)[w := Holding ?n] ! v' = Holding k" for v v' k
    by (rule unique_update [of "wp_workers p" "Holding ?n" v v' w k])
      (use that assms free in \<open>auto simp: pool_ok_def held_def\<close>)
  have h: "held (set_worker w (Holding ?n) p) k \<Longrightarrow> held p k \<or> k = ?n" for k
    unfolding held_def using set_update_subset_insert by fastforce
  have now: "held p k \<or> ?n \<le> k \<Longrightarrow> k < length tasks \<Longrightarrow> wp_partial p ! k = no_observation" for k
    using assms(1) by (auto simp: pool_ok_def)
  have below: "held p k \<Longrightarrow> k < ?n \<and> k < length tasks" for k using assms(1) by (auto simp: pool_ok_def)
  show ?thesis
    unfolding pool_ok_def
  proof (intro conjI allI impI)
    fix k assume "held ((set_worker w (Holding ?n) p)\<lparr>wp_next := ?n + 1\<rparr>) k"
    with h [of k] below [of k] assms(4)
    show "k < wp_next ((set_worker w (Holding ?n) p)\<lparr>wp_next := ?n + 1\<rparr>)" "k < length tasks" by auto
  next
    fix k assume "k < length tasks"
      "wp_next ((set_worker w (Holding ?n) p)\<lparr>wp_next := ?n + 1\<rparr>) \<le> k \<or>
       held ((set_worker w (Holding ?n) p)\<lparr>wp_next := ?n + 1\<rparr>) k"
    with h [of k] now [of k]
    show "wp_partial ((set_worker w (Holding ?n) p)\<lparr>wp_next := ?n + 1\<rparr>) ! k = no_observation" by auto
  qed (use assms(1) un in \<open>auto simp: pool_ok_def\<close>)
qed

lemma pool_ok_next:
  "pool_ok options envs tasks p \<Longrightarrow> wp_next p \<le> n \<Longrightarrow> pool_ok options envs tasks (p\<lparr>wp_next := n\<rparr>)"
  unfolding pool_ok_def by (auto dest: order_trans less_le_trans)

lemma pool_step_ok: "pool_step options envs tasks p p' \<Longrightarrow> pool_ok options envs tasks p \<Longrightarrow> pool_ok options envs tasks p'"
proof (induction rule: pool_step.induct)
  case (take_task w p)
  from pool_ok_take [OF take_task(4) take_task(1-3)] show ?case .
next
  case (out_of_tasks w p)
  then have "pool_ok options envs tasks (set_worker w Returned p)" by (intro pool_ok_release) auto
  then show ?case by (rule pool_ok_next) simp
next
  case (budget_exhausted w p i)
  then have "wp_partial p ! i = no_observation" using held_nth by (auto simp: pool_ok_def)
  with budget_exhausted show ?case by (intro pool_ok_deliver) (auto simp: partial_of_def)
next
  case (task_run w p i seconds)
  then have "wp_partial p ! i = no_observation" using held_nth by (auto simp: pool_ok_def)
  with task_run show ?case by (intro pool_ok_deliver) (auto simp: partial_of_def)
next
  case (task_threw w p i what)
  then have "wp_partial p ! i = no_observation" using held_nth by (auto simp: pool_ok_def)
  with task_threw show ?case by (intro pool_ok_deliver) (auto simp: partial_of_def)
next
  case (destroy_next p)
  then show ?case by (simp add: pool_ok_def)
qed (auto intro: pool_ok_release)

lemma pool_reach_ok:
  "(pool_step options envs tasks)\<^sup>*\<^sup>* (start_pool options tasks) p \<Longrightarrow> pool_ok options envs tasks p"
  by (induction rule: rtranclp_induct) (auto intro: start_pool_ok pool_step_ok)

text \<open>Every step uses up something.\<close>

fun worker_weight :: "worker \<Rightarrow> nat" where
  "worker_weight AtHead = 3"
| "worker_weight PastCheck = 2"
| "worker_weight (Holding _) = 4"
| "worker_weight Returned = 0"

definition pool_measure :: "observe_task list \<Rightarrow> pool \<Rightarrow> nat" where
  "pool_measure tasks p =
     3 * (length tasks - wp_next p) + sum_list (map worker_weight (wp_workers p)) +
     (length (wp_workers p) - wp_stops p)"

lemma weight_update:
  assumes "w < length xs"
  shows "sum_list (map worker_weight (xs[w := s])) + worker_weight (xs ! w) =
    sum_list (map worker_weight xs) + worker_weight s"
  using assms
proof (induction xs arbitrary: w)
  case (Cons x xs)
  then show ?case by (cases w) (auto simp: add_ac)
qed simp

lemma pool_step_measure:
  "pool_step options envs tasks p p' \<Longrightarrow> pool_measure tasks p' < pool_measure tasks p"
proof (induction rule: pool_step.induct)
  case (stop_seen w p)
  then show ?case using weight_update [of w "wp_workers p" Returned] by (simp add: pool_measure_def)
next
  case (no_stop w p)
  then show ?case using weight_update [of w "wp_workers p" PastCheck] by (simp add: pool_measure_def)
next
  case (take_task w p)
  then show ?case using weight_update [of w "wp_workers p" "Holding (wp_next p)"]
    by (simp add: pool_measure_def)
next
  case (out_of_tasks w p)
  then show ?case using weight_update [of w "wp_workers p" Returned] by (simp add: pool_measure_def)
next
  case (budget_exhausted w p i)
  then show ?case using weight_update [of w "wp_workers p" Returned] by (simp add: pool_measure_def)
next
  case (task_run w p i seconds)
  then show ?case using weight_update [of w "wp_workers p" AtHead] by (simp add: pool_measure_def)
next
  case (task_threw w p i what)
  then show ?case using weight_update [of w "wp_workers p" AtHead] by (simp add: pool_measure_def)
next
  case (destroy_next p)
  then show ?case by (simp add: pool_measure_def)
qed

lemma pool_progress:
  assumes "\<not> pool_finished p" "wp_stops p \<le> length (wp_workers p)"
  shows "\<exists>p'. pool_step options envs tasks p p'"
proof (cases "list_all (\<lambda>s. s = Returned) (wp_workers p)")
  case True
  then have "list_all (\<lambda>s. s = Returned) (take (wp_stops p) (wp_workers p))"
    by (auto simp: list_all_iff dest: in_set_takeD)
  moreover from True assms have "wp_stops p < length (wp_workers p)" by (simp add: pool_finished_def)
  ultimately show ?thesis by (intro exI) (rule destroy_next)
next
  case False
  then obtain w where w: "w < length (wp_workers p)" "wp_workers p ! w \<noteq> Returned"
    by (auto simp: list_all_iff in_set_conv_nth)
  then show ?thesis
    by (cases "wp_workers p ! w"; cases "w < wp_stops p"; cases "wp_next p < length tasks")
      (auto intro: pool_step.intros)
qed

section \<open>Properties of the observation\<close>

lemma merge_coverage:
  "ob_coverage (fold merge ps r) = ob_coverage r @ concat (map ob_coverage ps)"
  by (induction ps arbitrary: r) (simp_all add: merge_def)

lemma observe_result_coverage:
  "ob_coverage (observe_result options present modes tasks p) = concat (map ob_coverage (wp_partial p))"
proof -
  have "ob_coverage (observe_finish present modes r) = ob_coverage r" for r
    by (simp add: observe_finish_def Let_def add_defs)
  moreover have "ob_coverage (observe_start options tasks) = []"
    by (simp add: observe_start_def Let_def add_defs no_observation_def)
  ultimately show ?thesis by (simp add: observe_result_def merge_coverage)
qed

lemma length_concat_le:
  "list_all (\<lambda>x. length (f x) \<le> 1) xs \<Longrightarrow> length (concat (map f xs)) \<le> length xs"
  by (induction xs) auto

text \<open>C10. The workers do not race: in every state the threads can reach, under every interleaving,
  no two workers hold the same task, no result is written by anyone but the worker that took its
  index, each partial result is empty or the outcome of exactly one observation of its own task
  (run, expired or failed), and the merged coverage has at most one entry per task. The shared data are
  the index, the results and the stop requests; descriptor numbers, which the threads of a process also
  share, are not part of the state.\<close>

theorem observation_race_free:
  assumes "(pool_step options envs tasks)\<^sup>*\<^sup>* (start_pool options tasks) p"
  shows "(\<forall>w < length (wp_workers p). \<forall>w' < length (wp_workers p). \<forall>i.
        wp_workers p ! w = Holding i \<and> wp_workers p ! w' = Holding i \<longrightarrow> w = w') \<and>
    (\<forall>i < length tasks. partial_of options envs tasks i (wp_partial p ! i) \<and>
        (wp_next p \<le> i \<or> Holding i \<in> set (wp_workers p) \<longrightarrow> wp_partial p ! i = no_observation)) \<and>
    length (ob_coverage (observe_result options present modes tasks p)) \<le> length tasks"
proof -
  from assms have ok: "pool_ok options envs tasks p" by (rule pool_reach_ok)
  then have "list_all (\<lambda>r. length (ob_coverage r) \<le> 1) (wp_partial p)"
    unfolding list_all_length pool_ok_def using partial_of_coverage by metis
  from length_concat_le [OF this] ok show ?thesis
    unfolding observe_result_coverage by (simp add: pool_ok_def held_def)
qed

text \<open>C25. The observation always ends: no schedule of the workers and of their destruction is
  infinite, and a reachable state in which no thread can move is one where every worker has
  returned and every destructor has run. A single observation is one step, taken to return.\<close>

theorem observation_terminates:
  "wfP (pool_step options envs tasks)\<inverse>\<inverse> \<and>
   ((pool_step options envs tasks)\<^sup>*\<^sup>* (start_pool options tasks) p \<longrightarrow>
    (\<forall>p'. \<not> pool_step options envs tasks p p') \<longrightarrow> pool_finished p)"
proof
  have "(pool_step options envs tasks)\<inverse>\<inverse> q p \<Longrightarrow> pool_measure tasks q < pool_measure tasks p" for p q
    using pool_step_measure by auto
  then show "wfP (pool_step options envs tasks)\<inverse>\<inverse>"
    by (intro wfp_if_convertible_to_nat [of _ "pool_measure tasks"]) auto
next
  show "(pool_step options envs tasks)\<^sup>*\<^sup>* (start_pool options tasks) p \<longrightarrow>
    (\<forall>p'. \<not> pool_step options envs tasks p p') \<longrightarrow> pool_finished p"
  proof (intro impI)
    assume reach: "(pool_step options envs tasks)\<^sup>*\<^sup>* (start_pool options tasks) p"
      and stuck: "\<forall>p'. \<not> pool_step options envs tasks p p'"
    from pool_reach_ok [OF reach] have "wp_stops p \<le> length (wp_workers p)" by (simp add: pool_ok_def)
    with pool_progress [of p options envs tasks] stuck show "pool_finished p" by auto
  qed
qed

text \<open>The schedule in which every worker meets its stop request before its first task.\<close>

definition stopped_pool :: "observe_options \<Rightarrow> observe_task list \<Rightarrow> nat \<Rightarrow> pool" where
  "stopped_pool options tasks k =
     \<lparr>wp_next = 0,
      wp_workers = replicate k Returned @ replicate (worker_count options tasks - k) AtHead,
      wp_stops = k, wp_partial = replicate (length tasks) no_observation\<rparr>"

lemma stopped_pool_step:
  assumes "k < worker_count options tasks"
  shows "(pool_step options envs tasks)\<^sup>*\<^sup>* (stopped_pool options tasks k) (stopped_pool options tasks (Suc k))"
proof -
  let ?p = "stopped_pool options tasks k"
  have "pool_step options envs tasks ?p (?p\<lparr>wp_stops := wp_stops ?p + 1\<rparr>)"
    by (rule destroy_next) (use assms in \<open>simp_all add: stopped_pool_def list_all_length\<close>)
  moreover have "pool_step options envs tasks (?p\<lparr>wp_stops := wp_stops ?p + 1\<rparr>)
      (set_worker k Returned (?p\<lparr>wp_stops := wp_stops ?p + 1\<rparr>))"
    by (rule stop_seen) (use assms in \<open>simp_all add: stopped_pool_def nth_append\<close>)
  moreover have "set_worker k Returned (?p\<lparr>wp_stops := wp_stops ?p + 1\<rparr>) = stopped_pool options tasks (Suc k)"
  proof -
    obtain m where m: "worker_count options tasks = Suc (k + m)"
      using less_imp_Suc_add [OF assms] by auto
    have "replicate k Returned @ [Returned] = Returned # replicate k Returned"
      by (simp add: replicate_append_same)
    with m show ?thesis by (simp add: set_worker_def stopped_pool_def list_update_append)
  qed
  ultimately show ?thesis by (metis (no_types, lifting) converse_rtranclp_into_rtranclp r_into_rtranclp)
qed

lemma stopped_pool_reach:
  "k \<le> worker_count options tasks \<Longrightarrow>
   (pool_step options envs tasks)\<^sup>*\<^sup>* (start_pool options tasks) (stopped_pool options tasks k)"
proof (induction k)
  case 0
  then show ?case by (simp add: start_pool_def stopped_pool_def)
next
  case (Suc k)
  then show ?case using stopped_pool_step [of k options tasks envs] by (simp add: rtranclp_trans)
qed

text \<open>Since the workers are destroyed as soon as they are created, and the destructor requests a
  stop before it joins, nothing forces any task to be observed: for every set of tasks there is a
  schedule that ends with no task run, no coverage entry, no smoke result and no risk factor from
  the observation of tasks.\<close>

theorem observation_may_skip_all:
  "\<exists>p. (pool_step options envs tasks)\<^sup>*\<^sup>* (start_pool options tasks) p \<and> pool_finished p \<and>
     wp_partial p = replicate (length tasks) no_observation \<and>
     ob_coverage (observe_result options present modes tasks p) = []"
proof -
  let ?p = "stopped_pool options tasks (worker_count options tasks)"
  have "(pool_step options envs tasks)\<^sup>*\<^sup>* (start_pool options tasks) ?p" by (rule stopped_pool_reach) simp
  moreover have "pool_finished ?p" "wp_partial ?p = replicate (length tasks) no_observation"
    by (simp_all add: pool_finished_def stopped_pool_def list_all_length)
  moreover have "concat (map ob_coverage (replicate n no_observation)) = []" for n
    by (simp add: no_observation_def)
  ultimately show ?thesis unfolding observe_result_coverage by metis
qed

definition sample_options :: observe_options where
  "sample_options = \<lparr>oo_timeout = 30, oo_global_timeout = 30, oo_network = False, oo_run_all = False,
     oo_max_workers = 2, oo_output_limit = 4096, oo_cgroup_root = []\<rparr>"

definition sample_observe_env :: observe_env where
  "sample_observe_env = \<lparr>oe_staged = False, oe_session = None, oe_in_session = False, oe_cgroup_name = [],
     oe_cgroup_created = False, oe_run = \<lambda>_ _. no_capture\<rparr>"

definition sample_tasks :: "observe_task list" where
  "sample_tasks = observe_tasks [''.INSTALL''] [] [''usr/bin/a'']"

lemma sample_run:
  "(pool_step sample_options (\<lambda>_. sample_observe_env) sample_tasks)\<^sup>*\<^sup>* (start_pool sample_options sample_tasks)
     (stopped_pool sample_options sample_tasks 2)"
  by (rule stopped_pool_reach) (simp add: worker_count_def sample_options_def sample_tasks_def observe_tasks_def)

theorem observation_race_free_witness:
  "length (ob_coverage (observe_result sample_options (\<lambda>_. False) [] sample_tasks
     (stopped_pool sample_options sample_tasks 2))) \<le> 2"
  using observation_race_free [OF sample_run, of "\<lambda>_. False" "[]"]
  by (simp add: sample_tasks_def observe_tasks_def)

theorem observation_terminates_witness:
  "pool_finished (stopped_pool sample_options sample_tasks 2)"
proof -
  have "\<not> pool_step sample_options (\<lambda>_. sample_observe_env) sample_tasks
      (stopped_pool sample_options sample_tasks 2) p'" for p'
    by (auto simp: stopped_pool_def worker_count_def sample_options_def sample_tasks_def observe_tasks_def
        less_Suc_eq numeral_2_eq_2 elim!: pool_stepE)
  with observation_terminates [of sample_options "\<lambda>_. sample_observe_env" sample_tasks
      "stopped_pool sample_options sample_tasks 2"] sample_run
  show ?thesis by blast
qed

end
