(* ===== verification/Mirror_Network.thy ===== *)
theory Mirror_Network
  imports Execell_Prelude
begin

text \<open>
  The mirror allowlist (\<^verbatim>\<open>src/package/network.cpp\<close>): the host part of an endpoint is cut
  out between \<^verbatim>\<open>://\<close> and the next delimiter and compared with the hosts of the
  configured mirrors. \<^verbatim>\<open>std::isalnum\<close> is taken in the C locale, which the program
  never leaves.
\<close>

section \<open>Operations\<close>

definition is_alnum :: "char \<Rightarrow> bool" where
  "is_alnum c \<longleftrightarrow>
     (let n = of_char c :: nat
      in 48 \<le> n \<and> n \<le> 57 \<or> 65 \<le> n \<and> n \<le> 90 \<or> 97 \<le> n \<and> n \<le> 122)"

definition host_char :: "char \<Rightarrow> bool" where
  "host_char c \<longleftrightarrow> is_alnum c \<or> c = CHR ''.'' \<or> c = CHR ''-''"

definition host_delimiter :: "char \<Rightarrow> bool" where
  "host_delimiter c \<longleftrightarrow> c = CHR ''/'' \<or> c = CHR '':'' \<or> c = CHR ''?'' \<or> c = CHR ''#''"

definition extract_host :: "string \<Rightarrow> string" where
  "extract_host value =
     (case find_str ''://'' value of
        None \<Rightarrow> []
      | Some scheme \<Rightarrow>
          if scheme = 0 then []
          else
            (let begin = scheme + 3;
                 end = find_if_from host_delimiter value begin;
                 name = substr value begin
                   (case end of None \<Rightarrow> length value - begin | Some e \<Rightarrow> e - begin)
             in if name = [] \<or> find_if (\<lambda>c. c = CHR ''@'') name \<noteq> None then []
                else if list_all host_char name then name else []))"

definition host :: "string \<Rightarrow> string" where
  "host endpoint = extract_host endpoint"

definition valid_mirror :: "string \<Rightarrow> bool" where
  "valid_mirror mirror =
     (case find_str ''://'' mirror of
        None \<Rightarrow> False
      | Some scheme \<Rightarrow>
          if scheme \<noteq> 4 \<and> scheme \<noteq> 5 then False
          else if substr mirror 0 scheme \<noteq> ''http'' \<and> substr mirror 0 scheme \<noteq> ''https'' then False
          else extract_host mirror \<noteq> [])"

definition allowed :: "string \<Rightarrow> string list \<Rightarrow> bool" where
  "allowed endpoint mirrors =
     (let endpoint_host = extract_host endpoint
      in if endpoint_host = [] then False
         else list_ex (\<lambda>mirror. extract_host mirror = endpoint_host) mirrors)"

section \<open>The host is the maximal name after the scheme\<close>

lemma find_if_from_take:
  "substr s b (case find_if_from P s b of None \<Rightarrow> length s - b | Some e \<Rightarrow> e - b) =
     takeWhile (\<lambda>c. \<not> P c) (drop b s)"
proof (cases "find_if P (drop b s)")
  case None
  then have all: "takeWhile (\<lambda>c. \<not> P c) (drop b s) = drop b s"
    by (simp add: find_if_None takeWhile_eq_all_conv)
  show ?thesis unfolding all using None by (simp add: find_if_from_def substr_def)
next
  case (Some i)
  then show ?thesis using find_if_Some_take [OF Some] by (simp add: find_if_from_def substr_def)
qed

lemma extract_host_eq:
  "extract_host v =
     (case find_str ''://'' v of
        None \<Rightarrow> []
      | Some i \<Rightarrow>
          let name = takeWhile (\<lambda>c. \<not> host_delimiter c) (drop (i + 3) v)
          in if i = 0 \<or> \<not> list_all host_char name then [] else name)"
proof -
  have at: "find_if (\<lambda>c. c = CHR ''@'') n = None" if "list_all host_char n" for n
    using that by (auto simp: find_if_None list_all_iff host_char_def is_alnum_def Let_def)
  show ?thesis
    unfolding extract_host_def Let_def find_if_from_take
    by (simp add: at split: option.splits)
qed

lemma extract_host_chars: "list_all host_char (extract_host v)"
  by (simp add: extract_host_eq Let_def split: option.splits)

text \<open>A non-empty host is exactly the text between the scheme separator and the first
  delimiter.\<close>

lemma extract_host_shape:
  assumes "extract_host v \<noteq> []"
  obtains scheme rest where "v = scheme @ ''://'' @ extract_host v @ rest" "scheme \<noteq> []"
    "rest = [] \<or> host_delimiter (hd rest)" "\<not> contains_str scheme ''://''"
proof -
  let ?P = "\<lambda>c. \<not> host_delimiter c"
  from assms obtain i where i: "find_str ''://'' v = Some i" "i \<noteq> 0"
    and h: "extract_host v = takeWhile ?P (drop (i + 3) v)"
    by (auto simp: extract_host_eq Let_def split: option.splits if_splits)
  from find_str_Some [OF i(1)] obtain t where t: "drop i v = ''://'' @ t" and le: "i \<le> length v"
    by (auto simp: starts_with_iff)
  then have v: "v = take i v @ ''://'' @ t" by (metis append_take_drop_id)
  have "drop (i + 3) v = drop 3 (drop i v)" by (simp add: add.commute)
  then have "drop (i + 3) v = t" unfolding t by simp
  with h have "t = extract_host v @ dropWhile ?P t" by simp
  moreover have "dropWhile ?P t = [] \<or> host_delimiter (hd (dropWhile ?P t))"
    using hd_dropWhile [of ?P t] by blast
  moreover have "find_str p s = Some j \<Longrightarrow> p \<noteq> [] \<Longrightarrow> \<not> contains_str (take j s) p" for p s j
  proof (induction s arbitrary: j)
    case (Cons c s)
    show ?case
    proof (cases "starts_with (c # s) p")
      case False
      with Cons.prems obtain j' where j': "find_str p s = Some j'" "j = Suc j'" by auto
      have "\<not> starts_with (c # take j' s) p"
        using False by (metis starts_with_iff append_Cons append_assoc append_take_drop_id)
      with Cons.IH [OF j'(1) Cons.prems(2)] j'(2) show ?thesis by (simp add: contains_str_def)
    qed (use Cons.prems in \<open>auto simp: contains_str_def\<close>)
  qed (auto simp: contains_str_def split: if_splits)
  from this [OF i(1)] have "\<not> contains_str (take i v) ''://''" by simp
  moreover have "take i v \<noteq> []" using i(2) le by auto
  ultimately show thesis using that v by metis
qed

lemma extract_host_build:
  assumes "find_str ''://'' (scheme @ ''://'' @ h @ rest) = Some (length scheme)" "scheme \<noteq> []"
    and "list_all host_char h" "rest = [] \<or> host_delimiter (hd rest)"
  shows "extract_host (scheme @ ''://'' @ h @ rest) = h"
proof -
  have "\<not> host_delimiter c" if "c \<in> set h" for c
    using that assms(3) by (auto simp: list_all_iff host_char_def host_delimiter_def is_alnum_def Let_def)
  then have "takeWhile (\<lambda>c. \<not> host_delimiter c) (h @ rest) = h"
    using assms(4) by (cases rest) (auto simp: takeWhile_append takeWhile_eq_all_conv)
  with assms show ?thesis by (simp add: extract_host_eq Let_def)
qed

section \<open>Properties\<close>

text \<open>An endpoint is allowed only if its host, taken up to the first delimiter and made of
  letters, digits, dots and hyphens only, is literally the host of a configured mirror: neither a
  longer name with the mirror as a prefix nor a mirror in the user-information or path part gets
  through.\<close>

theorem allowed_means_exact_host:
  assumes "allowed endpoint mirrors"
  shows "\<exists>scheme rest mirror.
    endpoint = scheme @ ''://'' @ host mirror @ rest \<and> mirror \<in> set mirrors \<and>
    scheme \<noteq> [] \<and> host mirror \<noteq> [] \<and> list_all host_char (host mirror) \<and>
    (rest = [] \<or> host_delimiter (hd rest)) \<and> contains_str scheme ''://'' = False"
proof -
  from assms have ne: "extract_host endpoint \<noteq> []"
    and ex: "\<exists>m \<in> set mirrors. extract_host m = extract_host endpoint"
    by (auto simp: allowed_def Let_def list_ex_iff split: if_splits)
  from ne obtain scheme rest where "endpoint = scheme @ ''://'' @ extract_host endpoint @ rest"
    "scheme \<noteq> []" "rest = [] \<or> host_delimiter (hd rest)" "\<not> contains_str scheme ''://''"
    by (rule extract_host_shape)
  with ex ne extract_host_chars [of endpoint] show ?thesis
    unfolding host_def by metis
qed

theorem allowed_means_exact_host_witness:
  "\<exists>scheme rest mirror.
    ''https://a.org/core'' = scheme @ ''://'' @ host mirror @ rest \<and>
    mirror \<in> set [''http://b.net'', ''http://a.org/x''] \<and> list_all host_char (host mirror)"
proof -
  have "allowed ''https://a.org/core'' [''http://b.net'', ''http://a.org/x'']"
    by (simp add: allowed_def extract_host_eq host_delimiter_def host_char_def is_alnum_def)
  from allowed_means_exact_host [OF this] show ?thesis by blast
qed

text \<open>Every mirror the program accepts as valid is an http or https URL with a usable host,
  and it admits its own host: the endpoint made of its scheme and host is allowed.\<close>

theorem valid_mirror_usable:
  assumes "valid_mirror mirror"
  shows "\<exists>scheme rest. scheme \<in> {''http'', ''https''} \<and> host mirror \<noteq> [] \<and>
    mirror = scheme @ ''://'' @ host mirror @ rest \<and> allowed mirror [mirror]"
proof -
  from assms have ne: "extract_host mirror \<noteq> []"
    by (auto simp: valid_mirror_def split: option.splits if_splits)
  from assms obtain i where i: "find_str ''://'' mirror = Some i"
    and sch: "take i mirror \<in> {''http'', ''https''}"
    by (auto simp: valid_mirror_def substr_def split: option.splits if_splits)
  from find_str_Some [OF i] obtain t where t: "drop i mirror = ''://'' @ t"
    by (auto simp: starts_with_iff)
  have "extract_host mirror = takeWhile (\<lambda>c. \<not> host_delimiter c) (drop 3 (drop i mirror))"
    using ne i by (auto simp: extract_host_eq Let_def add.commute split: if_splits)
  then have "t = extract_host mirror @ dropWhile (\<lambda>c. \<not> host_delimiter c) t"
    unfolding t by simp
  then have "mirror = take i mirror @ ''://'' @ extract_host mirror @ dropWhile (\<lambda>c. \<not> host_delimiter c) t"
    using t by (metis append_take_drop_id)
  moreover have "allowed mirror [mirror]" using ne by (simp add: allowed_def Let_def)
  ultimately show ?thesis using sch ne unfolding host_def by metis
qed

theorem valid_mirror_usable_witness:
  "valid_mirror ''https://a.org/core'' \<and> allowed ''https://a.org/core'' [''https://a.org/core'']"
proof -
  have v: "valid_mirror ''https://a.org/core''"
    by (simp add: valid_mirror_def extract_host_eq host_delimiter_def host_char_def is_alnum_def substr_def)
  from v valid_mirror_usable [OF v] show ?thesis by blast
qed

end
