(* ===== verification/Ordered_Map.thy ===== *)
theory Ordered_Map
  imports Execell_Prelude "HOL-Library.Char_ord" "HOL-Library.List_Lexorder"
begin

text \<open>
  \<^verbatim>\<open>std::map<std::string, V>\<close> as the association list of its entries in key order, and the
  assignment \<^verbatim>\<open>map[key] = value\<close>. Strings compare byte by byte, unsigned, as
  \<^verbatim>\<open>std::string\<close> does.
\<close>

fun map_put :: "string \<Rightarrow> 'v \<Rightarrow> (string \<times> 'v) list \<Rightarrow> (string \<times> 'v) list" where
  "map_put k v [] = [(k, v)]"
| "map_put k v ((k', v') # m) =
     (if k < k' then (k, v) # (k', v') # m else if k = k' then (k, v) # m else (k', v') # map_put k v m)"

definition keys_sorted :: "(string \<times> 'v) list \<Rightarrow> bool" where
  "keys_sorted m \<longleftrightarrow> sorted_wrt (<) (map fst m)"

lemma map_put_keys: "fst ` set (map_put k v m) = insert k (fst ` set m)"
  by (induction k v m rule: map_put.induct) (simp_all add: insert_commute)

lemma map_put_sorted: "keys_sorted m \<Longrightarrow> keys_sorted (map_put k v m)"
proof (induction m)
  case (Cons e m)
  obtain k' v' where e: "e = (k', v')" by (cases e)
  from Cons.prems have m: "keys_sorted m" "\<forall>x \<in> fst ` set m. k' < x"
    by (auto simp: keys_sorted_def e)
  show ?case
  proof (cases "k < k' \<or> k = k'")
    case True
    with m show ?thesis by (auto simp: keys_sorted_def e)
  next
    case False
    then have "k' < k" by auto
    have "keys_sorted (map_put k v m)" using Cons.IH m by blast
    moreover have "\<forall>x \<in> fst ` set (map_put k v m). k' < x"
      using m \<open>k' < k\<close> unfolding map_put_keys by auto
    ultimately show ?thesis using False by (simp add: keys_sorted_def e)
  qed
qed (simp add: keys_sorted_def)

lemma map_of_map_put: "map_of (map_put k v m) = (map_of m)(k \<mapsto> v)"
  by (induction m) auto

lemma keys_sorted_distinct: "keys_sorted m \<Longrightarrow> distinct (map fst m)"
  by (simp add: keys_sorted_def strict_sorted_iff)

text \<open>What the clients use of the container, and that the sorted list provides it.\<close>

locale string_map =
  fixes put :: "string \<Rightarrow> 'v \<Rightarrow> 'm \<Rightarrow> 'm" and get :: "'m \<Rightarrow> string \<Rightarrow> 'v option" and ok :: "'m \<Rightarrow> bool"
  assumes get_put: "ok m \<Longrightarrow> get (put k v m) = (get m)(k \<mapsto> v)"
    and ok_put: "ok m \<Longrightarrow> ok (put k v m)"
begin

lemma ok_fold: "ok m \<Longrightarrow> ok (fold (\<lambda>(k, v). put k v) kvs m)"
  by (induction kvs arbitrary: m) (auto simp: ok_put)

text \<open>After a sequence of assignments every key has its last value.\<close>

lemma get_fold: "ok m \<Longrightarrow> get (fold (\<lambda>(k, v). put k v) kvs m) = get m ++ map_of (rev kvs)"
  by (induction kvs arbitrary: m) (auto simp: get_put ok_put)

end

interpretation ordered: string_map map_put map_of keys_sorted
  by unfold_locales (simp_all add: map_of_map_put map_put_sorted)

end
