(* ===== verification/Rootfs.thy ===== *)
theory Rootfs
  imports Fs_Path
begin

text \<open>
  Root file system sessions (\<^verbatim>\<open>src/package/rootfs.cpp\<close>). Creating and releasing a session is
  modelled by the list of its effects on the file system and on the guardian process, so that what
  a session leaves behind can be stated. The answers of the file system, of the Btrfs ioctls and of
  \<^verbatim>\<open>fork\<close> are the fields of \<open>rootfs_env\<close>.
\<close>

section \<open>State\<close>

datatype rootfs_mode = ModeBtrfs | ModeDegraded

record session =
  rs_source :: string
  rs_writable :: string
  rs_workspace :: string
  rs_base :: string
  rs_guardian :: int
  rs_mode :: rootfs_mode

text \<open>A default-constructed session; the mode member is initialised to degraded.\<close>

definition new_session :: session where
  "new_session = \<lparr>rs_source = [], rs_writable = [], rs_workspace = [], rs_base = [],
     rs_guardian = - 1, rs_mode = ModeDegraded\<rparr>"

datatype rootfs_effect =
    CreateDirectories string
  | CreateSubvolume string
  | Snapshot string string bool
  | RemoveAll string
  | StartGuardian int "string list"
  | StopGuardian int

record rootfs_env =
  re_symlink :: "string \<Rightarrow> bool"
  re_exists :: "string \<Rightarrow> bool"
  re_btrfs :: "string \<Rightarrow> bool"
  re_directories :: "string \<Rightarrow> string option"
  re_subvolume :: "string \<Rightarrow> bool"
  re_snapshot :: "string \<Rightarrow> string \<Rightarrow> bool \<Rightarrow> bool"
  re_fork :: int
  re_pid :: string
  re_stamp :: string

definition isolated :: "session \<Rightarrow> bool" where
  "isolated s \<longleftrightarrow> rs_mode s = ModeBtrfs"

definition session_event :: "session \<Rightarrow> string" where
  "session_event s =
     (if isolated s
      then ''{'' @ [CHR 0x22] @ ''schema_version'' @ [CHR 0x22] @ '':1,'' @ [CHR 0x22] @ ''type'' @ [CHR 0x22] @
           '':'' @ [CHR 0x22] @ ''rootfs_btrfs'' @ [CHR 0x22] @ ''}''
      else ''{'' @ [CHR 0x22] @ ''schema_version'' @ [CHR 0x22] @ '':1,'' @ [CHR 0x22] @ ''type'' @ [CHR 0x22] @
           '':'' @ [CHR 0x22] @ ''rootfs_degraded'' @ [CHR 0x22] @ '','' @ [CHR 0x22] @ ''isolated'' @
           [CHR 0x22] @ '':false}'')"

text \<open>\<^verbatim>\<open>std::filesystem::path::parent_path\<close>: the path up to its last component, without
  the separators before it; a path that is only separators is its own parent.\<close>

definition parent_path :: "string \<Rightarrow> string" where
  "parent_path p =
     (let upto = rev (dropWhile (\<lambda>c. c \<noteq> CHR ''/'') (rev p));
          stem = rev (dropWhile (\<lambda>c. c = CHR ''/'') (rev upto))
      in if list_all (\<lambda>c. c = CHR ''/'') p then p
         else if stem = [] \<and> upto \<noteq> [] then ''/'' else stem)"

section \<open>Release\<close>

definition remove_path :: "string \<Rightarrow> rootfs_effect list" where
  "remove_path path = (if path = [] then [] else [RemoveAll path])"

definition release :: "session \<Rightarrow> rootfs_effect list \<times> session" where
  "release s =
     (remove_path (rs_source s) @ remove_path (rs_writable s) @ remove_path (rs_base s) @
      (if rs_guardian s > 0 then [StopGuardian (rs_guardian s)] else []) @
      remove_path (rs_workspace s),
      s\<lparr>rs_source := [], rs_writable := [], rs_workspace := [], rs_base := [],
        rs_guardian := (if rs_guardian s > 0 then - 1 else rs_guardian s)\<rparr>)"

section \<open>Creation\<close>

text \<open>The guardian is told the paths of the session as they are when it is started.\<close>

definition launch_guardian :: "rootfs_env \<Rightarrow> session \<Rightarrow> rootfs_effect list \<times> session" where
  "launch_guardian env s =
     ((if re_fork env > 0
       then [StartGuardian (re_fork env) [rs_source s, rs_writable s, rs_base s, rs_workspace s]] else []),
      s\<lparr>rs_guardian := re_fork env\<rparr>)"

text \<open>An early return destroys the local session, which releases it.\<close>

definition fail_with :: "string \<Rightarrow> rootfs_effect list \<Rightarrow> session \<Rightarrow> rootfs_effect list \<times> (string + session)" where
  "fail_with message effects s = (effects @ fst (release s), Inl message)"

definition degraded_path :: "rootfs_env \<Rightarrow> string \<Rightarrow> string" where
  "degraded_path env workspace = path_append workspace (''rootfs-'' @ re_pid env)"

definition snapshot_effects :: "rootfs_env \<Rightarrow> string \<Rightarrow> session \<Rightarrow> rootfs_effect list \<times> bool" where
  "snapshot_effects env snapshot_source s =
     (if \<not> re_snapshot env snapshot_source (rs_source s) True then ([], False)
      else if \<not> re_snapshot env (rs_source s) (rs_writable s) False
      then ([Snapshot snapshot_source (rs_source s) True], False)
      else ([Snapshot snapshot_source (rs_source s) True, Snapshot (rs_source s) (rs_writable s) False], True))"

definition create_fallback ::
  "rootfs_env \<Rightarrow> string \<Rightarrow> rootfs_effect list \<Rightarrow> session \<Rightarrow> rootfs_effect list \<times> (string + session)" where
  "create_fallback env workspace effects s =
     (let effects1 = effects @ remove_path (rs_base s) @ remove_path (rs_source s) @ remove_path (rs_writable s);
          s1 = s\<lparr>rs_source := [], rs_writable := degraded_path env workspace\<rparr>
      in case re_directories env (rs_writable s1) of
           Some message \<Rightarrow> fail_with (''rootfs snapshot and fallback creation failed: '' @ message) effects1 s1
         | None \<Rightarrow>
             (let s2 = s1\<lparr>rs_mode := ModeDegraded\<rparr>; (guard, s3) = launch_guardian env s2
              in (effects1 @ [CreateDirectories (rs_writable s1)] @ guard, Inr s3)))"

definition source_name :: "rootfs_env \<Rightarrow> string \<Rightarrow> string" where
  "source_name env parent = path_append parent (''.execell-source-'' @ re_stamp env)"

definition writable_name :: "rootfs_env \<Rightarrow> string \<Rightarrow> string" where
  "writable_name env parent = path_append parent (''.execell-session-'' @ re_stamp env)"

definition base_name :: "rootfs_env \<Rightarrow> string \<Rightarrow> string" where
  "base_name env workspace = path_append workspace (''.execell-base-'' @ re_stamp env)"

text \<open>From the names of the snapshots on.\<close>

definition create_snapshots ::
  "rootfs_env \<Rightarrow> string \<Rightarrow> string \<Rightarrow> string \<Rightarrow> rootfs_effect list \<Rightarrow> session \<Rightarrow>
   rootfs_effect list \<times> (string + session)" where
  "create_snapshots env parent snapshot_source workspace effects s =
     (let s1 = s\<lparr>rs_source := source_name env parent, rs_writable := writable_name env parent\<rparr>
      in if re_exists env (rs_source s1) \<or> re_exists env (rs_writable s1)
         then fail_with ''rootfs session name collision'' effects s1
         else
           (case snapshot_effects env snapshot_source s1 of
              (made, False) \<Rightarrow> create_fallback env workspace (effects @ made) s1
            | (made, True) \<Rightarrow>
                (let s2 = s1\<lparr>rs_mode := ModeBtrfs\<rparr>; (guard, s3) = launch_guardian env s2
                 in (effects @ made @ guard, Inr s3))))"

definition create ::
  "rootfs_env \<Rightarrow> string \<Rightarrow> string \<Rightarrow> rootfs_effect list \<times> (string + session)" where
  "create env source workspace =
     (if workspace = [] \<or> re_symlink env workspace then ([], Inl ''rootfs workspace must not be symlink'')
      else case re_directories env workspace of
             Some message \<Rightarrow> ([], Inl (''rootfs workspace creation failed: '' @ message))
           | None \<Rightarrow>
               (let effects = [CreateDirectories workspace];
                    s = new_session\<lparr>rs_workspace := workspace\<rparr>;
                    base = (if source = [] then workspace else source)
                in if \<not> re_exists env base \<or> \<not> re_btrfs env base then
                     (let s1 = s\<lparr>rs_writable := degraded_path env workspace\<rparr>
                      in case re_directories env (rs_writable s1) of
                           Some message \<Rightarrow> fail_with (''temporary rootfs creation failed: '' @ message) effects s1
                         | None \<Rightarrow>
                             (effects @ [CreateDirectories (rs_writable s1)],
                              Inr (s1\<lparr>rs_mode := ModeDegraded\<rparr>)))
                   else if source = [] then
                     (let s1 = s\<lparr>rs_base := base_name env workspace\<rparr>
                      in if \<not> re_subvolume env (rs_base s1)
                         then fail_with ''Btrfs base subvolume creation failed'' effects s1
                         else create_snapshots env workspace (rs_base s1) workspace
                                (effects @ [CreateSubvolume (rs_base s1)]) s1)
                   else create_snapshots env (parent_path source) source workspace effects s))"

section \<open>What a session leaves behind\<close>

text \<open>The paths made and not removed again after a sequence of effects. \<^verbatim>\<open>remove_path\<close> discards the error of
  \<^verbatim>\<open>remove_all\<close>, so a removal may fail unnoticed: \<^term>\<open>removes\<close> says whether an attempt succeeds, from the
  effects before it and the path.\<close>

fun live_step :: "(string \<Rightarrow> bool) \<Rightarrow> rootfs_effect \<Rightarrow> string set \<Rightarrow> string set" where
  "live_step removes (CreateDirectories p) live = insert p live"
| "live_step removes (CreateSubvolume p) live = insert p live"
| "live_step removes (Snapshot _ p _) live = insert p live"
| "live_step removes (RemoveAll p) live = (if removes p then live - {p} else live)"
| "live_step removes _ live = live"

fun live_from ::
  "(rootfs_effect list \<Rightarrow> string \<Rightarrow> bool) \<Rightarrow> rootfs_effect list \<Rightarrow> rootfs_effect list \<Rightarrow> string set \<Rightarrow> string set" where
  "live_from removes past [] live = live"
| "live_from removes past (e # es) live = live_from removes (past @ [e]) es (live_step (removes past) e live)"

definition live_paths :: "(rootfs_effect list \<Rightarrow> string \<Rightarrow> bool) \<Rightarrow> rootfs_effect list \<Rightarrow> string set" where
  "live_paths removes effects = live_from removes [] effects {}"

text \<open>The paths made whose removal has not even been attempted since, and the guardians started and not
  stopped.\<close>

definition pending_paths :: "rootfs_effect list \<Rightarrow> string set \<Rightarrow> string set" where
  "pending_paths effects = fold (live_step (\<lambda>_. True)) effects"

fun guardian_step :: "rootfs_effect \<Rightarrow> int set \<Rightarrow> int set" where
  "guardian_step (StartGuardian g _) gs = insert g gs"
| "guardian_step (StopGuardian g) gs = gs - {g}"
| "guardian_step _ gs = gs"

definition live_guardians :: "rootfs_effect list \<Rightarrow> int set \<Rightarrow> int set" where
  "live_guardians effects = fold guardian_step effects"

definition whole_life :: "rootfs_effect list \<times> (string + session) \<Rightarrow> rootfs_effect list" where
  "whole_life r = (case r of (effects, Inl _) \<Rightarrow> effects | (effects, Inr s) \<Rightarrow> effects @ fst (release s))"

lemma live_append [simp]:
  "pending_paths (a @ b) l = pending_paths b (pending_paths a l)" "pending_paths [] l = l"
  "live_guardians (a @ b) g = live_guardians b (live_guardians a g)" "live_guardians [] g = g"
  by (simp_all add: pending_paths_def live_guardians_def)

lemma live_cons [simp]:
  "pending_paths (e # es) l = pending_paths es (live_step (\<lambda>_. True) e l)"
  "live_guardians (e # es) g = live_guardians es (guardian_step e g)"
  by (simp_all add: pending_paths_def live_guardians_def)

lemma live_remove_path [simp]:
  "pending_paths (remove_path p) l = (if p = [] then l else l - {p})" "live_guardians (remove_path p) g = g"
  by (simp_all add: remove_path_def)

text \<open>Releasing tries to remove every path the session names.\<close>

lemma live_release:
  "[] \<notin> l \<Longrightarrow> pending_paths (fst (release s)) l = l - {rs_source s, rs_writable s, rs_base s, rs_workspace s}"
  "live_guardians (fst (release s)) g = (if rs_guardian s > 0 then g - {rs_guardian s} else g)"
  by (auto simp: release_def)

lemma path_append_nonempty: "p \<noteq> [] \<Longrightarrow> path_append base p \<noteq> []"
  by (simp add: path_append_def)

lemma degraded_path_nonempty [simp]: "degraded_path env workspace \<noteq> []" "[] \<noteq> degraded_path env workspace"
  using path_append_nonempty [of "''rootfs-'' @ re_pid env" workspace] by (simp_all add: degraded_path_def)

lemma names_nonempty [simp]:
  "source_name env parent \<noteq> []" "[] \<noteq> source_name env parent" "writable_name env parent \<noteq> []"
  "[] \<noteq> writable_name env parent" "base_name env parent \<noteq> []" "[] \<noteq> base_name env parent"
  using path_append_nonempty [of "''.execell-source-'' @ re_stamp env" parent]
    path_append_nonempty [of "''.execell-session-'' @ re_stamp env" parent]
    path_append_nonempty [of "''.execell-base-'' @ re_stamp env" parent]
  by (simp_all add: source_name_def writable_name_def base_name_def)

lemma live_guardian_launch [simp]:
  "pending_paths (fst (launch_guardian env s)) l = l"
  "live_guardians (fst (launch_guardian env s)) g = (if re_fork env > 0 then insert (re_fork env) g else g)"
  "rs_guardian (snd (launch_guardian env s)) = re_fork env"
  "rs_source (snd (launch_guardian env s)) = rs_source s"
  "rs_writable (snd (launch_guardian env s)) = rs_writable s"
  "rs_base (snd (launch_guardian env s)) = rs_base s"
  "rs_workspace (snd (launch_guardian env s)) = rs_workspace s"
  "rs_mode (snd (launch_guardian env s)) = rs_mode s"
  by (simp_all add: launch_guardian_def)

definition clean :: "rootfs_effect list \<times> (string + session) \<Rightarrow> bool" where
  "clean r \<longleftrightarrow> pending_paths (whole_life r) {} = {} \<and> live_guardians (whole_life r) {} = {}"

lemma clean_fail:
  assumes "pending_paths effects {} \<subseteq> {rs_source s, rs_writable s, rs_base s, rs_workspace s}"
    "[] \<notin> pending_paths effects {}" "live_guardians effects {} = {}"
  shows "clean (fail_with message effects s)"
  using assms by (auto simp: clean_def whole_life_def fail_with_def live_release)

lemma clean_success:
  assumes "pending_paths effects {} \<subseteq> {rs_source s, rs_writable s, rs_base s, rs_workspace s}"
    "[] \<notin> pending_paths effects {}" "live_guardians effects {} \<subseteq> {g. g > 0 \<and> g = rs_guardian s}"
  shows "clean (effects, Inr s)"
  using assms by (auto simp: clean_def whole_life_def live_release)

lemma clean_fallback:
  assumes "pending_paths effects {} \<subseteq> {rs_source s, rs_writable s, rs_base s, workspace}"
    "[] \<notin> pending_paths effects {}" "live_guardians effects {} = {}" "rs_workspace s = workspace" "workspace \<noteq> []"
  shows "clean (create_fallback env workspace effects s)"
proof -
  let ?s = "s\<lparr>rs_source := [], rs_writable := degraded_path env workspace\<rparr>"
  let ?e = "effects @ remove_path (rs_base s) @ remove_path (rs_source s) @ remove_path (rs_writable s)"
  have live: "pending_paths ?e {} \<subseteq> {workspace}" "[] \<notin> pending_paths ?e {}" "live_guardians ?e {} = {}"
    using assms by auto
  show ?thesis
  proof (cases "re_directories env (degraded_path env workspace)")
    case None
    have "clean (?e @ [CreateDirectories (degraded_path env workspace)] @
        fst (launch_guardian env (?s\<lparr>rs_mode := ModeDegraded\<rparr>)),
        Inr (snd (launch_guardian env (?s\<lparr>rs_mode := ModeDegraded\<rparr>))))"
      by (rule clean_success) (use live assms(4,5) in auto)
    with None show ?thesis
      by (simp add: create_fallback_def Let_def case_prod_unfold)
  next
    case (Some message)
    have "clean (fail_with (''rootfs snapshot and fallback creation failed: '' @ message) ?e ?s)"
      by (rule clean_fail) (use live assms(4) in auto)
    with Some show ?thesis by (simp add: create_fallback_def Let_def)
  qed
qed

lemma clean_snapshots:
  assumes "pending_paths effects {} \<subseteq> {rs_base s, workspace}" "[] \<notin> pending_paths effects {}"
    "live_guardians effects {} = {}" "rs_workspace s = workspace" "workspace \<noteq> []"
  shows "clean (create_snapshots env parent snapshot_source workspace effects s)"
proof -
  let ?s = "s\<lparr>rs_source := source_name env parent, rs_writable := writable_name env parent\<rparr>"
  obtain made ok where eff: "snapshot_effects env snapshot_source ?s = (made, ok)" by force
  then have made: "pending_paths (effects @ made) {} \<subseteq> {rs_source ?s, rs_writable ?s, rs_base ?s, workspace}"
    "[] \<notin> pending_paths (effects @ made) {}" "live_guardians (effects @ made) {} = {}"
    using assms(1-3) by (auto simp: snapshot_effects_def simp del: append_Cons split: if_splits)
  show ?thesis
  proof (cases "re_exists env (rs_source ?s) \<or> re_exists env (rs_writable ?s)")
    case True
    have "clean (fail_with ''rootfs session name collision'' effects ?s)"
      by (rule clean_fail) (use assms in auto)
    with True show ?thesis by (simp add: create_snapshots_def Let_def)
  next
    case False
    show ?thesis
    proof (cases ok)
      case True
      let ?t = "?s\<lparr>rs_mode := ModeBtrfs\<rparr>"
      have "clean ((effects @ made) @ fst (launch_guardian env ?t), Inr (snd (launch_guardian env ?t)))"
        by (rule clean_success) (use made assms(4) in auto)
      with False True eff show ?thesis by (simp add: create_snapshots_def Let_def case_prod_unfold)
    next
      case not_ok: False
      have "clean (create_fallback env workspace (effects @ made) ?s)"
        by (rule clean_fallback) (use made assms(4,5) in auto)
      with False not_ok eff show ?thesis by (simp add: create_snapshots_def Let_def)
    qed
  qed
qed

lemma create_clean: "clean (create env source workspace)"
proof (cases "workspace = [] \<or> re_symlink env workspace \<or> re_directories env workspace \<noteq> None")
  case True
  then show ?thesis by (auto simp: create_def clean_def whole_life_def split: option.split)
next
  case ok: False
  let ?s = "new_session\<lparr>rs_workspace := workspace\<rparr>"
  let ?d = "?s\<lparr>rs_writable := degraded_path env workspace\<rparr>"
  let ?b = "?s\<lparr>rs_base := base_name env workspace\<rparr>"
  have new: "rs_guardian ?s = - 1" by (simp add: new_session_def)
  from ok have "clean (fail_with m [CreateDirectories workspace] ?d)" for m
    by (intro clean_fail) auto
  moreover from ok have "clean ([CreateDirectories workspace] @ [CreateDirectories (degraded_path env workspace)],
      Inr (?d\<lparr>rs_mode := ModeDegraded\<rparr>))"
    by (intro clean_success) auto
  moreover from ok have "clean (fail_with m [CreateDirectories workspace] ?b)" for m
    by (intro clean_fail) auto
  moreover from ok have "clean (create_snapshots env workspace (rs_base ?b) workspace
      ([CreateDirectories workspace] @ [CreateSubvolume (rs_base ?b)]) ?b)"
    by (intro clean_snapshots) auto
  moreover from ok have "clean (create_snapshots env (parent_path source) source workspace [CreateDirectories workspace] ?s)"
    by (intro clean_snapshots) auto
  ultimately show ?thesis
    using ok by (auto simp: create_def Let_def split: option.split)
qed

text \<open>Whatever is left was made and never tried, or its removal was tried and failed.\<close>

lemma pending_paths_mono: "pending_paths es (insert q A) \<subseteq> insert q (pending_paths es A)"
proof (induction es arbitrary: A)
  case (Cons e es)
  have "live_step (\<lambda>_. True) e (insert q A) \<subseteq> insert q (live_step (\<lambda>_. True) e A)" by (cases e) auto
  moreover have "pending_paths es X \<subseteq> pending_paths es Y" if "X \<subseteq> Y" for X Y
    using that
  proof (induction es arbitrary: X Y)
    case (Cons f fs)
    have "live_step (\<lambda>_. True) f X \<subseteq> live_step (\<lambda>_. True) f Y" using Cons.prems by (cases f) auto
    with Cons.IH show ?case by simp
  qed simp
  ultimately have "pending_paths (e # es) (insert q A) \<subseteq> pending_paths es (insert q (live_step (\<lambda>_. True) e A))"
    by simp
  with Cons.IH [of "live_step (\<lambda>_. True) e A"] show ?case by simp
qed simp

lemma live_from_pending:
  "p \<in> live_from removes past es live \<Longrightarrow>
     p \<in> pending_paths es live \<or> (\<exists>before after. es = before @ RemoveAll p # after \<and> \<not> removes (past @ before) p)"
proof (induction es arbitrary: past live)
  case (Cons e es)
  let ?live = "live_step (removes past) e live"
  from Cons.prems Cons.IH [of "past @ [e]" ?live] consider
      (pending) "p \<in> pending_paths es ?live"
    | (failed) before after where "es = before @ RemoveAll p # after" "\<not> removes ((past @ [e]) @ before) p" by auto
  then show ?case
  proof cases
    case pending
    show ?thesis
    proof (cases "\<exists>q. e = RemoveAll q \<and> \<not> removes past q")
      case True
      then obtain q where q: "e = RemoveAll q" "\<not> removes past q" by blast
      have "p = q \<or> p \<in> pending_paths es (live - {q})"
      proof (cases "q \<in> live")
        case True
        then have "?live = insert q (live - {q})" using q by auto
        with pending pending_paths_mono [of es q "live - {q}"] show ?thesis by auto
      next
        case False
        then have "?live = live - {q}" using q by auto
        with pending show ?thesis by simp
      qed
      then show ?thesis
      proof
        assume "p = q"
        with q show ?thesis by (intro disjI2 exI [of _ "[]"] exI [of _ es]) simp
      qed (use q in simp)
    next
      case False
      then have "?live = live_step (\<lambda>_. True) e live" by (cases e) auto
      with pending show ?thesis by simp
    qed
  next
    case failed
    then show ?thesis by (intro disjI2 exI [of _ "e # before"] exI [of _ after]) simp
  qed
qed simp

lemma swept_left:
  assumes "pending_paths effects {} = {}" "p \<in> live_paths removes effects"
  shows "\<exists>before after. effects = before @ RemoveAll p # after \<and> \<not> removes before p"
  using live_from_pending [of p removes "[]" effects "{}"] assms by (simp add: live_paths_def)

text \<open>C13. A root file system session tries to remove everything it made: after creation and release, on
  every path through creation (no Btrfs, failed subvolume, name collision, failed first or second
  snapshot, failed fallback) and whichever removals succeed, a directory, subvolume or snapshot that is
  still there is one whose removal was attempted and failed, which the code does not notice; so nothing is
  left when every removal succeeds. The guardian process, if one was started, has been stopped.\<close>

theorem session_leaves_nothing:
  "(\<forall>p \<in> live_paths removes (whole_life (create env source workspace)).
      \<exists>before after. whole_life (create env source workspace) = before @ RemoveAll p # after \<and>
        \<not> removes before p) \<and>
   live_guardians (whole_life (create env source workspace)) {} = {}"
  using create_clean [of env source workspace] swept_left unfolding clean_def by blast

text \<open>A session is isolated only if its writable root is a snapshot of the session's own read-only
  snapshot.\<close>

theorem isolated_session_snapshots:
  assumes "create env source workspace = (effects, Inr s)" "isolated s"
  shows "\<exists>origin before after. effects =
    before @ [Snapshot origin (rs_source s) True, Snapshot (rs_source s) (rs_writable s) False] @ after"
proof -
  have fb: "\<not> isolated t" if "create_fallback e w x s0 = (eff, Inr t)" for e w x s0 eff t
    using that by (auto simp: create_fallback_def Let_def fail_with_def isolated_def case_prod_unfold
        split: option.splits)
  have sn: "\<exists>origin before after. eff =
      before @ [Snapshot origin (rs_source t) True, Snapshot (rs_source t) (rs_writable t) False] @ after"
    if c: "create_snapshots e p src w x s0 = (eff, Inr t)" and "isolated t" for e p src w x s0 eff t
  proof -
    let ?s = "s0\<lparr>rs_source := source_name e p, rs_writable := writable_name e p\<rparr>"
    obtain made where made: "snapshot_effects e src ?s = (made, True)"
      using c fb \<open>isolated t\<close>
      by (cases "snapshot_effects e src ?s"; cases "snd (snapshot_effects e src ?s)")
        (auto simp: create_snapshots_def Let_def fail_with_def split: if_splits)
    then have m: "made = [Snapshot src (source_name e p) True, Snapshot (source_name e p) (writable_name e p) False]"
      by (auto simp: snapshot_effects_def split: if_splits)
    from c made have "eff = x @ made @ fst (launch_guardian e (?s\<lparr>rs_mode := ModeBtrfs\<rparr>))"
      "t = snd (launch_guardian e (?s\<lparr>rs_mode := ModeBtrfs\<rparr>))"
      by (auto simp: create_snapshots_def Let_def fail_with_def case_prod_unfold split: if_splits)
    with m show ?thesis
      by - (rule exI [of _ src], rule exI [of _ x],
          rule exI [of _ "fst (launch_guardian e (?s\<lparr>rs_mode := ModeBtrfs\<rparr>))"], simp)
  qed
  show ?thesis
    using assms sn
    by (auto simp: create_def Let_def fail_with_def isolated_def new_session_def
        split: if_splits option.splits)
qed

section \<open>The contract of sessions\<close>

text \<open>What the scan and the build rely on: an isolated root is a writable snapshot the session made of
  its own read-only one, and releasing the session tries to remove whatever creating it made.\<close>

locale rootfs_sessions =
  fixes make :: "'e \<Rightarrow> string \<Rightarrow> string \<Rightarrow> rootfs_effect list \<times> (string + session)"
  assumes isolated_fresh: "make env source workspace = (effects, Inr s) \<Longrightarrow> isolated s \<Longrightarrow>
      \<exists>origin before after. effects =
        before @ [Snapshot origin (rs_source s) True, Snapshot (rs_source s) (rs_writable s) False] @ after"
    and all_swept: "pending_paths (whole_life (make env source workspace)) {} = {}"
begin

lemma isolated_root_temporary:
  assumes "make env source workspace = (effects, Inr s)" "isolated s"
  shows "Snapshot (rs_source s) (rs_writable s) False \<in> set effects"
    "rs_writable s \<in> live_paths removes (effects @ fst (release s)) \<Longrightarrow>
      \<exists>before after. effects @ fst (release s) = before @ RemoveAll (rs_writable s) # after \<and>
        \<not> removes before (rs_writable s)"
  using isolated_fresh [OF assms] swept_left [OF all_swept [of env source workspace]] assms(1)
  by (auto simp: whole_life_def)

end

interpretation rootfs: rootfs_sessions create
  by unfold_locales (use isolated_session_snapshots create_clean in \<open>auto simp: clean_def\<close>)

text \<open>A host whose workspace is on Btrfs and where every call succeeds.\<close>

definition sample_rootfs_env :: rootfs_env where
  "sample_rootfs_env =
     \<lparr>re_symlink = \<lambda>_. False, re_exists = \<lambda>p. p = ''/w'', re_btrfs = \<lambda>_. True, re_directories = \<lambda>_. None,
      re_subvolume = \<lambda>_. True, re_snapshot = \<lambda>_ _ _. True, re_fork = 42, re_pid = ''7'', re_stamp = ''7-0-0''\<rparr>"

lemma sample_create:
  "snd (create sample_rootfs_env [] ''/w'') =
     Inr \<lparr>rs_source = ''/w/.execell-source-7-0-0'', rs_writable = ''/w/.execell-session-7-0-0'',
       rs_workspace = ''/w'', rs_base = ''/w/.execell-base-7-0-0'', rs_guardian = 42, rs_mode = ModeBtrfs\<rparr>"
  by (simp add: create_def create_snapshots_def snapshot_effects_def launch_guardian_def new_session_def
      sample_rootfs_env_def source_name_def writable_name_def base_name_def path_append_def is_absolute_def
      has_filename_def)

text \<open>On that host everything is removed but the read-only snapshot, when its removal fails.\<close>

theorem session_leaves_nothing_witness:
  "live_paths (\<lambda>_ p. p \<noteq> ''/w/.execell-source-7-0-0'') (whole_life (create sample_rootfs_env [] ''/w''))
     \<subseteq> {''/w/.execell-source-7-0-0''}"
  using session_leaves_nothing [of "\<lambda>_ p. p \<noteq> ''/w/.execell-source-7-0-0''" sample_rootfs_env "[]" "''/w''"]
  by blast

text \<open>A path that cannot be removed stays. Nothing can be unlinked below a read-only snapshot, so where the
  removal of the source snapshot of an isolated session fails, the snapshot is left behind.\<close>

lemma unremovable_stays:
  "(\<And>past. \<not> removes past p) \<Longrightarrow> p \<in> live \<Longrightarrow> p \<in> live_from removes past es live"
proof (induction es arbitrary: past live)
  case (Cons e es)
  have "p \<in> live_step (removes past) e live" using Cons.prems by (cases e) auto
  with Cons.IH [OF Cons.prems(1)] show ?case by simp
qed simp

lemma live_from_append:
  "live_from removes past (es @ fs) live = live_from removes (past @ es) fs (live_from removes past es live)"
  by (induction es arbitrary: past live) simp_all

lemma isolated_source_stays:
  assumes "create env source workspace = (effects, Inr s)" "isolated s" "\<And>past. \<not> removes past (rs_source s)"
  shows "rs_source s \<in> live_paths removes (effects @ fst (release s))"
proof -
  from isolated_session_snapshots [OF assms(1,2)] obtain origin before after where
    eff: "effects = before @ Snapshot origin (rs_source s) True # after" by auto
  show ?thesis
    unfolding live_paths_def eff append_assoc live_from_append append_Cons live_from.simps
    by (intro unremovable_stays) (use assms(3) in simp_all)
qed

text \<open>The error path of a name collision releases the session, whose names are those of the
  existing directories: they are removed.\<close>

theorem collision_removes_existing:
  assumes "workspace \<noteq> []" "\<not> re_symlink env workspace" "re_directories env workspace = None"
    "source \<noteq> []" "re_exists env source" "re_btrfs env source"
    "re_exists env (writable_name env (parent_path source))"
  shows "snd (create env source workspace) = Inl ''rootfs session name collision'' \<and>
    RemoveAll (writable_name env (parent_path source)) \<in> set (fst (create env source workspace))"
  using assms
  by (simp add: create_def Let_def create_snapshots_def fail_with_def release_def remove_path_def)

end
