(* ===== verification/Package_Scan.thy ===== *)
theory Package_Scan
  imports Package_Report Observation Mirror_Network Risk_Engine Ordered_Map Rootfs
begin

text \<open>
  The scan of a package (\<^verbatim>\<open>scan\<close> in \<^verbatim>\<open>src/package/package.cpp\<close>): inspection, the
  mirror policy, the session and root file system, the installation, the comparison of the file
  system before and after, the search for executables, the observation, the risk assessment and
  the comparison with the previous version.

  A snapshot is the association list of the \<^verbatim>\<open>std::map\<close>, in key order. What the file system,
  libarchive, the sandboxed installation and SQLite answer are the fields of \<open>scan_env\<close>, and so is
  what \<^verbatim>\<open>observe\<close> (\<open>Observation\<close>) answers for a root, the paths to run and its options, which depends on
  the schedule of its threads; the database is the one of \<open>Storage\<close>. The copies that \<^verbatim>\<open>stage\<close> puts
  into the root file system change nothing of the result and are left out.
\<close>

section \<open>File system differences\<close>

record file_state =
  fs_size :: "64 word"
  fs_mode :: "32 word"
  fs_uid :: "32 word"
  fs_gid :: "32 word"
  fs_hash :: string

type_synonym file_snapshot = "(string \<times> file_state) list"

text \<open>An entry of the recursive directory walk, with its path relative to the root: only regular
  files and symbolic links are recorded; a link keeps the fingerprint of its target and zero for
  the fields the source leaves out. The content is \<^term>\<open>None\<close> when the file cannot be opened.\<close>

datatype walk_entry =
    WalkFile string "64 word" "32 word" "32 word" "32 word" "string option"
  | WalkLink string "32 word" string
  | WalkOther string

fun snapshot_entry :: "walk_entry \<Rightarrow> file_snapshot \<Rightarrow> file_snapshot" where
  "snapshot_entry (WalkFile relative fsize permissions uid gid content) m =
     map_put relative \<lparr>fs_size = fsize, fs_mode = permissions, fs_uid = uid, fs_gid = gid,
       fs_hash = file_fingerprint content\<rparr> m"
| "snapshot_entry (WalkLink relative permissions target) m =
     map_put relative \<lparr>fs_size = 0, fs_mode = permissions, fs_uid = 0, fs_gid = 0,
       fs_hash = fingerprint target\<rparr> m"
| "snapshot_entry (WalkOther relative) m = m"

definition snapshot :: "bool \<Rightarrow> walk_entry list \<Rightarrow> file_snapshot" where
  "snapshot root_exists walk = (if \<not> root_exists then [] else fold snapshot_entry walk [])"

definition diff_entry :: "file_snapshot \<Rightarrow> string \<times> file_state \<Rightarrow> package_result \<Rightarrow> package_result" where
  "diff_entry before entry r =
     (case entry of
        (path, state) \<Rightarrow>
          (case map_of before path of
             None \<Rightarrow> r\<lparr>pr_created := pr_created r @ [path]\<rparr>
           | Some old \<Rightarrow>
               (let r1 = (if fs_size old \<noteq> fs_size state then r\<lparr>pr_modified := pr_modified r @ [path]\<rparr> else r);
                    r2 = (if fs_mode old \<noteq> fs_mode state
                          then r1\<lparr>pr_mode_changed := pr_mode_changed r1 @ [path]\<rparr> else r1);
                    r3 = (if fs_uid old \<noteq> fs_uid state \<or> fs_gid old \<noteq> fs_gid state
                          then r2\<lparr>pr_ownership_changed := pr_ownership_changed r2 @ [path]\<rparr> else r2)
                in if fs_hash old \<noteq> fs_hash state
                   then r3\<lparr>pr_hash_changed := pr_hash_changed r3 @ [path]\<rparr> else r3)))"

definition record_diff :: "file_snapshot \<Rightarrow> file_snapshot \<Rightarrow> package_result \<Rightarrow> package_result" where
  "record_diff before after r =
     (let r1 = fold (diff_entry before) after r
      in r1\<lparr>pr_deleted := pr_deleted r1 @
              filter (\<lambda>path. map_of after path = None) (map fst before)\<rparr>)"

section \<open>Executables\<close>

definition is_elf :: "string \<Rightarrow> bool" where
  "is_elf content \<longleftrightarrow>
     length content \<ge> 4 \<and> content ! 0 = CHR 0x7F \<and> content ! 1 = CHR ''E'' \<and>
     content ! 2 = CHR ''L'' \<and> content ! 3 = CHR ''F''"

definition note_executable :: "(string \<Rightarrow> string expected) \<Rightarrow> string \<Rightarrow> package_metadata \<Rightarrow> package_metadata" where
  "note_executable read path m =
     (case read path of
        Inl _ \<Rightarrow> m
      | Inr content \<Rightarrow>
          if \<not> is_elf content \<and> \<not> starts_with content ''#!'' then m
          else m\<lparr>pm_executables := pm_executables m @ [path],
                 pm_executable_fingerprints :=
                   pm_executable_fingerprints m @ [path @ '':'' @ fingerprint content]\<rparr>)"

definition find_executables :: "(string \<Rightarrow> string expected) \<Rightarrow> package_metadata \<Rightarrow> package_metadata" where
  "find_executables read m =
     (let executable_limit = min (length (pm_files m)) 128
      in fold (note_executable read) (take executable_limit (pm_files m)) m)"

section \<open>Observation and risk\<close>

definition coverage_confidence :: "nat \<Rightarrow> nat \<Rightarrow> int" where
  "coverage_confidence covered expected =
     (if expected = 0 then 0 else int (min 100 (covered * 100 div expected)))"

definition record_observation :: "observed \<Rightarrow> package_result \<Rightarrow> package_result" where
  "record_observation ob r =
     (let m = pr_metadata r;
          expected = length (pm_scripts m) + length (pm_hooks m) + length (pm_executables m)
      in r\<lparr>pr_smoke_scans := ob_smoke ob, pr_process_events := ob_processes ob,
           pr_network_events := ob_network ob, pr_events := pr_events r @ ob_events ob,
           pr_coverage := ob_coverage ob,
           pr_coverage_confidence := coverage_confidence (length (ob_coverage ob)) expected,
           pr_risk_factors := pr_risk_factors r @ ob_risk_factors ob\<rparr>)"

definition add_if :: "bool \<Rightarrow> string \<Rightarrow> int \<Rightarrow> string \<Rightarrow> risk_engine \<Rightarrow> risk_engine" where
  "add_if c name weight explanation e = (if c then risk_add name weight explanation e else e)"

definition scan_risk :: "package_options \<Rightarrow> observed \<Rightarrow> package_result \<Rightarrow> risk_engine" where
  "scan_risk options ob r =
     fold (\<lambda>factor e. risk_add ''observation'' 10 factor e) (ob_risk_factors ob)
       (add_if (pr_network_events r \<noteq> [] \<and> po_network options = ''mirror'') ''network'' 15
          ''package attempted network access under mirror policy''
       (add_if (pr_hash_changed r \<noteq> []) ''file_hashes'' 10 ''package changed file contents''
       (add_if (pr_ownership_changed r \<noteq> []) ''file_ownership'' 20 ''package changed file ownership''
       (add_if (pr_mode_changed r \<noteq> []) ''file_modes'' 15 ''package changed file permissions''
       (add_if (pr_created r \<noteq> []) ''filesystem'' (int (min (length (pr_created r) * 2) 20))
          ''package changed files in isolated rootfs''
       (add_if (pm_hooks (pr_metadata r) \<noteq> []) ''hooks'' 20 ''package hooks can execute during installation''
       (add_if (pm_scripts (pr_metadata r) \<noteq> []) ''scripts'' 15
          ''maintainer scripts execute package-provided code''
       (add_if (\<not> pr_installed r) ''rootless'' 5 ''package install scripts were not executed''
          new_risk_engine))))))))"

definition record_assessment :: "assessment \<Rightarrow> package_result \<Rightarrow> package_result" where
  "record_assessment a r =
     r\<lparr>pr_risk_score := score a, pr_risk_level := level_to_string (level a),
       pr_risk_action := action_to_string (action a), pr_verdict := action_to_string (action a),
       pr_ok := (if action a = ActionReject then False else pr_ok r),
       pr_risk_factors := pr_risk_factors r @
         map (\<lambda>f. factor_name f @ '': '' @ factor_explanation f) (factors a)\<rparr>"

definition policy_event :: "package_options \<Rightarrow> string" where
  "policy_event options =
     ''{'' @ quote @ ''schema_version'' @ quote @ '':1'' @ json_key ''type'' @ quote @ ''network_policy'' @ quote @
     json_key ''mode'' @ quote @ po_network options @ quote @
     json_key ''allowlist'' @ json_array (po_mirrors options) @ ''}''"

definition complete_event :: string where
  "complete_event =
     ''{'' @ quote @ ''schema_version'' @ quote @ '':1'' @ json_key ''type'' @ quote @ ''scan_complete'' @ quote @ ''}''"

section \<open>The previous version\<close>

definition apply_delta :: "string \<Rightarrow> version_delta \<Rightarrow> package_result \<Rightarrow> package_result" where
  "apply_delta previous d r =
     (if de_compared d \<and> (de_identity_changed d \<or> de_source_changed d \<or>
         de_dependencies_changed d \<or> de_added_events d \<noteq> [])
      then
        (let new_score = min 100 (pr_risk_score r + 15);
             new_action = (if new_score \<ge> 50 then ''reject'' else ''audit'')
         in r\<lparr>pr_risk_factors := pr_risk_factors r @ [''behavioral delta from version '' @ previous],
              pr_risk_score := new_score,
              pr_risk_level := (if new_score \<ge> 50 then ''high'' else ''medium''),
              pr_risk_action := new_action, pr_verdict := new_action\<rparr>)
      else r)"

definition scan_identity :: "package_options \<Rightarrow> string option \<Rightarrow> package_result \<Rightarrow> package_identity" where
  "scan_identity options content r =
     (let m = pr_metadata r
      in \<lparr>id_name = pm_name m, id_version = pm_version m, id_architecture = pm_architecture m,
          id_signature = pm_signature m, id_source_revision = [],
          id_dependency_fingerprint = fingerprint (json_array (pm_dependencies m)),
          id_package_hash = file_fingerprint content, id_build_options = po_rootfs options,
          id_static_fingerprint = fingerprint (json_array (pm_files m)),
          id_dynamic_fingerprint = fingerprint (json_object_array (pr_events r))\<rparr>)"

definition scan_events :: "package_result \<Rightarrow> stored_event list" where
  "scan_events r =
     map (\<lambda>e. \<lparr>sv_category = ''observation'', sv_action = ''event'',
                sv_subject = pm_name (pr_metadata r), sv_detail = e, sv_dynamic = True\<rparr>) (pr_events r)"

definition storage_failed :: "string \<Rightarrow> package_result \<Rightarrow> package_result" where
  "storage_failed what r =
     r\<lparr>pr_risk_factors := pr_risk_factors r @ [''SQLite observation storage failed: '' @ what]\<rparr>"

text \<open>The block under \<^verbatim>\<open>EXECELL_HAVE_SQLITE\<close>: the previous version is asked for before the
  new observation is stored; an exception leaves what was assigned before it.\<close>

definition record_stored ::
  "db_io \<Rightarrow> package_options \<Rightarrow> string option \<Rightarrow> package_result \<Rightarrow> database \<Rightarrow> database \<times> package_result" where
  "record_stored io options content r db =
     (let identity = scan_identity options content r
      in case previous_version (dio_previous io) (id_name identity) (id_version identity) db of
           Inl what \<Rightarrow> (db, storage_failed what r)
         | Inr previous \<Rightarrow>
             (case store (dio_rowid io) (dio_store io) identity (scan_events r) db of
                (db1, Inl what) \<Rightarrow> (db1, storage_failed what r)
              | (db1, Inr obs) \<Rightarrow>
                  (let r1 = r\<lparr>pr_baseline := obs_baseline obs\<rparr>
                   in case previous of
                        None \<Rightarrow> (db1, r1)
                      | Some p \<Rightarrow>
                          (case compare_database (dio_compare io) (id_name identity) p (id_version identity) db1 of
                             Inl what \<Rightarrow> (db1, storage_failed what r1)
                           | Inr d \<Rightarrow> (db1, apply_delta p d r1)))))"

definition record_database ::
  "db_io option \<Rightarrow> package_options \<Rightarrow> string option \<Rightarrow> package_result \<Rightarrow> database \<Rightarrow>
   database \<times> package_result" where
  "record_database build options content r db =
     (case build of
        None \<Rightarrow> (db, r)
      | Some io \<Rightarrow>
          (case dio_parent_error io of
             Some _ \<Rightarrow>
               (db, r\<lparr>pr_risk_factors := pr_risk_factors r @ [''SQLite database parent creation failed'']\<rparr>)
           | None \<Rightarrow>
               (case open_database (dio_open_error io) (dio_migrate io) db of
                  (db1, Inl what) \<Rightarrow> (db1, storage_failed what r)
                | (db1, Inr _) \<Rightarrow> record_stored io options content r db1)))"

section \<open>The scan\<close>

definition inspection_risk :: "string \<Rightarrow> risk_engine" where
  "inspection_risk err =
     (if contains_str err ''signature'' then risk_reject ''signature'' err new_risk_engine
      else if contains_str err ''architecture'' then risk_reject ''architecture'' err new_risk_engine
      else if contains_str err ''unsafe'' \<or> contains_str err ''escape''
      then risk_reject ''escape'' err new_risk_engine
      else risk_reject ''package_validation'' err new_risk_engine)"

definition reject_inspection :: "package_result \<Rightarrow> package_result" where
  "reject_inspection r =
     (let a = assess (inspection_risk (pr_error r))
      in r\<lparr>pr_risk_score := score a, pr_risk_level := level_to_string (level a),
           pr_risk_action := action_to_string (action a)\<rparr>)"

definition refuse :: "string \<Rightarrow> package_result \<Rightarrow> package_result" where
  "refuse err r = r\<lparr>pr_ok := False, pr_error := err\<rparr>"

definition refuse_critical :: "string \<Rightarrow> package_result \<Rightarrow> package_result" where
  "refuse_critical err r =
     (refuse err r)\<lparr>pr_risk_level := ''critical'', pr_risk_action := ''reject''\<rparr>"

definition install_config :: "package_options \<Rightarrow> string \<Rightarrow> sandbox_config" where
  "install_config options root =
     default_config\<lparr>sc_rootfs := root, read_only_root := False, clean_environment := True,
       user_namespace := True, mount_namespace := True, network_namespace := True,
       cpu_seconds := po_timeout options, sc_max_processes := 128,
       max_file_bytes := 128 * 1024 * 1024, seccomp_allowlist := default_package_syscalls,
       cgroup := (cgroup default_config)\<lparr>cg_path := po_cgroup_root options\<rparr>\<rparr>"

definition install_command :: "string \<Rightarrow> string list" where
  "install_command filename =
     [''/usr/bin/pacman'', ''-U'', ''--noconfirm'', ''--root'', ''/'', ''--dbpath'',
      ''/var/lib/pacman'', ''/var/cache/pacman/pkg/'' @ filename]"

record scan_env =
  se_inspect :: inspect_env
  se_session_symlink :: bool
  se_session_error :: "string option"
  se_session :: "string option"
  se_workspace :: "string option"
  se_rootfs :: rootfs_env
  se_before :: "bool \<times> walk_entry list"
  se_pacman :: bool
  se_staging_read :: bool
  se_staging_write :: bool
  se_run :: "string list \<Rightarrow> sandbox_config \<Rightarrow> captured"
  se_after :: "bool \<times> walk_entry list"
  se_archive :: "string \<Rightarrow> archive_file"
  se_observe :: "string \<Rightarrow> string list \<Rightarrow> string list \<Rightarrow> string list \<Rightarrow> observe_options \<Rightarrow> observed"
  se_content :: "string option"
  se_database :: "db_io option"
  se_session_directory :: bool
  se_write :: "string \<Rightarrow> bool"

definition artifact_error_event :: string where
  "artifact_error_event =
     ''{'' @ quote @ ''schema_version'' @ quote @ '':1'' @ json_key ''type'' @ quote @ ''artifact_error'' @ quote @ ''}''"

definition observation_options :: "package_options \<Rightarrow> observe_options" where
  "observation_options options =
     \<lparr>oo_timeout = po_timeout options, oo_global_timeout = po_timeout options,
      oo_network = (po_network options = ''mirror''), oo_run_all = po_run_all options,
      oo_max_workers = po_workers options, oo_output_limit = 2 ^ 20,
      oo_cgroup_root = po_cgroup_root options\<rparr>"

text \<open>The comparison with the first snapshot, and the executables.\<close>

definition scan_found :: "scan_env \<Rightarrow> package_result \<Rightarrow> package_result" where
  "scan_found env r0 =
     (let r1 = record_diff (case_prod snapshot (se_before env)) (case_prod snapshot (se_after env)) r0
      in r1\<lparr>pr_metadata := find_executables (\<lambda>path. archive_read (se_archive env path) path (2 ^ 20))
                             (pr_metadata r1)\<rparr>)"

text \<open>The call of \<^verbatim>\<open>observe\<close>.\<close>

definition scan_observed :: "scan_env \<Rightarrow> package_options \<Rightarrow> string \<Rightarrow> package_metadata \<Rightarrow> observed" where
  "scan_observed env options root m =
     se_observe env root (pm_scripts m) (pm_hooks m) (pm_executables m) (observation_options options)"

text \<open>From the second snapshot on. Results come with the database.\<close>

definition scan_assess ::
  "scan_env \<Rightarrow> package_options \<Rightarrow> string \<Rightarrow> package_result \<Rightarrow> database \<Rightarrow> database \<times> package_result" where
  "scan_assess env options root r0 db =
     (let r2 = scan_found env r0;
          ob = scan_observed env options root (pr_metadata r2);
          r3 = record_observation ob r2;
          r4 = record_assessment (assess (scan_risk options ob r3)) r3;
          r5 = r4\<lparr>pr_events := pr_events r4 @ [policy_event options, complete_event]\<rparr>;
          (db', r6) = record_database (se_database env) options (se_content env) r5 db
      in if snd (write_artifacts (se_session_directory env) (se_write env) r6) then (db', r6)
         else (db', r6\<lparr>pr_events := pr_events r6 @ [artifact_error_event]\<rparr>))"

definition scan_install ::
  "scan_env \<Rightarrow> string \<Rightarrow> package_options \<Rightarrow> string \<Rightarrow> package_result \<Rightarrow> database \<Rightarrow>
   database \<times> package_result" where
  "scan_install env package options root r db =
     (if \<not> se_pacman env then
        scan_assess env options root
          (r\<lparr>pr_risk_factors := pr_risk_factors r @
               [''rootless pacman runtime unavailable; install behavior not observed'']\<rparr>) db
      else if \<not> se_staging_read env then (db, refuse ''package staging failed'' r)
      else if \<not> se_staging_write env then (db, refuse ''package staging write failed'' r)
      else
        (let installed = se_run env (install_command (path_filename package)) (install_config options root)
         in if cap_timed_out installed \<or> cap_status installed \<noteq> 0
            then (db, refuse (if cap_timed_out installed then ''pacman install timed out''
                              else ''pacman install failed'') r)
            else scan_assess env options root (r\<lparr>pr_installed := True\<rparr>) db))"

text \<open>The first invalid mirror, in the order of the loop.\<close>

definition bad_mirror :: "package_options \<Rightarrow> string option" where
  "bad_mirror options = find (\<lambda>m. \<not> valid_mirror m) (po_mirrors options)"

definition scan_session ::
  "scan_env \<Rightarrow> string \<Rightarrow> package_options \<Rightarrow> package_result \<Rightarrow> database \<Rightarrow> database \<times> package_result" where
  "scan_session env package options r db =
     (if se_session_symlink env then (db, refuse ''session root must not be symlink'' r)
      else case se_session_error env of
             Some err \<Rightarrow> (db, refuse (''rootfs creation failed: '' @ err) r)
           | None \<Rightarrow>
               (case se_session env of
                  None \<Rightarrow> (db, refuse ''unique session directory creation failed'' r)
                | Some artifact \<Rightarrow>
                    (let r1 = r\<lparr>pr_session := artifact\<rparr>
                     in case se_workspace env of
                          None \<Rightarrow> (db, refuse ''rootfs workspace creation failed'' r1)
                        | Some workspace \<Rightarrow>
                            (case snd (create (se_rootfs env) (po_rootfs options) workspace) of
                               Inl err \<Rightarrow> (db, refuse err r1)
                             | Inr root_session \<Rightarrow>
                                 if \<not> isolated root_session
                                 then (db, refuse_critical ''scan rejected: Btrfs rootfs isolation unavailable'' r1)
                                 else scan_install env package options (rs_writable root_session)
                                        (r1\<lparr>pr_events := pr_events r1 @ [session_event root_session]\<rparr>) db))))"

definition scan ::
  "scan_env \<Rightarrow> string \<Rightarrow> package_options \<Rightarrow> database \<Rightarrow> database \<times> package_result" where
  "scan env package options db =
     (if po_privileged options then
        (db, empty_result\<lparr>pr_error := ''privileged package scanning is disabled: rootless mode required'',
          pr_risk_level := ''critical'', pr_risk_action := ''reject''\<rparr>)
      else
        (let r = inspect (se_inspect env) package options
         in if \<not> pr_ok r then (db, reject_inspection r)
            else if po_network options = ''mirror'' \<and> po_mirrors options = [] then
              (db, refuse_critical ''mirror network policy requires at least one --mirror allowlist entry'' r)
            else case bad_mirror options of
                   Some mirror \<Rightarrow> (db, refuse_critical (''invalid mirror allowlist entry: '' @ mirror) r)
                 | None \<Rightarrow> scan_session env package options r db))"

section \<open>Snapshots and differences\<close>

lemma snapshot_sorted: "keys_sorted (snapshot root_exists walk)"
proof -
  have "keys_sorted m \<Longrightarrow> keys_sorted (fold snapshot_entry walk m)" for m
  proof (induction walk arbitrary: m)
    case (Cons e walk)
    then show ?case by (cases e) (simp_all add: map_put_sorted)
  qed simp
  from this [of "[]"] show ?thesis by (simp add: snapshot_def keys_sorted_def)
qed

text \<open>The paths of the second snapshot whose old state satisfies a test.\<close>

definition changed_paths :: "(file_state \<Rightarrow> file_state \<Rightarrow> bool) \<Rightarrow> file_snapshot \<Rightarrow> file_snapshot \<Rightarrow> string list" where
  "changed_paths P before after =
     map fst (filter (\<lambda>(path, state). case map_of before path of None \<Rightarrow> False | Some old \<Rightarrow> P old state) after)"

definition created_paths :: "file_snapshot \<Rightarrow> file_snapshot \<Rightarrow> string list" where
  "created_paths before after = map fst (filter (\<lambda>(path, state). map_of before path = None) after)"

lemma fold_diff_entry:
  "fold (diff_entry before) after r =
     r\<lparr>pr_created := pr_created r @ created_paths before after,
       pr_modified := pr_modified r @ changed_paths (\<lambda>old s. fs_size old \<noteq> fs_size s) before after,
       pr_mode_changed := pr_mode_changed r @ changed_paths (\<lambda>old s. fs_mode old \<noteq> fs_mode s) before after,
       pr_ownership_changed := pr_ownership_changed r @
         changed_paths (\<lambda>old s. fs_uid old \<noteq> fs_uid s \<or> fs_gid old \<noteq> fs_gid s) before after,
       pr_hash_changed := pr_hash_changed r @ changed_paths (\<lambda>old s. fs_hash old \<noteq> fs_hash s) before after\<rparr>"
proof (induction after arbitrary: r)
  case Nil
  then show ?case by (simp add: created_paths_def changed_paths_def)
next
  case (Cons e after)
  obtain path state where e: "e = (path, state)" by (cases e)
  show ?case
    unfolding fold_simps Cons.IH
    by (cases "map_of before path")
      (simp_all add: e diff_entry_def created_paths_def changed_paths_def Let_def)
qed

lemma set_created_paths: "set (created_paths before after) = dom (map_of after) - dom (map_of before)"
  by (force simp: created_paths_def dom_map_of_conv_image_fst map_of_eq_None_iff)

lemma set_changed_paths:
  assumes "distinct (map fst after)"
  shows "set (changed_paths P before after) =
    {path. \<exists>old state. map_of before path = Some old \<and> map_of after path = Some state \<and> P old state}"
proof -
  have "set (changed_paths P before after) =
      {path. \<exists>state. (path, state) \<in> set after \<and>
         (case map_of before path of None \<Rightarrow> False | Some old \<Rightarrow> P old state)}"
    unfolding changed_paths_def by (simp only: set_map set_filter) force
  also have "\<dots> = {path. \<exists>old state. map_of before path = Some old \<and> map_of after path = Some state \<and> P old state}"
    unfolding map_of_eq_Some_iff [OF assms, symmetric]
    by (auto split: option.splits)
  finally show ?thesis .
qed

text \<open>C26. The file system difference misses nothing and invents nothing: between two snapshots of a
  root, a path is reported as created or deleted exactly when it is in only one of them, and it is
  in none of the six lists exactly when both snapshots agree on it in size, mode, owner, group and
  content fingerprint (or neither has it).\<close>

theorem snapshot_diff_complete:
  fixes p :: string and eb ea :: bool and wb wa :: "walk_entry list"
  defines "before \<equiv> snapshot eb wb" and "after \<equiv> snapshot ea wa"
  defines "r \<equiv> record_diff before after empty_result"
  shows "set (pr_created r) = dom (map_of after) - dom (map_of before) \<and>
    set (pr_deleted r) = dom (map_of before) - dom (map_of after) \<and>
    (p \<notin> set (pr_created r) \<union> set (pr_deleted r) \<union> set (pr_modified r) \<union> set (pr_mode_changed r) \<union>
        set (pr_ownership_changed r) \<union> set (pr_hash_changed r)) =
      (map_of before p = map_of after p)"
proof -
  have da: "distinct (map fst after)" unfolding after_def
    by (rule keys_sorted_distinct) (rule snapshot_sorted)
  have cr: "pr_created r = created_paths before after"
    "pr_modified r = changed_paths (\<lambda>old s. fs_size old \<noteq> fs_size s) before after"
    "pr_mode_changed r = changed_paths (\<lambda>old s. fs_mode old \<noteq> fs_mode s) before after"
    "pr_ownership_changed r = changed_paths (\<lambda>old s. fs_uid old \<noteq> fs_uid s \<or> fs_gid old \<noteq> fs_gid s) before after"
    "pr_hash_changed r = changed_paths (\<lambda>old s. fs_hash old \<noteq> fs_hash s) before after"
    "pr_deleted r = filter (\<lambda>path. map_of after path = None) (map fst before)"
    by (simp_all add: r_def record_diff_def Let_def fold_diff_entry empty_result_def)
  have del: "set (pr_deleted r) = dom (map_of before) - dom (map_of after)"
    unfolding cr by (auto simp: dom_map_of_conv_image_fst map_of_eq_None_iff)
  have eq: "old = s \<longleftrightarrow> fs_size old = fs_size s \<and> fs_mode old = fs_mode s \<and> fs_uid old = fs_uid s \<and>
      fs_gid old = fs_gid s \<and> fs_hash old = fs_hash s" for old s :: file_state
    by (cases old; cases s) auto
  have part: "(p \<notin> set (pr_created r) \<union> set (pr_deleted r) \<union> set (pr_modified r) \<union> set (pr_mode_changed r) \<union>
        set (pr_ownership_changed r) \<union> set (pr_hash_changed r)) = (map_of before p = map_of after p)"
  proof (cases "map_of before p")
    case None
    then show ?thesis
      unfolding del unfolding cr set_created_paths set_changed_paths [OF da]
      by (cases "map_of after p") (simp_all add: domIff)
  next
    case (Some old)
    show ?thesis
    proof (cases "map_of after p")
      case None
      with Some show ?thesis
        unfolding del unfolding cr set_created_paths set_changed_paths [OF da] by (simp add: domIff)
    next
      case (Some state)
      with \<open>map_of before p = Some old\<close> show ?thesis
        unfolding del unfolding cr set_created_paths set_changed_paths [OF da]
        by (simp add: domIff eq [of old state]) blast
    qed
  qed
  show ?thesis using part del cr(1) set_created_paths by simp
qed

section \<open>The verdict\<close>

lemma scan_found_frame [simp]:
  "pr_ok (scan_found env r) = pr_ok r" "pr_installed (scan_found env r) = pr_installed r"
  by (simp_all add: scan_found_def record_diff_def fold_diff_entry Let_def)

lemma record_observation_frame [simp]:
  "pr_ok (record_observation ob r) = pr_ok r" "pr_installed (record_observation ob r) = pr_installed r"
  "pr_metadata (record_observation ob r) = pr_metadata r" "pr_created (record_observation ob r) = pr_created r"
  "pr_mode_changed (record_observation ob r) = pr_mode_changed r"
  "pr_ownership_changed (record_observation ob r) = pr_ownership_changed r"
  "pr_hash_changed (record_observation ob r) = pr_hash_changed r"
  "pr_network_events (record_observation ob r) = ob_network ob"
  "pr_coverage (record_observation ob r) = ob_coverage ob"
  "pr_smoke_scans (record_observation ob r) = ob_smoke ob"
  by (simp_all add: record_observation_def Let_def)

lemma find_executables_frame [simp]:
  "pm_scripts (find_executables read m) = pm_scripts m" "pm_hooks (find_executables read m) = pm_hooks m"
proof -
  have "pm_scripts (fold (note_executable read) paths m) = pm_scripts m \<and>
      pm_hooks (fold (note_executable read) paths m) = pm_hooks m" for paths
    by (induction paths arbitrary: m) (simp_all add: note_executable_def split: sum.split)
  then show "pm_scripts (find_executables read m) = pm_scripts m" "pm_hooks (find_executables read m) = pm_hooks m"
    by (simp_all add: find_executables_def Let_def)
qed

lemma apply_delta_ok [simp]: "pr_ok (apply_delta p d r) = pr_ok r"
  by (simp add: apply_delta_def Let_def)

lemma record_database_ok: "pr_ok (snd (record_database build options content r db)) = pr_ok r"
  by (auto simp: record_database_def record_stored_def storage_failed_def Let_def
      split: option.split prod.split sum.split)

text \<open>Storing a result keeps its verdict and what was observed.\<close>

lemma record_database_frame [simp]:
  "pr_coverage (snd (record_database build options content r db)) = pr_coverage r"
  "pr_smoke_scans (snd (record_database build options content r db)) = pr_smoke_scans r"
  "pr_installed (snd (record_database build options content r db)) = pr_installed r"
  by (auto simp: record_database_def record_stored_def storage_failed_def apply_delta_def Let_def
      split: option.split prod.split sum.split)

lemma scan_assess_recorded:
  "pr_coverage (snd (scan_assess env options root r db)) =
     ob_coverage (scan_observed env options root (pr_metadata (scan_found env r)))"
  "pr_smoke_scans (snd (scan_assess env options root r db)) =
     ob_smoke (scan_observed env options root (pr_metadata (scan_found env r)))"
  "pr_installed (snd (scan_assess env options root r db)) = pr_installed r"
  by (simp_all add: scan_assess_def Let_def case_prod_unfold record_assessment_def)

text \<open>The weight of a package: what counts against it, added up.\<close>

definition risk_weight :: "package_options \<Rightarrow> observed \<Rightarrow> package_result \<Rightarrow> int" where
  "risk_weight options ob r =
     (if pr_installed r then 0 else 5) +
     (if pm_scripts (pr_metadata r) = [] then 0 else 15) +
     (if pm_hooks (pr_metadata r) = [] then 0 else 20) +
     int (min (length (pr_created r) * 2) 20) +
     (if pr_mode_changed r = [] then 0 else 15) + (if pr_ownership_changed r = [] then 0 else 20) +
     (if pr_hash_changed r = [] then 0 else 10) +
     (if ob_network ob \<noteq> [] \<and> po_network options = ''mirror'' then 15 else 0) +
     10 * int (length (ob_risk_factors ob))"

lemma add_if_engine:
  "re_direct_reject (add_if c n w x e) = re_direct_reject e"
  "0 \<le> w \<Longrightarrow> factor_sum (re_factors (add_if c n w x e)) = factor_sum (re_factors e) + (if c then w else 0)"
  by (simp_all add: add_if_def risk_add_def factor_sum_def)

lemma fold_observation_engine:
  "re_direct_reject (fold (\<lambda>factor e. risk_add ''observation'' 10 factor e) fs e) = re_direct_reject e"
  "factor_sum (re_factors (fold (\<lambda>factor e. risk_add ''observation'' 10 factor e) fs e)) =
     factor_sum (re_factors e) + 10 * int (length fs)"
  by (induction fs arbitrary: e) (simp_all add: risk_add_def factor_sum_def)

lemma scan_risk_engine:
  "\<not> re_direct_reject (scan_risk options ob (record_observation ob r))"
  "factor_sum (re_factors (scan_risk options ob (record_observation ob r))) =
     risk_weight options ob r"
proof -
  have new: "\<not> re_direct_reject new_risk_engine" "factor_sum (re_factors new_risk_engine) = 0"
    by (simp_all add: new_risk_engine_def factor_sum_def)
  show "\<not> re_direct_reject (scan_risk options ob (record_observation ob r))"
    by (simp add: scan_risk_def fold_observation_engine add_if_engine new)
  show "factor_sum (re_factors (scan_risk options ob (record_observation ob r))) = risk_weight options ob r"
    by (simp add: scan_risk_def fold_observation_engine add_if_engine risk_weight_def new)
qed

lemma scan_risk_action:
  "action (assess (scan_risk options ob (record_observation ob r))) = ActionReject \<longleftrightarrow>
     50 \<le> risk_weight options ob r"
  by (simp add: assess_eq Let_def scan_risk_engine action_of_score_def min_def)

lemma scan_assess_ok:
  "pr_ok (snd (scan_assess env options root r db)) \<longleftrightarrow>
     pr_ok r \<and>
     risk_weight options (scan_observed env options root (pr_metadata (scan_found env r))) (scan_found env r) < 50"
proof -
  have "pr_ok (r'\<lparr>pr_events := x\<rparr>) = pr_ok r'" for r' :: package_result and x by simp
  then show ?thesis
    unfolding scan_assess_def Let_def
    by (simp add: case_prod_unfold record_database_ok record_assessment_def scan_risk_action not_le)
qed

lemma refuse_ok [simp]: "\<not> pr_ok (refuse e r)" "\<not> pr_ok (refuse_critical e r)"
  by (simp_all add: refuse_def refuse_critical_def)

text \<open>What the scan has established when it comes to assess, for the session \<^term>\<open>s\<close> it works in: its own
  conditions, the session created in its own workspace, and the installation, if there is a package manager
  in the snapshot.\<close>

definition scan_session_of :: "scan_env \<Rightarrow> package_options \<Rightarrow> session \<Rightarrow> bool" where
  "scan_session_of env options s \<longleftrightarrow>
     \<not> se_session_symlink env \<and> se_session_error env = None \<and> se_session env \<noteq> None \<and>
     (\<exists>workspace. se_workspace env = Some workspace \<and>
        snd (create (se_rootfs env) (po_rootfs options) workspace) = Inr s) \<and> isolated s"

definition scan_installed :: "scan_env \<Rightarrow> string \<Rightarrow> package_options \<Rightarrow> string \<Rightarrow> bool" where
  "scan_installed env package options root \<longleftrightarrow>
     se_staging_read env \<and> se_staging_write env \<and>
     cap_status (se_run env (install_command (path_filename package)) (install_config options root)) = 0 \<and>
     \<not> cap_timed_out (se_run env (install_command (path_filename package)) (install_config options root))"

definition scan_cleared :: "scan_env \<Rightarrow> string \<Rightarrow> package_options \<Rightarrow> session \<Rightarrow> bool" where
  "scan_cleared env package options s \<longleftrightarrow>
     \<not> po_privileged options \<and> pr_ok (inspect (se_inspect env) package options) \<and>
     list_all valid_mirror (po_mirrors options) \<and>
     \<not> (po_network options = ''mirror'' \<and> po_mirrors options = []) \<and>
     scan_session_of env options s \<and>
     (se_pacman env \<longrightarrow> scan_installed env package options (rs_writable s))"

text \<open>The result the assessment starts from: the inspection's, with the session, its event, and whether the
  package was installed.\<close>

definition scan_basis :: "scan_env \<Rightarrow> string \<Rightarrow> package_options \<Rightarrow> session \<Rightarrow> package_result" where
  "scan_basis env package options s =
     (let r = inspect (se_inspect env) package options
      in r\<lparr>pr_session := (case se_session env of Some artifact \<Rightarrow> artifact | None \<Rightarrow> []),
           pr_events := pr_events r @ [session_event s],
           pr_installed := se_pacman env,
           pr_risk_factors := pr_risk_factors r @
             (if se_pacman env then []
              else [''rootless pacman runtime unavailable; install behavior not observed''])\<rparr>)"

lemma bad_mirror_None: "bad_mirror options = None \<longleftrightarrow> list_all valid_mirror (po_mirrors options)"
  by (auto simp: bad_mirror_def find_None_iff list_all_iff)

text \<open>A step of the scan that refuses leaves the database alone.\<close>

definition refused :: "database \<Rightarrow> database \<times> package_result \<Rightarrow> bool" where
  "refused db res \<longleftrightarrow> fst res = db \<and> \<not> pr_ok (snd res)"

lemma refused_simps [simp]:
  "refused db (db, refuse e r)" "refused db (db, refuse_critical e r)"
  by (simp_all add: refused_def)

lemma scan_session_stages:
  "refused db (scan_session env package options r db) \<or>
   (\<exists>s. scan_session_of env options s \<and>
      scan_session env package options r db = scan_install env package options (rs_writable s)
        (r\<lparr>pr_session := (case se_session env of Some artifact \<Rightarrow> artifact | None \<Rightarrow> []),
           pr_events := pr_events r @ [session_event s]\<rparr>) db)"
  by (auto simp: scan_session_def scan_session_of_def Let_def split: option.split sum.split)

lemma scan_install_stages:
  "refused db (scan_install env package options root r db) \<or>
   (se_pacman env \<longrightarrow> scan_installed env package options root) \<and>
   scan_install env package options root r db = scan_assess env options root
     (if se_pacman env then r\<lparr>pr_installed := True\<rparr>
      else r\<lparr>pr_risk_factors := pr_risk_factors r @
             [''rootless pacman runtime unavailable; install behavior not observed'']\<rparr>) db"
  by (auto simp: scan_install_def scan_installed_def Let_def)

text \<open>The result of the scan is the assessment of its own basis.\<close>

lemma scan_stages:
  "refused db (scan env package options db) \<or>
   (\<exists>s. scan_cleared env package options s \<and>
      scan env package options db =
        scan_assess env options (rs_writable s) (scan_basis env package options s) db)"
proof (cases "po_privileged options \<or> \<not> pr_ok (inspect (se_inspect env) package options)")
  case True
  then show ?thesis
    by (auto simp: scan_def empty_result_def reject_inspection_def Let_def refused_def)
next
  case False
  let ?r = "inspect (se_inspect env) package options"
  show ?thesis
  proof (cases "po_network options = ''mirror'' \<and> po_mirrors options = [] \<or> bad_mirror options \<noteq> None")
    case True
    with False show ?thesis by (auto simp: scan_def Let_def)
  next
    case clear: False
    with False have scan: "scan env package options db = scan_session env package options ?r db"
      by (auto simp: scan_def Let_def)
    from scan_session_stages [of db env package options ?r] show ?thesis
    proof
      assume "\<exists>s. scan_session_of env options s \<and>
        scan_session env package options ?r db = scan_install env package options (rs_writable s)
          (?r\<lparr>pr_session := (case se_session env of Some artifact \<Rightarrow> artifact | None \<Rightarrow> []),
             pr_events := pr_events ?r @ [session_event s]\<rparr>) db"
      then obtain s where s: "scan_session_of env options s"
        "scan env package options db = scan_install env package options (rs_writable s)
          (?r\<lparr>pr_session := (case se_session env of Some artifact \<Rightarrow> artifact | None \<Rightarrow> []),
             pr_events := pr_events ?r @ [session_event s]\<rparr>) db" unfolding scan by blast
      let ?x = "?r\<lparr>pr_session := (case se_session env of Some artifact \<Rightarrow> artifact | None \<Rightarrow> []),
             pr_events := pr_events ?r @ [session_event s]\<rparr>"
      have basis: "(if se_pacman env then ?x\<lparr>pr_installed := True\<rparr>
          else ?x\<lparr>pr_risk_factors := pr_risk_factors ?x @
             [''rootless pacman runtime unavailable; install behavior not observed'']\<rparr>) =
          scan_basis env package options s"
        using inspect_fresh(8) [of "se_inspect env" package options]
        by (cases "?r") (simp add: scan_basis_def Let_def)
      from scan_install_stages [of db env package options "rs_writable s" ?x] show ?thesis
      proof
        assume "(se_pacman env \<longrightarrow> scan_installed env package options (rs_writable s)) \<and>
          scan_install env package options (rs_writable s) ?x db = scan_assess env options (rs_writable s)
            (if se_pacman env then ?x\<lparr>pr_installed := True\<rparr>
             else ?x\<lparr>pr_risk_factors := pr_risk_factors ?x @
               [''rootless pacman runtime unavailable; install behavior not observed'']\<rparr>) db"
        then have inst: "se_pacman env \<longrightarrow> scan_installed env package options (rs_writable s)"
          and eq: "scan env package options db =
            scan_assess env options (rs_writable s) (scan_basis env package options s) db"
          unfolding s(2) basis by blast+
        have "scan_cleared env package options s"
          unfolding scan_cleared_def bad_mirror_None [symmetric] using s(1) inst clear False by blast
        with eq show ?thesis by blast
      qed (simp add: s(2))
    qed (simp add: scan)
  qed
qed

lemma scan_basis_simps [simp]:
  "pr_ok (scan_basis env package options s) = pr_ok (inspect (se_inspect env) package options)"
  "pr_installed (scan_basis env package options s) = se_pacman env"
  "pr_metadata (scan_basis env package options s) = pr_metadata (inspect (se_inspect env) package options)"
  by (simp_all add: scan_basis_def Let_def)

lemma scan_found_metadata [simp]:
  "pm_scripts (pr_metadata (scan_found env r)) = pm_scripts (pr_metadata r)"
  "pm_hooks (pr_metadata (scan_found env r)) = pm_hooks (pr_metadata r)"
  by (simp_all add: scan_found_def record_diff_def fold_diff_entry Let_def)

text \<open>C5. A scan passes, or leaves a trace in the observation database, only behind all its gates: the scan
  was not privileged, inspection passed, the mirror list is valid and not empty when mirrors are asked
  for, the session root is no symbolic link, the root file system is an isolated session in the workspace
  of this scan, and if that root has a package manager, the sandboxed installation ran to its end with
  status zero (if it has none, the code goes on without installing). Behind the gates the scan passes if
  and only if its own risk weight is below 50: 5 if nothing was installed, 15 for scripts and 20 for hooks
  in the archive's listing, 2 for each file created up to 20, 15, 20 and 10 for changed permissions,
  owners and contents, 15 for network events under the mirror policy, and 10 for each risk factor of the
  observation of that root with the scripts, hooks and executables of the package.\<close>

theorem scan_gates:
  assumes "pr_ok (snd (scan env package options db)) \<or> fst (scan env package options db) \<noteq> db"
  shows "\<exists>workspace s inspected found observed.
    \<not> po_privileged options \<and> list_all valid_mirror (po_mirrors options) \<and>
    (po_network options = ''mirror'' \<longrightarrow> po_mirrors options \<noteq> []) \<and> \<not> se_session_symlink env \<and>
    inspected = inspect (se_inspect env) package options \<and> pr_ok inspected \<and>
    se_workspace env = Some workspace \<and>
    snd (create (se_rootfs env) (po_rootfs options) workspace) = Inr s \<and> isolated s \<and>
    (se_pacman env \<longrightarrow> scan_installed env package options (rs_writable s)) \<and>
    found = scan_found env (scan_basis env package options s) \<and>
    observed = se_observe env (rs_writable s) (pm_scripts (pr_metadata inspected))
      (pm_hooks (pr_metadata inspected)) (pm_executables (pr_metadata found)) (observation_options options) \<and>
    (pr_ok (snd (scan env package options db)) \<longleftrightarrow>
      (if se_pacman env then 0 else 5) +
      (if pm_scripts (pr_metadata inspected) = [] then 0 else 15) +
      (if pm_hooks (pr_metadata inspected) = [] then 0 else 20) +
      int (min (length (pr_created found) * 2) 20) +
      (if pr_mode_changed found = [] then 0 else 15) + (if pr_ownership_changed found = [] then 0 else 20) +
      (if pr_hash_changed found = [] then 0 else 10) +
      (if ob_network observed \<noteq> [] \<and> po_network options = ''mirror'' then 15 else 0) +
      10 * int (length (ob_risk_factors observed)) < 50)"
proof -
  from assms scan_stages [of db env package options] obtain s where
    cleared: "scan_cleared env package options s"
    and scan: "scan env package options db =
      scan_assess env options (rs_writable s) (scan_basis env package options s) db"
    by (auto simp: refused_def)
  from cleared obtain workspace where w: "se_workspace env = Some workspace"
    "snd (create (se_rootfs env) (po_rootfs options) workspace) = Inr s" "isolated s" "\<not> se_session_symlink env"
    by (auto simp: scan_cleared_def scan_session_of_def)
  let ?i = "inspect (se_inspect env) package options"
  let ?f = "scan_found env (scan_basis env package options s)"
  let ?o = "se_observe env (rs_writable s) (pm_scripts (pr_metadata ?i)) (pm_hooks (pr_metadata ?i))
    (pm_executables (pr_metadata ?f)) (observation_options options)"
  have ob: "scan_observed env options (rs_writable s) (pr_metadata ?f) = ?o"
    by (simp add: scan_observed_def)
  have "pr_ok (snd (scan env package options db)) \<longleftrightarrow> risk_weight options ?o ?f < 50"
    using cleared unfolding scan scan_assess_ok ob by (simp add: scan_cleared_def)
  note ok = this [unfolded risk_weight_def scan_found_frame scan_found_metadata scan_basis_simps]
  have gates: "\<not> po_privileged options" "list_all valid_mirror (po_mirrors options)"
    "po_network options = ''mirror'' \<longrightarrow> po_mirrors options \<noteq> []" "pr_ok ?i"
    "se_pacman env \<longrightarrow> scan_installed env package options (rs_writable s)"
    using cleared by (auto simp: scan_cleared_def)
  show ?thesis
    by (intro exI [of _ workspace] exI [of _ s] exI [of _ ?i] exI [of _ ?f] exI [of _ ?o] conjI)
      (rule gates w ok refl)+
qed

text \<open>A scan of a snapshot with a package manager whose installation succeeds.\<close>

definition sample_scan_env :: scan_env where
  "sample_scan_env =
     \<lparr>se_inspect = sample_env, se_session_symlink = False, se_session_error = None,
      se_session = Some ''/tmp/s'', se_workspace = Some ''/w'',
      se_rootfs = sample_rootfs_env, se_before = (True, []), se_pacman = True,
      se_staging_read = True, se_staging_write = True, se_run = \<lambda>_ _. no_capture\<lparr>cap_status := 0\<rparr>,
      se_after = (True, []), se_archive = \<lambda>_. sample_list_file, se_observe = \<lambda>_ _ _ _ _. no_observation,
      se_content = None, se_database = None, se_session_directory = True, se_write = \<lambda>_. True\<rparr>"

lemma sample_scan_ok:
  "pr_ok (snd (scan sample_scan_env ''hello-1-1-any.pkg.tar.zst'' default_package_options empty_database))"
proof -
  let ?p = "''hello-1-1-any.pkg.tar.zst''" and ?o = default_package_options
  obtain s where s: "snd (create sample_rootfs_env (po_rootfs ?o) ''/w'') = Inr s" "isolated s"
    using sample_create by (auto simp: default_package_options_def isolated_def)
  let ?r = "(inspect sample_env ?p ?o)\<lparr>pr_session := ''/tmp/s'',
      pr_events := pr_events (inspect sample_env ?p ?o) @ [session_event s], pr_installed := True\<rparr>"
  have opts: "\<not> po_privileged ?o" "po_network ?o = ''off''" "po_mirrors ?o = []"
    by (simp_all add: default_package_options_def)
  have env: "se_inspect sample_scan_env = sample_env" by (simp add: sample_scan_env_def)
  have scan: "scan sample_scan_env ?p ?o empty_database =
      scan_assess sample_scan_env ?o (rs_writable s) ?r empty_database"
    unfolding scan_def env using sample_inspect_ok opts
    by (simp add: Let_def bad_mirror_def scan_session_def scan_install_def sample_scan_env_def no_capture_def s)
  have found: "pr_created (scan_found sample_scan_env ?r) = []" "pr_mode_changed (scan_found sample_scan_env ?r) = []"
    "pr_ownership_changed (scan_found sample_scan_env ?r) = []"
    "pr_hash_changed (scan_found sample_scan_env ?r) = []"
    by (simp_all add: scan_found_def sample_scan_env_def snapshot_def record_diff_def Let_def inspect_fresh)
  have none: "scan_observed sample_scan_env ?o root m = no_observation" for root m
    by (simp add: scan_observed_def sample_scan_env_def)
  have "risk_weight ?o no_observation (scan_found sample_scan_env ?r) < 50"
    unfolding risk_weight_def found by (simp add: no_observation_def)
  then show ?thesis
    unfolding scan scan_assess_ok none using sample_inspect_ok by simp
qed

theorem scan_gates_witness:
  "pr_ok (snd (scan sample_scan_env ''hello-1-1-any.pkg.tar.zst'' default_package_options empty_database)) \<and>
   (\<exists>s. isolated s \<and>
      scan_installed sample_scan_env ''hello-1-1-any.pkg.tar.zst'' default_package_options (rs_writable s))"
proof -
  have "se_pacman sample_scan_env" by (simp add: sample_scan_env_def)
  with scan_gates [of sample_scan_env "''hello-1-1-any.pkg.tar.zst''" default_package_options empty_database]
    sample_scan_ok show ?thesis by blast
qed

section \<open>Ranges\<close>

definition in_range :: "package_result \<Rightarrow> bool" where
  "in_range r \<longleftrightarrow> 0 \<le> pr_risk_score r \<and> pr_risk_score r \<le> 100 \<and>
     0 \<le> pr_coverage_confidence r \<and> pr_coverage_confidence r \<le> 100"

lemma assess_score_range: "risk_wf e \<Longrightarrow> 0 \<le> score (assess e) \<and> score (assess e) \<le> 100"
  using factor_sum_nonneg [of e] by (simp add: assess_eq Let_def)

lemma risk_wf_add_if [simp]: "risk_wf e \<Longrightarrow> risk_wf (add_if c n w x e)"
  by (simp add: add_if_def)

lemma scan_risk_wf: "risk_wf (scan_risk options ob r)"
proof -
  have "risk_wf e \<Longrightarrow> risk_wf (fold (\<lambda>factor e. risk_add ''observation'' 10 factor e) fs e)" for fs e
    by (induction fs arbitrary: e) simp_all
  then show ?thesis unfolding scan_risk_def by simp
qed

lemma coverage_confidence_range: "0 \<le> coverage_confidence c n \<and> coverage_confidence c n \<le> 100"
  by (simp add: coverage_confidence_def)

lemma in_range_refuse [simp]: "in_range (refuse e r) = in_range r" "in_range (refuse_critical e r) = in_range r"
  by (simp_all add: in_range_def refuse_def refuse_critical_def)

lemma apply_delta_range: "in_range r \<Longrightarrow> in_range (apply_delta p d r)"
  by (simp add: in_range_def apply_delta_def Let_def)

lemma record_database_range: "in_range r \<Longrightarrow> in_range (snd (record_database build options content r db))"
proof -
  assume r: "in_range r"
  then have "in_range (r\<lparr>pr_baseline := b\<rparr>)" "in_range (storage_failed w r)"
    "in_range (r\<lparr>pr_risk_factors := f\<rparr>)" "in_range (storage_failed w (r\<lparr>pr_baseline := b\<rparr>))" for b w f
    by (simp_all add: in_range_def storage_failed_def)
  with r show ?thesis
    by (auto simp: record_database_def record_stored_def Let_def apply_delta_range
        split: option.split prod.split sum.split)
qed

lemma scan_assess_range: "in_range (snd (scan_assess env options root r db))"
proof -
  let ?ob = "scan_observed env options root (pr_metadata (scan_found env r))"
  let ?o = "record_observation ?ob (scan_found env r)"
  let ?a = "record_assessment (assess (scan_risk options ?ob ?o)) ?o"
  have "in_range ?a"
    using assess_score_range [OF scan_risk_wf] coverage_confidence_range
    by (simp add: in_range_def record_assessment_def record_observation_def Let_def)
  then have "in_range (snd (record_database b options' c (?a\<lparr>pr_events := x\<rparr>) db))" for b options' c x
    by (intro record_database_range) (simp add: in_range_def)
  then show ?thesis by (simp add: scan_assess_def Let_def case_prod_unfold in_range_def)
qed

lemma scan_session_range: "in_range r \<Longrightarrow> in_range (snd (scan_session env package options r db))"
proof -
  assume r: "in_range r"
  then have upd: "in_range (r\<lparr>pr_session := a\<rparr>)" "in_range (r\<lparr>pr_session := a, pr_events := e\<rparr>)" for a e
    by (simp_all add: in_range_def)
  have inst: "in_range r' \<Longrightarrow> in_range (snd (scan_install env package options root r' db))" for root r'
    by (simp add: scan_install_def scan_assess_range Let_def)
  from r upd show ?thesis
    by (auto simp: scan_session_def Let_def intro!: inst split: option.split sum.split prod.split)
qed

text \<open>Whatever the package, the host and the database answer, the reported risk score and the
  coverage confidence are percentages: they lie between 0 and 100 in every outcome of a scan,
  refusals, storage failures and the behavioural delta included.\<close>

theorem scan_scores_in_range:
  "0 \<le> pr_risk_score (snd (scan env package options db)) \<and>
   pr_risk_score (snd (scan env package options db)) \<le> 100 \<and>
   0 \<le> pr_coverage_confidence (snd (scan env package options db)) \<and>
   pr_coverage_confidence (snd (scan env package options db)) \<le> 100"
proof -
  let ?r = "inspect (se_inspect env) package options"
  have r: "in_range ?r" by (simp add: in_range_def inspect_fresh)
  have "risk_wf (inspection_risk e)" for e by (simp add: inspection_risk_def)
  then have rej: "in_range (reject_inspection ?r)"
    using assess_score_range by (simp add: reject_inspection_def in_range_def Let_def inspect_fresh)
  have emp: "in_range (empty_result\<lparr>pr_error := x, pr_risk_level := y, pr_risk_action := z\<rparr>)" for x y z
    by (simp add: in_range_def empty_result_def)
  have "in_range (snd (scan env package options db))"
    unfolding scan_def Let_def
    using r rej emp scan_session_range [OF r] by (simp split: option.split)
  then show ?thesis by (simp add: in_range_def)
qed

text \<open>A behavioural delta of a scan that scored at least 35 sets the action and the verdict to
  reject, whatever they were, but leaves \<^verbatim>\<open>ok\<close> as it was, and turns a critical level into
  high.\<close>

theorem delta_reject_keeps_ok:
  assumes "de_compared d" "de_added_events d \<noteq> []" "35 \<le> pr_risk_score r" "pr_ok r"
  shows "pr_risk_action (apply_delta p d r) = ''reject'' \<and> pr_verdict (apply_delta p d r) = ''reject'' \<and>
    pr_risk_level (apply_delta p d r) = ''high'' \<and> pr_ok (apply_delta p d r)"
  using assms by (simp add: apply_delta_def Let_def)

end
