(* ===== verification/Aur_Manifest.thy ===== *)
theory Aur_Manifest
  imports Execell_Prelude
begin

text \<open>
  The static reader of PKGBUILD files (\<^verbatim>\<open>src/package/aur.cpp\<close>): single-line assignments,
  words of arrays, and the manifest made of them. The file is a parameter: whether it is regular,
  its size, and its text when it can be opened.
\<close>

section \<open>Assignments\<close>

definition is_blank :: "char \<Rightarrow> bool" where
  "is_blank c \<longleftrightarrow> c = CHR '' '' \<or> c = CHR 0x09"

text \<open>\<^verbatim>\<open>while (line.starts_with(" ") || line.starts_with("\t")) line.remove_prefix(1)\<close>.\<close>

fun strip_blanks :: "string \<Rightarrow> string" where
  "strip_blanks [] = []"
| "strip_blanks (c # s) = (if is_blank c then strip_blanks s else c # s)"

definition unquote :: "string \<Rightarrow> string" where
  "unquote line =
     (if length line \<ge> 2 \<and>
         (hd line = CHR 0x27 \<and> last line = CHR 0x27 \<or> hd line = CHR 0x22 \<and> last line = CHR 0x22)
      then substr line 1 (length line - 2) else line)"

definition assigned :: "string \<Rightarrow> string \<Rightarrow> string option" where
  "assigned key line =
     (let stripped = strip_blanks line; prefix = key @ ''=''
      in if starts_with stripped prefix
         then Some (unquote (strip_blanks (drop (length prefix) stripped))) else None)"

text \<open>The loop of \<^verbatim>\<open>assignment\<close>, from a position.\<close>

function assignment_from :: "string \<Rightarrow> string \<Rightarrow> nat \<Rightarrow> string" where
  "assignment_from text key position =
     (if position < length text then
        (let end = find_if_from (\<lambda>c. c = CHR 0x0A) text position;
             line = substr text position
               (case end of None \<Rightarrow> length text - position | Some e \<Rightarrow> e - position)
         in case assigned key line of
              Some value \<Rightarrow> value
            | None \<Rightarrow> (case end of None \<Rightarrow> [] | Some e \<Rightarrow> assignment_from text key (e + 1)))
      else [])"
  by pat_completeness auto
termination
proof (relation "measure (\<lambda>(text, key, position). Suc (length text) - position)", goal_cases)
  case 1
  then show ?case by simp
next
  case (2 str key position x xa e)
  then have "find_if_from (\<lambda>c. c = CHR 0x0A) str position = Some e" by simp
  from find_if_from_bounds [OF this] show ?case by auto
qed

declare assignment_from.simps [simp del]

definition assignment :: "string \<Rightarrow> string \<Rightarrow> string" where
  "assignment text key = assignment_from text key 0"

section \<open>Words\<close>

definition array_mark :: "char \<Rightarrow> bool" where
  "array_mark c \<longleftrightarrow> c = CHR ''('' \<or> c = CHR '')'' \<or> c = CHR 0x22 \<or> c = CHR 0x27"

function split_words :: "string \<Rightarrow> string list" where
  "split_words s =
     (let t = dropWhile is_space s
      in if t = [] then []
         else takeWhile (\<lambda>c. \<not> is_space c) t # split_words (dropWhile (\<lambda>c. \<not> is_space c) t))"
  by pat_completeness auto
termination
proof (relation "measure length", goal_cases)
  case 1
  then show ?case by simp
next
  case (2 s x)
  then have t: "dropWhile is_space s \<noteq> []" by simp
  then have "\<not> is_space (hd (dropWhile is_space s))" by (rule hd_dropWhile)
  with t have "length (dropWhile (\<lambda>c. \<not> is_space c) (dropWhile is_space s)) < length (dropWhile is_space s)"
    by (cases "dropWhile is_space s") (auto simp: le_imp_less_Suc length_dropWhile_le)
  also have "\<dots> \<le> length s" by (rule length_dropWhile_le)
  finally show ?case using 2 by simp
qed

declare split_words.simps [simp del]

definition words :: "string \<Rightarrow> string list" where
  "words value = split_words (map (\<lambda>c. if array_mark c then CHR '' '' else c) value)"

section \<open>The manifest\<close>

record aur_source =
  as_value :: string
  as_hash :: string

record manifest =
  mf_name :: string
  mf_version :: string
  mf_release :: string
  mf_architectures :: "string list"
  mf_sources :: "aur_source list"
  mf_phases :: "string list"
  mf_findings :: "string list"

definition pair_sources :: "string list \<Rightarrow> string list \<Rightarrow> aur_source list" where
  "pair_sources source_words hash_words =
     map (\<lambda>index. \<lparr>as_value = source_words ! index,
                   as_hash = (if index < length hash_words then hash_words ! index else [])\<rparr>)
       [0 ..< length source_words]"

definition phase_names :: "string list" where
  "phase_names = [''prepare'', ''build'', ''check'', ''package'', ''pkgver'']"

definition suspicious :: "string list" where
  "suspicious = [''eval'', ''curl | sh'', ''wget | sh'', ''systemctl'', ''sudo'', ''setcap'', ''chmod +s'',
     ''mount '', ''insmod'', ''modprobe'']"

record pkgbuild_file =
  pf_regular :: bool
  pf_size :: "64 word"
  pf_text :: "string option"

definition manifest_of :: "string \<Rightarrow> manifest" where
  "manifest_of text =
     \<lparr>mf_name = assignment text ''pkgname'', mf_version = assignment text ''pkgver'',
      mf_release = assignment text ''pkgrel'', mf_architectures = words (assignment text ''arch''),
      mf_sources = pair_sources (words (assignment text ''source'')) (words (assignment text ''sha256sums'')),
      mf_phases = filter (\<lambda>phase. contains_str text (phase @ ''()'')) phase_names,
      mf_findings = map (\<lambda>pattern. ''PKGBUILD contains suspicious construct: '' @ pattern)
        (filter (contains_str text) suspicious)\<rparr>"

definition parse :: "pkgbuild_file \<Rightarrow> 64 word \<Rightarrow> manifest expected" where
  "parse f max_bytes =
     (if \<not> pf_regular f then Inl ''PKGBUILD is not a regular file''
      else if pf_size f > max_bytes then Inl ''PKGBUILD exceeds size limit''
      else case pf_text f of
             None \<Rightarrow> Inl ''PKGBUILD open failed''
           | Some text \<Rightarrow>
               if CHR 0x00 \<in> set text then Inl ''PKGBUILD contains NUL byte''
               else
                 (let m = manifest_of text
                  in if mf_name m = [] \<or> mf_version m = [] then Inl ''PKGBUILD missing pkgname or pkgver''
                     else Inr (if mf_architectures m = []
                               then m\<lparr>mf_findings := mf_findings m @ [''architecture declaration missing'']\<rparr>
                               else m)))"

section \<open>Properties\<close>

text \<open>The reference: the first line that assigns the key.\<close>

fun first_assigned :: "string \<Rightarrow> string list \<Rightarrow> string" where
  "first_assigned key [] = []"
| "first_assigned key (line # lines) =
     (case assigned key line of Some value \<Rightarrow> value | None \<Rightarrow> first_assigned key lines)"

lemma assigned_empty [simp]: "assigned key [] = None"
  by (cases key) (simp_all add: assigned_def starts_with_def)

lemma assignment_from_lines:
  "position \<le> length str \<Longrightarrow>
     assignment_from str key position = first_assigned key (split_on (CHR 0x0A) (drop position str))"
proof (induction str key position rule: assignment_from.induct)
  case (1 str key position)
  let ?f = "find_if (\<lambda>c. c = CHR 0x0A) (drop position str)"
  have sp: "split_on (CHR 0x0A) (drop position str) = (case ?f of
      None \<Rightarrow> [drop position str] | Some i \<Rightarrow> take i (drop position str) # split_on (CHR 0x0A) (drop (Suc i) (drop position str)))"
  proof -
    have "(\<lambda>c. c = CHR 0x0A) = (=) (CHR 0x0A)" by auto
    then show ?thesis using split_on_find [of "CHR 0x0A" "drop position str"] by simp
  qed
  show ?case
  proof (cases "position < length str")
    case False
    with 1(2) show ?thesis by (subst assignment_from.simps) simp
  next
    case True
    show ?thesis
    proof (cases ?f)
      case None
      with True show ?thesis
        unfolding sp by (subst assignment_from.simps) (simp add: find_if_from_def substr_def split: option.split)
    next
      case (Some i)
      then have i: "i < length (drop position str)" by (blast dest: find_if_Some)
      have IH: "assigned key (take i (drop position str)) = None \<Longrightarrow>
          assignment_from str key (position + i + 1) =
          first_assigned key (split_on (CHR 0x0A) (drop (position + i + 1) str))"
        using 1(1) [OF True refl refl, of "position + i"] Some i by (simp add: find_if_from_def substr_def)
      from True Some IH show ?thesis
        unfolding sp
        by (subst assignment_from.simps)
          (simp add: find_if_from_def substr_def add.commute split: option.split)
    qed
  qed
qed

text \<open>The value of a key is that of the first line of the file that assigns it, whatever the
  other lines are: the position-based loop of \<^verbatim>\<open>assignment\<close> computes the same as walking
  the list of lines.\<close>

theorem assignment_first_line:
  "assignment str key = first_assigned key (split_on (CHR 0x0A) str)"
  unfolding assignment_def using assignment_from_lines [of 0 str key] by simp

lemma split_words_clean:
  "w \<in> set (split_words s) \<Longrightarrow> w \<noteq> [] \<and> list_all (\<lambda>c. \<not> is_space c) w \<and> set w \<subseteq> set s"
proof (induction s rule: split_words.induct)
  case (1 s)
  let ?t = "dropWhile is_space s"
  show ?case
  proof (cases "?t = []")
    case True
    with 1(2) show ?thesis by (subst (asm) split_words.simps) simp
  next
    case False
    have eq: "split_words s = takeWhile (\<lambda>c. \<not> is_space c) ?t # split_words (dropWhile (\<lambda>c. \<not> is_space c) ?t)"
      by (subst split_words.simps) (simp only: Let_def False if_False)
    have "set ?t \<subseteq> set s" by (auto dest: set_dropWhileD)
    moreover have "\<not> is_space (hd ?t)" using False by (rule hd_dropWhile)
    ultimately consider "w = takeWhile (\<lambda>c. \<not> is_space c) ?t"
      | "w \<in> set (split_words (dropWhile (\<lambda>c. \<not> is_space c) ?t))"
      using 1(2) unfolding eq by auto
    then show ?thesis
    proof cases
      case 1
      then show ?thesis
        using False \<open>\<not> is_space (hd ?t)\<close> \<open>set ?t \<subseteq> set s\<close>
        by (cases ?t) (auto simp: list_all_iff dest: set_takeWhileD)
    next
      case 2
      with 1(1) [OF refl False] \<open>set ?t \<subseteq> set s\<close> show ?thesis by (blast dest: set_dropWhileD)
    qed
  qed
qed

definition clean_word :: "string \<Rightarrow> bool" where
  "clean_word w \<longleftrightarrow> w \<noteq> [] \<and> list_all (\<lambda>c. \<not> is_space c \<and> \<not> array_mark c) w"

lemma words_clean: "list_all clean_word (words value)"
proof -
  have "\<not> array_mark (CHR '' '')" by (simp add: array_mark_def)
  then have "\<not> array_mark c" if "c \<in> set (map (\<lambda>c. if array_mark c then CHR '' '' else c) value)" for c
    using that by auto
  then show ?thesis
    using split_words_clean [of _ "map (\<lambda>c. if array_mark c then CHR '' '' else c) value"]
    unfolding words_def clean_word_def list_all_iff by blast
qed

lemma pair_sources_values: "map as_value (pair_sources ss hs) = ss"
  by (simp add: pair_sources_def comp_def map_nth)

text \<open>C39. A manifest that is accepted is well-formed: its file was within the size limit and free of
  NUL bytes, it has a name and a version, and every architecture and every source is a non-empty
  word without white space, quotes or parentheses.\<close>

theorem parse_well_formed:
  assumes "parse f max_bytes = Inr m"
  shows "pf_regular f \<and> pf_size f \<le> max_bytes \<and> mf_name m \<noteq> [] \<and> mf_version m \<noteq> [] \<and>
    list_all clean_word (mf_architectures m) \<and> list_all clean_word (map as_value (mf_sources m)) \<and>
    (\<exists>str. pf_text f = Some str \<and> CHR 0x00 \<notin> set str \<and>
       map as_value (mf_sources m) = words (first_assigned ''source'' (split_on (CHR 0x0A) str)))"
proof -
  from assms obtain str where str: "pf_text f = Some str" "CHR 0x00 \<notin> set str" "pf_regular f"
      "\<not> pf_size f > max_bytes" "mf_name (manifest_of str) \<noteq> []" "mf_version (manifest_of str) \<noteq> []"
    and m: "m = manifest_of str \<or>
      m = (manifest_of str)\<lparr>mf_findings := mf_findings (manifest_of str) @ [''architecture declaration missing'']\<rparr>"
    by (auto simp: parse_def Let_def split: if_splits option.splits)
  then show ?thesis
    using words_clean
    by (auto simp: manifest_of_def pair_sources_values assignment_first_line)
qed

definition sample_pkgbuild :: string where
  "sample_pkgbuild = join_with (CHR 0x0A) [''pkgname=a'', ''pkgver=1'', ''source=(h)'']"

lemma sample_lines: "split_on (CHR 0x0A) sample_pkgbuild = [''pkgname=a'', ''pkgver=1'', ''source=(h)'']"
  unfolding sample_pkgbuild_def by (rule split_join) simp_all

lemmas assigned_eval = assigned_def is_blank_def starts_with_def unquote_def substr_def

theorem parse_well_formed_witness:
  "\<exists>m. parse \<lparr>pf_regular = True, pf_size = 30, pf_text = Some sample_pkgbuild\<rparr> 64 = Inr m \<and>
     mf_name m = ''a'' \<and> list_all clean_word (map as_value (mf_sources m))"
proof -
  let ?f = "\<lparr>pf_regular = True, pf_size = 30, pf_text = Some sample_pkgbuild\<rparr>"
  have name: "mf_name (manifest_of sample_pkgbuild) = ''a''" "mf_version (manifest_of sample_pkgbuild) = ''1''"
    by (simp_all add: manifest_of_def assignment_first_line sample_lines assigned_eval)
  have nul: "CHR 0x00 \<notin> set sample_pkgbuild" by (simp add: sample_pkgbuild_def)
  obtain m where m: "parse ?f 64 = Inr m" "mf_name m = ''a''"
    using name nul by (simp add: parse_def Let_def)
  with parse_well_formed [OF m(1)] show ?thesis by blast
qed

text \<open>Only the line of the assignment is read: the sources of an array that continues on further
  lines are not seen.\<close>

theorem multiline_sources_ignored:
  "words (assignment (join_with (CHR 0x0A) [''source=('', ''http://h/x'', '')'']) ''source'') = []"
proof -
  have lines: "split_on (CHR 0x0A) (join_with (CHR 0x0A) [''source=('', ''http://h/x'', '')'']) =
      [''source=('', ''http://h/x'', '')'']"
    by (rule split_join) simp_all
  have "assignment (join_with (CHR 0x0A) [''source=('', ''http://h/x'', '')'']) ''source'' = ''(''"
    unfolding assignment_first_line lines by (simp add: assigned_eval)
  then show ?thesis
    by (simp add: words_def array_mark_def split_words.simps is_space_def)
qed

end
