(* ===== verification/Package_Build.thy ===== *)
theory Package_Build
  imports Package_Inspect Aur_Manifest Ordered_Map Rootfs
begin

text \<open>
  Building a PKGBUILD in the sandbox (\<^verbatim>\<open>src/package/build.cpp\<close>): the allowlist of source
  hosts, the two phases, the collection of the artifacts and the repeated builds. The answers of
  the file system to the root file system session, the directories, the sandboxed runs and the files they leave are the fields of
  \<open>build_env\<close>; runs are numbered in the order the program starts them.
\<close>

section \<open>Helpers\<close>

definition build_escape :: "string \<Rightarrow> string" where
  "build_escape value = concat (map (\<lambda>c. if c = dquote \<or> c = backslash then [backslash, c] else [c]) value)"

definition host_from_source :: "string \<Rightarrow> string" where
  "host_from_source source =
     (case find_str ''://'' source of
        None \<Rightarrow> []
      | Some scheme \<Rightarrow>
          (let host = drop (scheme + 3) source
           in case find_if (\<lambda>c. c = CHR ''/'' \<or> c = CHR '':'') host of None \<Rightarrow> host | Some e \<Rightarrow> take e host))"

definition host_allowed :: "string \<Rightarrow> string list \<Rightarrow> bool" where
  "host_allowed host allowlist = list_ex (\<lambda>entry. host = entry) allowlist"

text \<open>The file has its own copy of the block-wise fingerprint.\<close>

definition artifact_fingerprint :: "string option \<Rightarrow> string" where
  "artifact_fingerprint content = file_fingerprint content"

section \<open>Options and result\<close>

record build_options =
  bo_rootfs :: string
  bo_workspace :: string
  bo_artifact_root :: string
  bo_timeout :: "64 word"
  bo_network :: bool
  bo_allowed_hosts :: "string list"
  bo_cgroup_root :: string
  bo_repetitions :: nat
  bo_output_limit :: nat

record build_result =
  br_ok :: bool
  br_timed_out :: bool
  br_status :: int
  br_error :: string
  br_findings :: "string list"
  br_phases :: "string list"
  br_events :: "string list"
  br_artifacts :: "string list"
  br_reproducible :: bool

definition new_build_result :: build_result where
  "new_build_result = \<lparr>br_ok = False, br_timed_out = False, br_status = - 1, br_error = [], br_findings = [],
     br_phases = [], br_events = [], br_artifacts = [], br_reproducible = True\<rparr>"

text \<open>An entry of the build directory: its name, whether its status could be read and it is a regular
  file, its content, and whether copying it failed.\<close>

record build_entry =
  en_name :: string
  en_stat_error :: bool
  en_regular :: bool
  en_content :: "string option"
  en_copy_error :: bool

record build_env =
  be_pkgbuild :: pkgbuild_file
  be_workspace_error :: "string option"
  be_rootfs :: rootfs_env
  be_directory_error :: "string option"
  be_staged :: bool
  be_run :: "nat \<Rightarrow> string list \<Rightarrow> sandbox_config \<Rightarrow> captured"
  be_artifact_error :: "string option"
  be_iterate_error :: bool
  be_entries :: "build_entry list"
  be_rebuilt :: "nat \<Rightarrow> string \<Rightarrow> string option"

abbreviation (input) manifest_limit :: "64 word" where "manifest_limit \<equiv> 1048576"

section \<open>The build\<close>

definition build_fail :: "string \<Rightarrow> build_result \<Rightarrow> build_result" where
  "build_fail message r = r\<lparr>br_error := message\<rparr>"

text \<open>The first source whose host the allowlist rejects.\<close>

definition rejected_host :: "build_options \<Rightarrow> manifest \<Rightarrow> string option" where
  "rejected_host options m =
     find (\<lambda>host. host \<noteq> [] \<and> bo_network options \<and> \<not> host_allowed host (bo_allowed_hosts options))
       (map (\<lambda>s. host_from_source (as_value s)) (mf_sources m))"

definition build_config :: "build_options \<Rightarrow> string \<Rightarrow> sandbox_config" where
  "build_config options root =
     default_config\<lparr>sc_rootfs := root, working_directory := ''/build'', mount_namespace := True,
       user_namespace := True, network_namespace := True, read_only_root := False,
       clean_environment := True, drop_to_unprivileged_user := True, cpu_seconds := bo_timeout options,
       address_space_bytes := 2 * 1024 * 1024 * 1024, sc_max_processes := 256,
       max_file_bytes := 512 * 1024 * 1024, seccomp_allowlist := default_package_syscalls,
       cgroup := (cgroup default_config)\<lparr>cg_path := bo_cgroup_root options\<rparr>\<rparr>"

definition source_command :: "string list" where
  "source_command = [''/usr/bin/makepkg'', ''--noconfirm'', ''--nodeps'', ''--nobuild'']"

definition build_command :: "string list" where
  "build_command = [''/usr/bin/makepkg'', ''--noconfirm'', ''--nodeps'', ''--noextract'', ''--noprepare'']"

definition source_event :: "aur_source \<Rightarrow> string" where
  "source_event s =
     ''{'' @ quote @ ''type'' @ quote @ '':'' @ quote @ ''source'' @ quote @
     json_key ''url'' @ quote @ build_escape (as_value s) @ quote @
     json_key ''sha256'' @ quote @ build_escape (as_hash s) @ quote @
     json_key ''host'' @ quote @ build_escape (host_from_source (as_value s)) @ quote @ ''}''"

definition add_events :: "string list \<Rightarrow> build_result \<Rightarrow> build_result" where
  "add_events es r = r\<lparr>br_events := br_events r @ es\<rparr>"

definition note_run :: "captured \<Rightarrow> build_result \<Rightarrow> build_result" where
  "note_run c r = r\<lparr>br_status := cap_status c, br_timed_out := cap_timed_out c\<rparr>"

text \<open>The loop over the build directory: \<open>err\<close> is the shared error code, whose value after the
  copy of one entry ends the loop at the next.\<close>

fun collect ::
  "string \<Rightarrow> build_entry list \<Rightarrow> bool \<Rightarrow> (string \<times> string) list \<times> string list \<Rightarrow>
   (string \<times> string) list \<times> string list" where
  "collect root [] err acc = acc"
| "collect root (e # es) err (hashes, artifacts) =
     (if err then (hashes, artifacts)
      else if \<not> en_stat_error e \<and> en_regular e \<and> contains_str (en_name e) ''.pkg.tar.'' then
        (let hashes' = map_put (en_name e) (artifact_fingerprint (en_content e)) hashes
         in collect root es (en_copy_error e)
              (hashes', if en_copy_error e then artifacts else artifacts @ [path_append root (en_name e)]))
      else collect root es (en_stat_error e) (hashes, artifacts))"

definition compare_hash ::
  "(string \<Rightarrow> string option) \<Rightarrow> string \<times> string \<Rightarrow> build_result \<Rightarrow> build_result" where
  "compare_hash rebuilt entry r =
     (case entry of
        (name, original) \<Rightarrow>
          if artifact_fingerprint (rebuilt name) \<noteq> original
          then r\<lparr>br_reproducible := False,
                 br_findings := br_findings r @ [''non-deterministic artifact: '' @ name]\<rparr>
          else r)"

text \<open>The repeated builds; \<open>repetition\<close> counts from one.\<close>

function rebuild ::
  "build_env \<Rightarrow> build_options \<Rightarrow> sandbox_config \<Rightarrow> (string \<times> string) list \<Rightarrow> nat \<Rightarrow> build_result \<Rightarrow>
   build_result" where
  "rebuild env options config hashes repetition r =
     (if repetition < bo_repetitions options then
        (let c = be_run env (repetition + 1) build_command config
         in if cap_timed_out c \<or> cap_status c \<noteq> 0
            then r\<lparr>br_reproducible := False, br_findings := br_findings r @ [''repeat build failed'']\<rparr>
            else rebuild env options config hashes (repetition + 1)
                   (fold (compare_hash (be_rebuilt env repetition)) hashes r))
      else r)"
  by pat_completeness auto
termination
  by (relation "measure (\<lambda>(env, options, config, hashes, repetition, r). bo_repetitions options - repetition)") auto

declare rebuild.simps [simp del]

definition build_verdict :: "build_result \<Rightarrow> build_result" where
  "build_verdict r0 =
     (let r = (if \<not> br_reproducible r0 then add_events [''reproducibility_mismatch''] r0 else r0);
          r1 = r\<lparr>br_ok := br_artifacts r \<noteq> [] \<and> br_reproducible r\<rparr>
      in if br_artifacts r1 = [] then build_fail ''makepkg produced no package artifact'' r1
         else if \<not> br_reproducible r1 then build_fail ''reproducibility mismatch'' r1 else r1)"

text \<open>From the successful build phase on.\<close>

definition build_artifacts :: "build_env \<Rightarrow> build_options \<Rightarrow> sandbox_config \<Rightarrow> build_result \<Rightarrow> build_result" where
  "build_artifacts env options config r =
     (case be_artifact_error env of
        Some message \<Rightarrow> build_fail (''artifact directory creation failed: '' @ message) r
      | None \<Rightarrow>
          (case collect (bo_artifact_root options) (be_entries env) (be_iterate_error env) ([], []) of
             (hashes, artifacts) \<Rightarrow>
               build_verdict (rebuild env options config hashes 1 (r\<lparr>br_artifacts := artifacts\<rparr>))))"

text \<open>From the sandbox configuration on.\<close>

definition build_phases ::
  "build_env \<Rightarrow> build_options \<Rightarrow> manifest \<Rightarrow> string \<Rightarrow> build_result \<Rightarrow> build_result" where
  "build_phases env options m root r0 =
     (let config = build_config options root;
          r1 = add_events ([''source_download_start'',
                 if bo_network options then ''network_requested_isolated'' else ''network_disabled''] @
                 map source_event (mf_sources m)) r0;
          c = be_run env 0 source_command config;
          r2 = add_events [if cap_timed_out c then ''source_download_timeout'' else ''source_download_complete'']
                 (note_run c r1)
      in if cap_timed_out c then build_fail ''AUR source phase timed out'' r2
         else if cap_status c \<noteq> 0 then build_fail ''AUR source phase failed'' r2
         else
           (let b = be_run env 1 build_command config;
                r3 = add_events [if cap_timed_out b then ''build_timeout'' else ''build_complete'']
                       (note_run b (add_events [''build_start''] r2))
            in if cap_timed_out b then build_fail ''AUR build timed out'' r3
               else if cap_status b \<noteq> 0 then build_fail ''makepkg build phase failed'' r3
               else build_artifacts env options config r3))"

definition build_run :: "build_env \<Rightarrow> build_options \<Rightarrow> build_result" where
  "build_run env options =
     (case parse (be_pkgbuild env) manifest_limit of
        Inl message \<Rightarrow> build_fail message new_build_result
      | Inr m \<Rightarrow>
          (let r = new_build_result\<lparr>br_findings := mf_findings m, br_phases := mf_phases m\<rparr>
           in case rejected_host options m of
                Some host \<Rightarrow>
                  (build_fail (''source host is not allowlisted: '' @ host) r)\<lparr>br_findings :=
                     br_findings r @ [''network source rejected by allowlist: '' @ host]\<rparr>
              | None \<Rightarrow>
                  (case be_workspace_error env of
                     Some message \<Rightarrow> build_fail (''build workspace creation failed: '' @ message) r
                   | None \<Rightarrow>
                       (case snd (create (be_rootfs env) (bo_rootfs options) (bo_workspace options)) of
                          Inl message \<Rightarrow> build_fail message r
                        | Inr session \<Rightarrow>
                            if \<not> isolated session
                            then build_fail ''build rejected: Btrfs rootfs isolation unavailable'' r
                            else
                              (case be_directory_error env of
                                 Some message \<Rightarrow> build_fail (''build directory creation failed: '' @ message) r
                               | None \<Rightarrow>
                                   if \<not> be_staged env then build_fail ''PKGBUILD staging failed'' r
                                   else build_phases env options m (rs_writable session) r)))))"

section \<open>Properties\<close>

lemma compare_hash_simps [simp]:
  "br_reproducible (compare_hash rebuilt e r) \<longleftrightarrow>
     br_reproducible r \<and> artifact_fingerprint (rebuilt (fst e)) = snd e"
  "br_artifacts (compare_hash rebuilt e r) = br_artifacts r"
  by (simp_all add: compare_hash_def case_prod_unfold)

lemma fold_compare_hash:
  "br_reproducible (fold (compare_hash rebuilt) hashes r) \<longleftrightarrow>
     br_reproducible r \<and> list_all (\<lambda>(name, original). artifact_fingerprint (rebuilt name) = original) hashes"
  by (induction hashes arbitrary: r) (simp_all add: case_prod_unfold)

lemma fold_compare_hash_frame: "br_artifacts (fold (compare_hash rebuilt) hashes r) = br_artifacts r"
  by (induction hashes arbitrary: r) simp_all

lemma rebuild_artifacts: "br_artifacts (rebuild env options config hashes k r) = br_artifacts r"
proof (induction env options config hashes k r rule: rebuild.induct)
  case (1 env options config hashes k r)
  let ?c = "be_run env (k + 1) build_command config"
  show ?case
  proof (cases "k < bo_repetitions options \<and> \<not> (cap_timed_out ?c \<or> cap_status ?c \<noteq> 0)")
    case True
    with 1 show ?thesis by (subst rebuild.simps) (simp add: Let_def fold_compare_hash_frame)
  next
    case False
    then show ?thesis by (subst rebuild.simps) (simp add: Let_def)
  qed
qed

text \<open>What one repetition has to show.\<close>

definition repetition_ok :: "build_env \<Rightarrow> sandbox_config \<Rightarrow> (string \<times> string) list \<Rightarrow> nat \<Rightarrow> bool" where
  "repetition_ok env config hashes k \<longleftrightarrow>
     (let c = be_run env (k + 1) build_command config in cap_status c = 0 \<and> \<not> cap_timed_out c) \<and>
     list_all (\<lambda>(name, original). artifact_fingerprint (be_rebuilt env k name) = original) hashes"

lemma rebuild_reproducible:
  "br_reproducible (rebuild env options config hashes k r) \<longleftrightarrow>
     br_reproducible r \<and> list_all (repetition_ok env config hashes) [k ..< bo_repetitions options]"
proof (induction env options config hashes k r rule: rebuild.induct)
  case (1 env options config hashes k r)
  show ?case
  proof (cases "k < bo_repetitions options")
    case False
    then show ?thesis by (subst rebuild.simps) simp
  next
    case True
    let ?c = "be_run env (k + 1) build_command config"
    have up: "[k ..< bo_repetitions options] = k # [k + 1 ..< bo_repetitions options]"
      using True by (simp add: upt_conv_Cons)
    show ?thesis
    proof (cases "cap_timed_out ?c \<or> cap_status ?c \<noteq> 0")
      case fail: True
      with True show ?thesis
        by (subst rebuild.simps) (auto simp: up repetition_ok_def [of env config hashes k] Let_def)
    next
      case False
      with 1 [OF True refl False] True show ?thesis
        by (subst rebuild.simps) (auto simp: up repetition_ok_def [of env config hashes k] Let_def fold_compare_hash)
    qed
  qed
qed

lemma build_verdict_ok: "br_ok (build_verdict r) \<longleftrightarrow> br_artifacts r \<noteq> [] \<and> br_reproducible r"
  by (simp add: build_verdict_def Let_def build_fail_def add_events_def)

lemma build_artifacts_ok:
  assumes "br_ok (build_artifacts env options config r)" "\<not> br_ok r"
  shows "\<exists>hashes artifacts.
    collect (bo_artifact_root options) (be_entries env) (be_iterate_error env) ([], []) = (hashes, artifacts) \<and>
    artifacts \<noteq> [] \<and> br_artifacts (build_artifacts env options config r) = artifacts \<and>
    list_all (repetition_ok env config hashes) [1 ..< bo_repetitions options]"
proof -
  obtain hashes artifacts where c:
    "collect (bo_artifact_root options) (be_entries env) (be_iterate_error env) ([], []) = (hashes, artifacts)"
    by force
  have "be_artifact_error env = None"
    using assms by (cases "be_artifact_error env") (auto simp: build_artifacts_def build_fail_def)
  with c have b: "build_artifacts env options config r =
      build_verdict (rebuild env options config hashes 1 (r\<lparr>br_artifacts := artifacts\<rparr>))"
    by (simp add: build_artifacts_def)
  have "br_artifacts (build_verdict r') = br_artifacts r'" for r'
    by (simp add: build_verdict_def Let_def build_fail_def add_events_def)
  with assms(1) c show ?thesis
    unfolding b build_verdict_ok rebuild_reproducible rebuild_artifacts by (simp add: rebuild_artifacts)
qed

definition phase_ok :: "build_env \<Rightarrow> nat \<Rightarrow> string list \<Rightarrow> sandbox_config \<Rightarrow> bool" where
  "phase_ok env k command config \<longleftrightarrow>
     cap_status (be_run env k command config) = 0 \<and> \<not> cap_timed_out (be_run env k command config)"

lemma build_phases_ok:
  assumes "br_ok (build_phases env options m root r)" "\<not> br_ok r"
  defines "config \<equiv> build_config options root"
  shows "phase_ok env 0 source_command config \<and> phase_ok env 1 build_command config \<and>
    (\<exists>r'. build_phases env options m root r = build_artifacts env options config r' \<and> \<not> br_ok r')"
proof -
  let ?c = "be_run env 0 source_command config" and ?b = "be_run env 1 build_command config"
  have ok: "phase_ok env 0 source_command config" "phase_ok env 1 build_command config"
    using assms(1,2) unfolding config_def
    by (auto simp: build_phases_def Let_def phase_ok_def build_fail_def add_events_def note_run_def
        split: if_splits)
  then have runs: "\<not> cap_timed_out ?c" "cap_status ?c = 0" "\<not> cap_timed_out ?b" "cap_status ?b = 0"
    by (simp_all add: phase_ok_def)
  have "\<exists>r'. build_phases env options m root r = build_artifacts env options config r' \<and> \<not> br_ok r'"
    unfolding build_phases_def Let_def config_def [symmetric] using runs assms(2)
    by (intro exI conjI) (simp, simp add: add_events_def note_run_def)
  with ok show ?thesis by blast
qed

lemma rejected_host_None:
  "rejected_host options m = None \<longleftrightarrow>
     (bo_network options \<longrightarrow> list_all (\<lambda>s. host_from_source (as_value s) = [] \<or>
        host_from_source (as_value s) \<in> set (bo_allowed_hosts options)) (mf_sources m))"
  by (auto simp: rejected_host_def find_None_iff list_all_iff host_allowed_def list_ex_iff)

lemma build_run_ok:
  assumes "br_ok (build_run env options)"
  obtains m s r where "parse (be_pkgbuild env) manifest_limit = Inr m" "rejected_host options m = None"
    "snd (create (be_rootfs env) (bo_rootfs options) (bo_workspace options)) = Inr s" "isolated s"
    "build_run env options = build_phases env options m (rs_writable s) r" "\<not> br_ok r"
proof -
  have bad: "\<not> br_ok (build_fail x r)" if "\<not> br_ok r" for x r using that by (simp add: build_fail_def)
  have new: "\<not> br_ok (new_build_result\<lparr>br_findings := f, br_phases := p\<rparr>)" for f p
    by (simp add: new_build_result_def)
  show thesis
    using assms that new
    by (auto simp: build_run_def Let_def build_fail_def new_build_result_def
        split: sum.splits option.splits prod.splits if_splits)
qed

text \<open>C12. A build succeeds only behind all its gates: the PKGBUILD parsed; with the network asked for, the
  host of every source that the manifest parser extracted is on the allowlist (the parser reads the
  first assigning line only, so the further lines of a multi-line source array are not checked); the
  root file system is an isolated snapshot; the source phase and the build phase ran to their end with
  status zero; at least one artifact was copied; and every one of the asked repetitions also ran to its
  end with status zero and gave every artifact the fingerprint of the first build.\<close>

theorem build_gates:
  assumes "br_ok (build_run env options)"
  shows "\<exists>m s hashes.
    parse (be_pkgbuild env) manifest_limit = Inr m \<and>
    (bo_network options \<longrightarrow> list_all (\<lambda>s. host_from_source (as_value s) = [] \<or>
        host_from_source (as_value s) \<in> set (bo_allowed_hosts options)) (mf_sources m)) \<and>
    snd (create (be_rootfs env) (bo_rootfs options) (bo_workspace options)) = Inr s \<and> isolated s \<and>
    phase_ok env 0 source_command (build_config options (rs_writable s)) \<and>
    phase_ok env 1 build_command (build_config options (rs_writable s)) \<and>
    collect (bo_artifact_root options) (be_entries env) (be_iterate_error env) ([], []) =
      (hashes, br_artifacts (build_run env options)) \<and>
    br_artifacts (build_run env options) \<noteq> [] \<and>
    list_all (repetition_ok env (build_config options (rs_writable s)) hashes) [1 ..< bo_repetitions options]"
proof -
  from assms obtain m s r where m: "parse (be_pkgbuild env) manifest_limit = Inr m"
    "rejected_host options m = None" "snd (create (be_rootfs env) (bo_rootfs options) (bo_workspace options)) = Inr s" "isolated s"
    and run: "build_run env options = build_phases env options m (rs_writable s) r" "\<not> br_ok r"
    by (rule build_run_ok)
  from build_phases_ok [OF assms [unfolded run(1)] run(2)] obtain r' where
    ph: "phase_ok env 0 source_command (build_config options (rs_writable s))"
      "phase_ok env 1 build_command (build_config options (rs_writable s))"
    and r': "build_phases env options m (rs_writable s) r = build_artifacts env options (build_config options (rs_writable s)) r'" "\<not> br_ok r'"
    by blast
  from build_artifacts_ok [OF assms [unfolded run(1) r'(1)] r'(2)] m ph
  show ?thesis unfolding run(1) r'(1) rejected_host_None by blast
qed

definition sample_build_env :: build_env where
  "sample_build_env =
     \<lparr>be_pkgbuild = \<lparr>pf_regular = True, pf_size = 30, pf_text = Some sample_pkgbuild\<rparr>,
      be_workspace_error = None, be_rootfs = sample_rootfs_env, be_directory_error = None,
      be_staged = True, be_run = \<lambda>_ _ _. no_capture\<lparr>cap_status := 0\<rparr>, be_artifact_error = None,
      be_iterate_error = False,
      be_entries = [\<lparr>en_name = ''a.pkg.tar.x'', en_stat_error = False, en_regular = True,
                     en_content = None, en_copy_error = False\<rparr>],
      be_rebuilt = \<lambda>_ _. None\<rparr>"

definition sample_build_options :: build_options where
  "sample_build_options =
     \<lparr>bo_rootfs = [], bo_workspace = ''/w'', bo_artifact_root = ''/a'', bo_timeout = 300,
      bo_network = False, bo_allowed_hosts = [], bo_cgroup_root = [], bo_repetitions = 2,
      bo_output_limit = 1048576\<rparr>"

theorem build_gates_witness:
  "br_ok (build_run sample_build_env sample_build_options) \<and>
   br_artifacts (build_run sample_build_env sample_build_options) = [''/a/a.pkg.tar.x'']"
proof -
  have name: "mf_name (manifest_of sample_pkgbuild) = ''a''" "mf_version (manifest_of sample_pkgbuild) = ''1''"
    by (simp_all add: manifest_of_def assignment_first_line sample_lines assigned_eval)
  have nul: "CHR 0x00 \<notin> set sample_pkgbuild" by (simp add: sample_pkgbuild_def)
  obtain s where s: "snd (create (be_rootfs sample_build_env) (bo_rootfs sample_build_options)
      (bo_workspace sample_build_options)) = Inr s" "isolated s"
    using sample_create by (auto simp: sample_build_env_def sample_build_options_def isolated_def)
  obtain m where m: "parse (be_pkgbuild sample_build_env) manifest_limit = Inr m"
    using name nul by (simp add: parse_def Let_def sample_build_env_def)
  have rej: "rejected_host sample_build_options m = None"
    by (simp add: rejected_host_None sample_build_options_def)
  have coll: "collect (bo_artifact_root sample_build_options) (be_entries sample_build_env)
      (be_iterate_error sample_build_env) ([], []) =
      ([(''a.pkg.tar.x'', artifact_fingerprint None)], [''/a/a.pkg.tar.x''])"
    by (simp add: sample_build_env_def sample_build_options_def contains_str_def path_append_def
        is_absolute_def has_filename_def)
  let ?c = "build_config sample_build_options (rs_writable s)"
  have art: "br_ok (build_artifacts sample_build_env sample_build_options ?c r)" if "br_reproducible r" for r
  proof -
    have "[1 ..< bo_repetitions sample_build_options] = [1]"
      by (simp add: sample_build_options_def upt_rec)
    moreover have "repetition_ok sample_build_env ?c [(''a.pkg.tar.x'', artifact_fingerprint None)] 1"
      by (simp add: repetition_ok_def sample_build_env_def no_capture_def)
    moreover have "be_artifact_error sample_build_env = None" by (simp add: sample_build_env_def)
    ultimately show ?thesis
      using that coll by (simp add: build_artifacts_def build_verdict_ok rebuild_reproducible rebuild_artifacts)
  qed
  have run: "be_run sample_build_env k cmd cfg = no_capture\<lparr>cap_status := 0\<rparr>" for k cmd cfg
    by (simp add: sample_build_env_def)
  have "br_ok (build_phases sample_build_env sample_build_options m (rs_writable s) r)" if "br_reproducible r" for r
    unfolding build_phases_def Let_def run using that
    by (simp add: no_capture_def art add_events_def note_run_def)
  then have ok: "br_ok (build_run sample_build_env sample_build_options)"
    unfolding build_run_def m s(1) using rej s(2)
    by (simp add: sample_build_env_def new_build_result_def)
  from build_gates [OF ok] ok coll show ?thesis by auto
qed

end
