(* ===== verification/Cli.thy ===== *)
theory Cli
  imports Analyze Package_Scan Package_Build
begin

text \<open>
  The command line (\<^verbatim>\<open>src/main.cpp\<close>): the option loops of the five commands that have options,
  the checks between options, and the dispatch. The arguments are the list after the program's own
  name. A parse yields the command to run, or how the program fails: with a message, with the usage
  text, or silently. The package commands with their exit status are composed from the components.
\<close>

section \<open>Numbers\<close>

text \<open>\<^verbatim>\<open>std::from_chars\<close> into a 64-bit unsigned integer, required to consume the whole text.\<close>

definition parse_u64 :: "string \<Rightarrow> 64 word option" where
  "parse_u64 s =
     (if s \<noteq> [] \<and> list_all is_digit s \<and> digits_value s < 2 ^ 64 then Some (word_of_nat (digits_value s))
      else None)"

datatype cli_error = Usage | Message string | Silent | Unknown_Command string

section \<open>analyze\<close>

definition default_analyze_options :: analyze_options where
  "default_analyze_options =
     \<lparr>ao_format = FormatTerminal,
      ao_policy = \<lparr>denied_paths = [], denied_endpoints = [], denied_syscalls = [], max_processes = 0\<rparr>,
      ao_timeout = 30, ao_output_limit = 1048576, ao_sandbox = False, ao_sandbox_config = default_config\<rparr>"

definition analyze_value :: "string \<Rightarrow> string \<Rightarrow> analyze_options \<Rightarrow> cli_error + analyze_options" where
  "analyze_value option value o0 =
     (let policy = ao_policy o0
      in if option = ''--timeout'' \<or> option = ''--output-limit'' then
           (case parse_u64 value of
              None \<Rightarrow> Inl Silent
            | Some n \<Rightarrow>
                if n = 0 then Inl Silent
                else if option = ''--timeout'' then Inr (o0\<lparr>ao_timeout := n\<rparr>)
                else Inr (o0\<lparr>ao_output_limit := n\<rparr>))
         else if option = ''--deny-path''
         then Inr (o0\<lparr>ao_policy := policy\<lparr>denied_paths := denied_paths policy @ [value]\<rparr>\<rparr>)
         else if option = ''--deny-endpoint''
         then Inr (o0\<lparr>ao_policy := policy\<lparr>denied_endpoints := denied_endpoints policy @ [value]\<rparr>\<rparr>)
         else if option = ''--deny-syscall''
         then Inr (o0\<lparr>ao_policy := policy\<lparr>denied_syscalls := denied_syscalls policy @ [value]\<rparr>\<rparr>)
         else
           (case parse_u64 value of
              None \<Rightarrow> Inl Silent
            | Some n \<Rightarrow> Inr (o0\<lparr>ao_policy := policy\<lparr>max_processes := n\<rparr>\<rparr>)))"

definition analyze_valued :: "string list" where
  "analyze_valued = [''--timeout'', ''--output-limit'', ''--deny-path'', ''--deny-endpoint'', ''--deny-syscall'',
     ''--max-processes'']"

fun parse_analyze :: "string list \<Rightarrow> analyze_options \<Rightarrow> cli_error + analyze_options \<times> string list" where
  "parse_analyze [] o0 = Inl Usage"
| "parse_analyze [option] o0 =
     (if \<not> starts_with option ''--'' then Inr (o0, [option])
      else if option = ''--sandbox'' then Inl Usage
      else if option = ''--format'' \<or> option \<in> set analyze_valued then Inl Silent
      else Inl (Message (''execell: unknown analyze option: '' @ option)))"
| "parse_analyze (option # value # rest) o0 =
     (if \<not> starts_with option ''--'' then Inr (o0, option # value # rest)
      else if option = ''--format'' then
        (if value \<noteq> ''terminal'' \<and> value \<noteq> ''json'' then Inl Silent
         else parse_analyze rest
                (o0\<lparr>ao_format := (if value = ''json'' then FormatJson else FormatTerminal)\<rparr>))
      else if option = ''--sandbox'' then parse_analyze (value # rest) (o0\<lparr>ao_sandbox := True\<rparr>)
      else if option \<in> set analyze_valued then
        (case analyze_value option value o0 of Inl e \<Rightarrow> Inl e | Inr o1 \<Rightarrow> parse_analyze rest o1)
      else Inl (Message (''execell: unknown analyze option: '' @ option)))"

section \<open>inspect\<close>

definition inspect_options :: "string list" where
  "inspect_options = [''--deny-path'', ''--deny-endpoint'', ''--deny-syscall'', ''--max-processes'', ''--format'']"

fun parse_inspect ::
  "string list \<Rightarrow> policy_config \<Rightarrow> bool \<Rightarrow> cli_error + policy_config \<times> bool \<times> string list" where
  "parse_inspect [] config json = Inl Usage"
| "parse_inspect [option] config json =
     (if option \<notin> set inspect_options then Inr (config, json, [option])
      else Inl (Message ''execell: missing path for --deny-path''))"
| "parse_inspect (option # value # rest) config json =
     (if option \<notin> set inspect_options then Inr (config, json, option # value # rest)
      else if option = ''--format'' then
        (if value \<noteq> ''json'' \<and> value \<noteq> ''terminal''
         then Inl (Message (''execell: invalid format: '' @ value))
         else parse_inspect rest config (value = ''json''))
      else if option = ''--max-processes'' then
        (case parse_u64 value of
           None \<Rightarrow> Inl (Message ''execell: invalid process limit'')
         | Some n \<Rightarrow> parse_inspect rest (config\<lparr>max_processes := n\<rparr>) json)
      else if option = ''--deny-path''
      then parse_inspect rest (config\<lparr>denied_paths := denied_paths config @ [value]\<rparr>) json
      else if option = ''--deny-endpoint''
      then parse_inspect rest (config\<lparr>denied_endpoints := denied_endpoints config @ [value]\<rparr>) json
      else parse_inspect rest (config\<lparr>denied_syscalls := denied_syscalls config @ [value]\<rparr>) json)"

section \<open>sandbox\<close>

definition sandbox_value :: "string \<Rightarrow> string \<Rightarrow> sandbox_config \<Rightarrow> cli_error + sandbox_config" where
  "sandbox_value option value config =
     (if option = ''--backend'' then
        (if value = ''namespace'' then Inr (config\<lparr>sc_backend := BackendNamespaces\<rparr>)
         else if value = ''vm'' then Inr (config\<lparr>sc_backend := BackendVm\<rparr>)
         else Inl (Message ''execell: invalid sandbox backend''))
      else
        (case parse_u64 value of
           None \<Rightarrow> Inl (Message (''execell: invalid value for '' @ option))
         | Some n \<Rightarrow>
             if option = ''--cpu'' then Inr (config\<lparr>cpu_seconds := n\<rparr>)
             else if option = ''--memory'' then Inr (config\<lparr>address_space_bytes := n\<rparr>)
             else Inl (Message (''execell: unknown sandbox option: '' @ option))))"

fun parse_sandbox :: "string list \<Rightarrow> sandbox_config \<Rightarrow> cli_error + sandbox_config \<times> string list" where
  "parse_sandbox [] config = Inl Usage"
| "parse_sandbox (option # rest) config =
     (if \<not> starts_with option ''--'' then Inr (config, option # rest)
      else if option = ''--network'' then parse_sandbox rest (config\<lparr>network_namespace := True\<rparr>)
      else if option = ''--trace-events'' then parse_sandbox rest (config\<lparr>trace_events := True\<rparr>)
      else
        (case rest of
           [] \<Rightarrow> Inl (Message (''execell: missing value for '' @ option))
         | value # rest' \<Rightarrow>
             (case sandbox_value option value config of
                Inl e \<Rightarrow> Inl e
              | Inr config' \<Rightarrow> parse_sandbox rest' config')))"

section \<open>package\<close>

definition strip_seconds :: "string \<Rightarrow> string" where
  "strip_seconds value = (if value \<noteq> [] \<and> List.last value = CHR ''s'' then butlast value else value)"

definition package_value :: "string \<Rightarrow> string \<Rightarrow> package_options \<Rightarrow> cli_error + package_options" where
  "package_value option value o0 =
     (if option = ''--format'' then
        (if value \<noteq> ''terminal'' \<and> value \<noteq> ''json'' \<and> value \<noteq> ''jsonl''
         then Inl (Message ''execell: invalid package format'') else Inr (o0\<lparr>po_format := value\<rparr>))
      else if option = ''--network'' then
        (if value \<noteq> ''off'' \<and> value \<noteq> ''mirror''
         then Inl (Message ''execell: invalid package network policy'') else Inr (o0\<lparr>po_network := value\<rparr>))
      else if option = ''--mirror'' then
        (if \<not> valid_mirror value then Inl (Message ''execell: invalid mirror URL'')
         else Inr (o0\<lparr>po_mirrors := po_mirrors o0 @ [value]\<rparr>))
      else if option = ''--allow-host'' then
        (if value = [] \<or> CHR ''/'' \<in> set value \<or> zero_byte \<in> set value
         then Inl (Message ''execell: invalid allowed host'')
         else Inr (o0\<lparr>po_allowed_hosts := po_allowed_hosts o0 @ [value]\<rparr>))
      else if option = ''--rootfs'' then Inr (o0\<lparr>po_rootfs := value\<rparr>)
      else if option = ''--timeout'' then
        (case parse_u64 (strip_seconds value) of
           None \<Rightarrow> Inl (Message ''execell: invalid package timeout'')
         | Some n \<Rightarrow> if n = 0 then Inl (Message ''execell: invalid package timeout'') else Inr (o0\<lparr>po_timeout := n\<rparr>))
      else if option = ''--workers'' then
        (case parse_u64 value of
           None \<Rightarrow> Inl (Message ''execell: invalid package worker count'')
         | Some n \<Rightarrow> if n = 0 \<or> n > 128 then Inl (Message ''execell: invalid package worker count'')
                     else Inr (o0\<lparr>po_workers := unat n\<rparr>))
      else if option = ''--database'' then Inr (o0\<lparr>po_database := value\<rparr>)
      else if option = ''--cgroup-root'' then Inr (o0\<lparr>po_cgroup_root := value\<rparr>)
      else if option = ''--rebuild'' then
        (case parse_u64 value of
           None \<Rightarrow> Inl (Message ''execell: invalid rebuild count'')
         | Some n \<Rightarrow> if n < 1 \<or> n > 3 then Inl (Message ''execell: invalid rebuild count'')
                     else Inr (o0\<lparr>po_build_repetitions := unat n\<rparr>))
      else Inl (Message (''execell: unknown package option: '' @ option)))"

fun parse_package_options ::
  "string list \<Rightarrow> package_options \<Rightarrow> cli_error + package_options \<times> string list" where
  "parse_package_options [] o0 = Inr (o0, [])"
| "parse_package_options (option # rest) o0 =
     (if \<not> starts_with option ''--'' then Inr (o0, option # rest)
      else if option = ''--privileged''
      then Inl (Message ''execell: privileged package scanning is disabled; rootless only'')
      else if option = ''--yes''
      then Inl (Message ''execell: --yes is only valid with disabled privileged scanning'')
      else if option = ''--run-all'' then parse_package_options rest (o0\<lparr>po_run_all := True\<rparr>)
      else if option = ''--byte-diff'' then parse_package_options rest (o0\<lparr>po_byte_diff := True\<rparr>)
      else
        (case rest of
           [] \<Rightarrow> Inl (Message (''execell: missing value for '' @ option))
         | value # rest' \<Rightarrow>
             (case package_value option value o0 of
                Inl e \<Rightarrow> Inl e
              | Inr o1 \<Rightarrow> parse_package_options rest' o1)))"

definition check_mirrors :: "package_options \<Rightarrow> cli_error option" where
  "check_mirrors o0 =
     (if po_network o0 = ''mirror'' \<and> po_mirrors o0 = []
      then Some (Message ''execell: --network mirror requires --mirror URL'')
      else if po_network o0 = ''off'' \<and> po_mirrors o0 \<noteq> []
      then Some (Message ''execell: --mirror requires --network mirror'')
      else None)"

datatype package_action =
    Doctor package_options
  | Scan package_options string
  | Compare package_options string string string
  | Build package_options string
  | Fetch package_options string
  | Report package_options string
  | Cleanup package_options

datatype command =
    Run "string list"
  | Trace bool "string list"
  | Analyze_Cmd analyze_options "string list"
  | Inspect policy_config bool "string list"
  | Sandbox_Cmd sandbox_config "string list"
  | Package package_action

text \<open>The dispatch on the package action; further arguments are ignored.\<close>

definition package_command :: "string \<Rightarrow> package_options \<Rightarrow> string list \<Rightarrow> cli_error + package_action" where
  "package_command act o0 args =
     (if act = ''doctor'' then Inr (Doctor o0)
      else if act = ''scan'' \<and> args \<noteq> [] then Inr (Scan o0 (args ! 0))
      else if act = ''compare'' \<and> length args \<ge> 3 then Inr (Compare o0 (args ! 0) (args ! 1) (args ! 2))
      else if act = ''build'' \<and> args \<noteq> [] then Inr (Build o0 (args ! 0))
      else if act = ''fetch'' \<and> args \<noteq> [] then Inr (Fetch o0 (args ! 0))
      else if act = ''report'' \<and> args \<noteq> [] then Inr (Report o0 (args ! 0))
      else if act = ''cleanup'' then Inr (Cleanup o0)
      else Inl Usage)"

definition parse_package :: "string \<Rightarrow> string list \<Rightarrow> cli_error + package_action" where
  "parse_package act args =
     (case parse_package_options args default_package_options of
        Inl e \<Rightarrow> Inl e
      | Inr (o0, rest) \<Rightarrow>
          (case check_mirrors o0 of Some e \<Rightarrow> Inl e | None \<Rightarrow> package_command act o0 rest))"

section \<open>Dispatch\<close>

definition default_policy :: policy_config where
  "default_policy = \<lparr>denied_paths = [], denied_endpoints = [], denied_syscalls = [], max_processes = 0\<rparr>"

definition parse_command :: "string list \<Rightarrow> cli_error + command" where
  "parse_command argv =
     (if length argv < 2 then Inl Usage
      else
        (let command = argv ! 0; args = drop 1 argv
         in if command = ''run'' then Inr (Run args)
            else if command = ''trace'' then
              (if length args \<ge> 3 \<and> args ! 0 = ''--format'' \<and> args ! 1 = ''json''
               then Inr (Trace True (drop 2 args)) else Inr (Trace False args))
            else if command = ''analyze'' then
              (case parse_analyze args default_analyze_options of
                 Inl e \<Rightarrow> Inl e | Inr (o0, target) \<Rightarrow> Inr (Analyze_Cmd o0 target))
            else if command = ''inspect'' then
              (case parse_inspect args default_policy False of
                 Inl e \<Rightarrow> Inl e | Inr (config, json, target) \<Rightarrow> Inr (Inspect config json target))
            else if command = ''sandbox'' then
              (case parse_sandbox args default_config of
                 Inl e \<Rightarrow> Inl e | Inr (config, target) \<Rightarrow> Inr (Sandbox_Cmd config target))
            else if command = ''package'' then
              (case parse_package (args ! 0) (drop 1 args) of Inl e \<Rightarrow> Inl e | Inr act \<Rightarrow> Inr (Package act))
            else Inl (Unknown_Command command)))"

section \<open>Properties\<close>

lemma dec_nat_list_digits: "list_all is_digit (dec_nat n)"
  using dec_nat_digits by (auto simp: list_all_iff)

lemma parse_u64_dec_word [simp]: "parse_u64 (dec_word w) = Some w"
proof -
  have "unat w < 2 ^ 64" using unsigned_less [of w] by simp
  then show ?thesis by (simp add: parse_u64_def dec_word_def dec_nat_list_digits)
qed

text \<open>Numbers on the command line mean what they print as: for all 64-bit limits, the sandbox
  options with the decimal forms of the limits set exactly these limits and leave the target's
  arguments alone, whatever they are after the first that is no option.\<close>

theorem sandbox_limits_roundtrip:
  assumes "\<not> starts_with program ''--''"
  shows "parse_command ([''sandbox'', ''--cpu'', dec_word cpu, ''--memory'', dec_word memory, program] @ args) =
    Inr (Sandbox_Cmd (default_config\<lparr>cpu_seconds := cpu, address_space_bytes := memory\<rparr>) (program # args))"
  using assms by (simp add: parse_command_def sandbox_value_def)

theorem sandbox_limits_roundtrip_witness:
  "parse_command ([''sandbox'', ''--cpu'', dec_word (5 :: 64 word), ''--memory'', dec_word (4096 :: 64 word), ''ls''] @
      [''--cpu'']) =
    Inr (Sandbox_Cmd (default_config\<lparr>cpu_seconds := 5, address_space_bytes := 4096\<rparr>) [''ls'', ''--cpu''])"
  using sandbox_limits_roundtrip [of "''ls''" 5 4096 "[''--cpu'']"] by simp

text \<open>What every set of package options has that gets past the parser.\<close>

definition options_ok :: "package_options \<Rightarrow> bool" where
  "options_ok o0 \<longleftrightarrow>
     \<not> po_privileged o0 \<and> po_format o0 \<in> {''terminal'', ''json'', ''jsonl''} \<and>
     po_network o0 \<in> {''off'', ''mirror''} \<and> list_all valid_mirror (po_mirrors o0) \<and>
     list_all (\<lambda>h. h \<noteq> [] \<and> CHR ''/'' \<notin> set h \<and> zero_byte \<notin> set h) (po_allowed_hosts o0) \<and>
     0 < unat (po_timeout o0) \<and> 1 \<le> po_workers o0 \<and> po_workers o0 \<le> 128 \<and>
     1 \<le> po_build_repetitions o0 \<and> po_build_repetitions o0 \<le> 3"

lemma default_options_ok: "options_ok default_package_options"
  by (simp add: options_ok_def default_package_options_def)

lemma workers_range: "n \<noteq> 0 \<Longrightarrow> \<not> 128 < n \<Longrightarrow> 1 \<le> unat n \<and> unat n \<le> 128" for n :: "64 word"
  by (simp add: word_less_nat_alt unat_eq_zero Suc_le_eq unat_gt_0)

lemma repetitions_range: "\<not> n < 1 \<Longrightarrow> \<not> 3 < n \<Longrightarrow> 1 \<le> unat n \<and> unat n \<le> 3" for n :: "64 word"
  by (simp add: word_less_nat_alt)

lemma if_InrE:
  "(if b then x else y) = Inr z \<Longrightarrow> (b \<Longrightarrow> x = Inr z \<Longrightarrow> P) \<Longrightarrow> (\<not> b \<Longrightarrow> y = Inr z \<Longrightarrow> P) \<Longrightarrow> P"
  by (simp split: if_splits)

lemma option_InrE:
  "(case x of None \<Rightarrow> Inl e | Some n \<Rightarrow> f n) = Inr z \<Longrightarrow> (\<And>n. f n = Inr z \<Longrightarrow> P) \<Longrightarrow> P"
  by (simp split: option.splits)

lemma Inr_Inr_E: "Inr x = Inr z \<Longrightarrow> (z = x \<Longrightarrow> P) \<Longrightarrow> P" for x :: 'a and z :: 'a
  by simp

lemma Inl_Inr_E: "Inl x = Inr z \<Longrightarrow> P"
  by simp

lemma package_value_cases:
  assumes "package_value option value o0 = Inr o1"
  obtains (format) "value \<in> {''terminal'', ''json'', ''jsonl''}" "o1 = o0\<lparr>po_format := value\<rparr>"
  | (network) "value \<in> {''off'', ''mirror''}" "o1 = o0\<lparr>po_network := value\<rparr>"
  | (mirror) "valid_mirror value" "o1 = o0\<lparr>po_mirrors := po_mirrors o0 @ [value]\<rparr>"
  | (host) "value \<noteq> []" "CHR ''/'' \<notin> set value" "zero_byte \<notin> set value"
      "o1 = o0\<lparr>po_allowed_hosts := po_allowed_hosts o0 @ [value]\<rparr>"
  | (rootfs) "o1 = o0\<lparr>po_rootfs := value\<rparr>"
  | (timeout) n :: "64 word" where "n \<noteq> 0" "o1 = o0\<lparr>po_timeout := n\<rparr>"
  | (workers) n :: "64 word" where "n \<noteq> 0" "\<not> 128 < n" "o1 = o0\<lparr>po_workers := unat n\<rparr>"
  | (database) "o1 = o0\<lparr>po_database := value\<rparr>"
  | (cgroup) "o1 = o0\<lparr>po_cgroup_root := value\<rparr>"
  | (rebuild) n :: "64 word" where "\<not> n < 1" "\<not> 3 < n" "o1 = o0\<lparr>po_build_repetitions := unat n\<rparr>"
  using assms unfolding package_value_def
  by (elim if_InrE option_InrE Inr_Inr_E Inl_Inr_E)
    (rule that; (simp only: de_Morgan_disj de_Morgan_conj not_not insert_iff empty_iff simp_thms; fail))+

lemma package_value_ok:
  assumes "package_value option value o0 = Inr o1" "options_ok o0"
  shows "options_ok o1"
  using assms(1)
proof (cases rule: package_value_cases)
  case (workers n)
  with assms(2) workers_range show ?thesis by (simp add: options_ok_def)
next
  case (rebuild n)
  with assms(2) repetitions_range show ?thesis by (simp add: options_ok_def)
next
  case (timeout n)
  with assms(2) show ?thesis by (simp add: options_ok_def unat_gt_0)
qed (use assms(2) in \<open>simp_all add: options_ok_def\<close>)

lemma parse_package_options_ok:
  "parse_package_options args o0 = Inr (o1, rest) \<Longrightarrow> options_ok o0 \<Longrightarrow> options_ok o1"
proof (induction args o0 rule: parse_package_options.induct)
  case (2 option rest' o0)
  show ?case
  proof (cases "option = ''--run-all'' \<or> option = ''--byte-diff''")
    case True
    have "options_ok (o0\<lparr>po_run_all := True\<rparr>)" "options_ok (o0\<lparr>po_byte_diff := True\<rparr>)"
      using 2(5) by (simp_all add: options_ok_def)
    with True 2 show ?thesis by (auto split: if_splits)
  next
    case False
    with 2 show ?thesis
      by (auto split: if_splits list.splits sum.splits dest: package_value_ok)
  qed
qed simp

definition action_options :: "package_action \<Rightarrow> package_options" where
  "action_options act =
     (case act of Doctor o0 \<Rightarrow> o0 | Scan o0 _ \<Rightarrow> o0 | Compare o0 _ _ _ \<Rightarrow> o0 | Build o0 _ \<Rightarrow> o0
      | Fetch o0 _ \<Rightarrow> o0 | Report o0 _ \<Rightarrow> o0 | Cleanup o0 \<Rightarrow> o0)"

lemma package_command_options: "package_command name o0 args = Inr act \<Longrightarrow> action_options act = o0"
  unfolding package_command_def action_options_def by (elim if_InrE Inr_Inr_E Inl_Inr_E) simp_all

lemma sum_InrE:
  "(case x of Inl e \<Rightarrow> Inl e | Inr y \<Rightarrow> f y) = Inr z \<Longrightarrow> (\<And>y. x = Inr y \<Longrightarrow> f y = Inr z \<Longrightarrow> P) \<Longrightarrow> P"
  by (simp split: sum.splits)

lemma parse_command_package:
  assumes "parse_command argv = Inr (Package act)"
  shows "parse_package (argv ! 1) (drop 2 argv) = Inr act"
  using assms unfolding parse_command_def Let_def
  by (elim if_InrE sum_InrE Inr_Inr_E Inl_Inr_E) (auto simp: numeral_2_eq_2)

lemma parsed_options_ok:
  assumes "parse_command argv = Inr (Package act)"
  shows "options_ok (action_options act)" "check_mirrors (action_options act) = None"
proof -
  from assms have "parse_package (argv ! 1) (drop 2 argv) = Inr act"
    by (rule parse_command_package)
  then obtain o1 rest where o1: "parse_package_options (drop 2 argv) default_package_options = Inr (o1, rest)"
    "check_mirrors o1 = None" "package_command (argv ! 1) o1 rest = Inr act"
    by (auto simp: parse_package_def split: sum.splits option.splits)
  have "action_options act = o1" using o1(3) by (rule package_command_options)
  with parse_package_options_ok [OF o1(1) default_options_ok] o1(2)
  show "options_ok (action_options act)" "check_mirrors (action_options act) = None" by simp_all
qed

text \<open>C27. Package commands only ever run with well-formed options: not privileged, a known format and
  network policy, only valid mirrors, mirrors given exactly if the mirror policy is chosen,
  allowed hosts without slashes, a timeout that is not zero, 1 to 128 workers and 1 to 3 builds; whatever
  the arguments are.\<close>

theorem package_options_well_formed:
  assumes "parse_command argv = Inr (Package act)"
  shows "options_ok (action_options act) \<and>
    (po_network (action_options act) = ''mirror'' \<longleftrightarrow> po_mirrors (action_options act) \<noteq> [])"
  using parsed_options_ok [OF assms] by (auto simp: check_mirrors_def options_ok_def split: if_splits)

theorem package_options_well_formed_witness:
  "parse_command [''package'', ''scan'', ''--rebuild'', ''2'', ''a.pkg.tar.zst''] =
     Inr (Package (Scan (default_package_options\<lparr>po_build_repetitions := 2\<rparr>) ''a.pkg.tar.zst'')) \<and>
   options_ok (default_package_options\<lparr>po_build_repetitions := 2\<rparr>)"
proof -
  have two: "parse_u64 ''2'' = Some 2"
    by (simp add: parse_u64_def is_digit_def digits_value_def)
  have c: "parse_command [''package'', ''scan'', ''--rebuild'', ''2'', ''a.pkg.tar.zst''] =
     Inr (Package (Scan (default_package_options\<lparr>po_build_repetitions := 2\<rparr>) ''a.pkg.tar.zst''))"
    using two
    by (simp add: parse_command_def parse_package_def package_value_def check_mirrors_def package_command_def
        default_package_options_def word_less_nat_alt)
  from package_options_well_formed [OF c] c show ?thesis by (simp add: action_options_def)
qed

end
