(* ===== verification/Trace_Commands.thy ===== *)
theory Trace_Commands
  imports Cli
begin

text \<open>
  The commands \<^verbatim>\<open>trace\<close>, \<^verbatim>\<open>inspect\<close> and \<^verbatim>\<open>analyze\<close> once their options are parsed
  (\<^verbatim>\<open>src/main.cpp\<close>): which reporter the tracer gets, what is printed when it returns, and the exit
  status. The kernel and what \<^verbatim>\<open>fork\<close> returned are the tracer's parameters. A run that does not
  return is \<^term>\<open>None\<close>; the value is the text printed and the exit status.
\<close>

section \<open>The commands\<close>

definition json_tracer :: "json_reporter reporter" where
  "json_tracer = \<lparr>rep_report = json_report, rep_stop_requested = default_stop_requested\<rparr>"

definition trace_main :: "'k kernel \<Rightarrow> int \<Rightarrow> bool \<Rightarrow> 'k \<Rightarrow> (string \<times> int) option" where
  "trace_main api root_pid json k =
     (if json then
        map_option (\<lambda>(out, reporter, _). (json_output (json_finish reporter), exit_code out))
          (trace_run api json_tracer root_pid new_json_reporter k)
      else map_option (\<lambda>(out, printed, _). (printed, exit_code out)) (trace_run_terminal api root_pid [] k))"

definition inspect_main ::
  "'k kernel \<Rightarrow> int \<Rightarrow> policy_config \<Rightarrow> bool \<Rightarrow> 'k \<Rightarrow> (string \<times> int) option" where
  "inspect_main api root_pid config json k =
     (if json then
        map_option (\<lambda>(out, policy, _). (json_output (json_finish (pr_downstream policy)), exit_code out))
          (trace_run api (policy_over json_report) root_pid (new_policy_reporter config new_json_reporter) k)
      else
        map_option (\<lambda>(out, policy, _). (summary_print (pr_downstream policy), exit_code out))
          (trace_run api (policy_over summary_report) root_pid (new_policy_reporter config empty_summary) k))"

text \<open>The exit status is decided by searching the printed document.\<close>

definition allow_member :: string where
  "allow_member = quote @ ''verdict'' @ quote @ '':'' @ quote @ ''allow'' @ quote"

definition analyze_main :: "'k analyze_env \<Rightarrow> analyze_options \<Rightarrow> string list \<Rightarrow> (string \<times> int) option" where
  "analyze_main env options target =
     map_option
       (\<lambda>r. (if ao_format options = FormatJson then analyze_json r @ newline else analyze_print r,
             if contains_str (analyze_json r) allow_member then 0 else 1))
       (analyze_run env target options)"

section \<open>What they print\<close>

text \<open>What \<^verbatim>\<open>inspect\<close> prints is the trace: when the traced run ends, there is one gapless stream of
  events such that the JSON output is the document of exactly these events with a violation event
  after each that broke the policy, and the exit status is the one of the target.\<close>

theorem inspect_prints_trace:
  assumes "trace_run api (policy_over json_report) root (new_policy_reporter config new_json_reporter) k =
      Some (Finished code, reporter, k')"
  shows "\<exists>es. es \<noteq> [] \<and> map (\<lambda>e. ctx_sequence (context_of e)) es = map word_of_nat [0..<length es] \<and>
    inspect_main api root config True k =
      Some (''['' @ join_with CHR '','' (map json_object (policy_stream (new_engine config) es)) @ '']'', code)"
proof -
  from policy_trace_run [OF assms] obtain es where
    es: "es \<noteq> []" "map (\<lambda>e. ctx_sequence (context_of e)) es = map word_of_nat [0..<length es]"
    "pr_downstream reporter = fold json_report (policy_stream (new_engine config) es) new_json_reporter"
    "policy_stream (new_engine config) es \<noteq> []" .
  have "\<not> json_finished (pr_downstream reporter)"
    unfolding es(3) by (simp add: json_fold_finished new_json_reporter_def)
  then have "json_output (json_finish (pr_downstream reporter)) =
      ''['' @ join_with CHR '','' (map json_object (policy_stream (new_engine config) es)) @ '']''"
    unfolding es(3) by (simp add: json_finish_def json_report_fold [OF es(4)])
  with es(1,2) assms show ?thesis
    by (intro exI [of _ es]) (simp add: inspect_main_def)
qed

end
