(* ===== verification/Verdict_Search.thy ===== *)
theory Verdict_Search
  imports Trace_Commands
begin

text \<open>
  The \<^verbatim>\<open>analyze\<close> command decides its exit status by searching the JSON document it has printed for the
  verdict (\<^verbatim>\<open>src/main.cpp\<close>). The document carries text the target chooses: paths, endpoints, names of
  system calls. This theory shows that no such text can forge or hide the verdict.

  The search pattern contains \<^verbatim>\<open>ct":\<close>. A document is \<open>quiet\<close> if these four characters occur nowhere in
  it. Escaped strings are quiet because every quote inside them follows a backslash, and no member
  name but \<^verbatim>\<open>verdict\<close> ends in \<^verbatim>\<open>ct\<close>.
\<close>

section \<open>Quiet text\<close>

definition key_end :: string where
  "key_end = ''ct'' @ quote @ '':''"

definition quiet :: "string \<Rightarrow> bool" where
  "quiet s \<longleftrightarrow> \<not> sublist key_end s"

text \<open>Two quiet parts can be joined where the pattern cannot straddle the joint.\<close>

definition joint :: "string \<Rightarrow> string \<Rightarrow> bool" where
  "joint a b \<longleftrightarrow>
     a = [] \<or> b = [] \<or> List.last a \<notin> {CHR ''c'', CHR ''t'', dquote} \<or> hd b \<notin> {CHR ''t'', dquote, CHR '':''}"

lemma key_end_eq: "key_end = [CHR ''c'', CHR ''t'', dquote, CHR '':'']"
  by (simp add: key_end_def quote_def)

lemma quiet_append:
  assumes "quiet a" "quiet b" "joint a b"
  shows "quiet (a @ b)"
proof (rule ccontr)
  assume "\<not> quiet (a @ b)"
  with assms(1,2) obtain xs ys where split: "key_end = xs @ ys" "suffix xs a" "prefix ys b"
    by (auto simp: quiet_def sublist_append)
  with assms(1,2) have "xs \<noteq> []" "ys \<noteq> []" by (auto simp: quiet_def)
  from split(1) this have "List.last xs \<in> {CHR ''c'', CHR ''t'', dquote} \<and> hd ys \<in> {CHR ''t'', dquote, CHR '':''}"
    unfolding key_end_eq by (auto simp: Cons_eq_append_conv)
  moreover have "List.last a = List.last xs" "a \<noteq> []"
    using split(2) \<open>xs \<noteq> []\<close> by (auto simp: suffix_def)
  moreover have "hd b = hd ys" "b \<noteq> []"
    using split(3) \<open>ys \<noteq> []\<close> by (auto simp: prefix_def)
  ultimately show False using assms(3) by (simp add: joint_def)
qed

lemma quiet_Cons: "x \<noteq> CHR ''c'' \<Longrightarrow> quiet (x # s) \<longleftrightarrow> quiet s"
  by (auto simp: quiet_def sublist_Cons_right key_end_eq)

lemma quiet_snoc: "x \<noteq> CHR '':'' \<Longrightarrow> quiet (s @ [x]) \<longleftrightarrow> quiet s"
proof -
  assume x: "x \<noteq> CHR '':''"
  have "\<not> suffix key_end (s @ [x])"
  proof
    assume "suffix key_end (s @ [x])"
    then have "List.last (s @ [x]) = List.last key_end" by (auto simp: suffix_def key_end_eq)
    with x show False by (simp add: key_end_eq)
  qed
  then show ?thesis by (auto simp: quiet_def sublist_snoc)
qed

lemma quiet_sublist: "quiet s \<Longrightarrow> sublist t s \<Longrightarrow> quiet t"
  by (auto simp: quiet_def dest: sublist_order.order_trans)

lemma quiet_no_quote: "dquote \<notin> set s \<Longrightarrow> quiet s"
  using set_mono_sublist [of key_end s] by (auto simp: quiet_def key_end_eq)

lemma quiet_Nil [simp]: "quiet []"
  by (rule quiet_no_quote) simp

lemma digit_not_quote: "dquote \<notin> set (dec_nat n)"
  by (rule dec_nat_no_char) (simp add: is_digit_def)

lemma quiet_numbers [simp]: "quiet (dec_int i)" "quiet (dec_word w)" "quiet (json_bool b)"
  using digit_not_quote by (auto intro!: quiet_no_quote simp: dec_int_def dec_word_def json_bool_def)

section \<open>Escaped strings\<close>

text \<open>A chunk of an escaped string does not start with a quote and has no quote after a letter.\<close>

definition escaped :: "string \<Rightarrow> bool" where
  "escaped s \<longleftrightarrow> (s \<noteq> [] \<longrightarrow> hd s \<noteq> dquote) \<and> \<not> sublist [CHR ''t'', dquote] s"

lemma escaped_append:
  assumes "escaped a" "escaped b"
  shows "escaped (a @ b)"
proof (cases "a = []")
  case False
  have "\<not> sublist [CHR ''t'', dquote] (a @ b)"
  proof
    assume "sublist [CHR ''t'', dquote] (a @ b)"
    with assms obtain xs ys where s: "[CHR ''t'', dquote] = xs @ ys" "suffix xs a" "prefix ys b"
      by (auto simp: sublist_append escaped_def)
    then consider "xs = []" | "ys = []" | "ys = [dquote]" by (auto simp: Cons_eq_append_conv)
    then show False
    proof cases
      case 3
      with s(3) assms(2) show False by (auto simp: prefix_def escaped_def)
    qed (use s assms in \<open>auto simp: escaped_def\<close>)
  qed
  with False assms show ?thesis by (simp add: escaped_def)
qed (use assms in simp)

lemma escaped_concat: "(\<And>c. c \<in> set cs \<Longrightarrow> escaped (f c)) \<Longrightarrow> escaped (concat (map f cs))"
  by (induction cs) (auto simp: escaped_append, simp add: escaped_def)

lemma quiet_escaped: "escaped s \<Longrightarrow> quiet s"
proof -
  have "sublist [CHR ''t'', dquote] key_end" by (simp add: key_end_eq sublist_Cons_right)
  then show "escaped s \<Longrightarrow> quiet s"
    using sublist_order.order_trans by (auto simp: escaped_def quiet_def)
qed

lemma quiet_quoted: "escaped s \<Longrightarrow> quiet (dquote # s @ [dquote])"
  using quiet_escaped [of s] by (simp add: quiet_Cons quiet_snoc)

lemma escaped_chars: "escaped (json_char c)" "escaped (string_json_char c)"
proof -
  have "hex_digit d \<noteq> dquote" if "d < 16" for d
    using hex_value_digit [OF that] by (auto simp: hex_value_def)
  then have "dquote \<notin> set (hex_byte n)" if "n < 0x20" for n
    using that by (auto simp: hex_byte_def eq_commute [of dquote])
  then show "escaped (json_char c)"
    by (auto simp: json_char_def escaped_def sublist_Cons_right dest: set_mono_sublist)
  show "escaped (string_json_char c)"
    by (auto simp: string_json_char_def escaped_def sublist_Cons_right)
qed

lemma quiet_strings [simp]: "quiet (write_json_string s)" "quiet (string_json s)"
proof -
  have "escaped (concat (map json_char s))" "escaped (concat (map string_json_char s))"
    by (simp_all add: escaped_concat escaped_chars)
  then show "quiet (write_json_string s)" "quiet (string_json s)"
    using quiet_quoted by (simp_all add: write_json_string_def string_json_def quote_def)
qed

section \<open>Documents\<close>

text \<open>What follows a value: nothing, the next member, or a closing bracket.\<close>

definition follows :: "string \<Rightarrow> bool" where
  "follows t \<longleftrightarrow> quiet t \<and> (t = [] \<or> hd t \<in> {CHR '','', CHR ''}'', CHR '']''})"

lemma quiet_value: "quiet v \<Longrightarrow> follows t \<Longrightarrow> quiet (v @ t)"
  by (rule quiet_append) (auto simp: follows_def joint_def)

text \<open>A sequence of members can stand before whatever follows a value.\<close>

definition members :: "string \<Rightarrow> bool" where
  "members m \<longleftrightarrow> (\<forall>t. follows t \<longrightarrow> follows (m @ t))"

lemma members_Nil [simp]: "members []"
  by (simp add: members_def)

lemma members_append: "members a \<Longrightarrow> members b \<Longrightarrow> members (a @ b)"
  by (simp add: members_def)

lemma members_member:
  assumes "quiet (json_key name)" "quiet v"
  shows "members (json_key name @ v)"
proof -
  have "follows (json_key name @ v @ t)" if "follows t" for t
  proof -
    have "quiet (json_key name @ v @ t)"
      by (rule quiet_append [OF assms(1) quiet_value [OF assms(2) that]]) (simp add: joint_def json_key_def)
    then show ?thesis by (simp add: follows_def json_key_def)
  qed
  then show ?thesis by (simp add: members_def)
qed

lemma members_Cons:
  "quiet (json_key name) \<Longrightarrow> quiet v \<Longrightarrow> members m \<Longrightarrow> members (json_key name @ v @ m)"
  using members_append [OF members_member] by simp

lemma members_case:
  "(\<And>x. members (f x)) \<Longrightarrow> members (case o0 of None \<Rightarrow> [] | Some x \<Rightarrow> f x)"
  by (cases o0) simp_all

lemma members_pair: "(\<And>x y. members (f x y)) \<Longrightarrow> members (case p of (x, y) \<Rightarrow> f x y)"
  by (cases p) simp

lemma members_case_append:
  "(\<And>x. members (f x)) \<Longrightarrow> members m \<Longrightarrow> members ((case o0 of None \<Rightarrow> [] | Some x \<Rightarrow> f x) @ m)"
  by (rule members_append [OF members_case])

lemmas members_intros = members_Cons members_member members_case_append members_case members_pair

lemma follows_close [simp]: "follows ''}''"
  by (simp add: follows_def quiet_def key_end_eq sublist_Cons_right)

lemma quiet_join: "(\<And>s. s \<in> set ss \<Longrightarrow> quiet s) \<Longrightarrow> quiet (join_with CHR '','' ss)"
proof (induction "CHR '',''" ss rule: join_with.induct)
  case (3 s s' ss)
  then have "quiet (s @ CHR '','' # join_with CHR '','' (s' # ss))"
    by (intro quiet_append) (simp_all add: quiet_Cons joint_def)
  then show ?case by simp
qed simp_all

lemma quiet_array: "(\<And>s. s \<in> set ss \<Longrightarrow> quiet s) \<Longrightarrow> quiet (''['' @ join_with CHR '','' ss @ '']'')"
  using quiet_join by (simp add: quiet_Cons quiet_snoc)

lemmas quiet_code = quiet_def key_end_eq json_key_def quote_def sublist_Cons_right

lemma quiet_keys [simp]:
  "quiet (json_key ''type'')" "quiet (json_key ''pid'')" "quiet (json_key ''sequence'')"
  "quiet (json_key ''path'')" "quiet (json_key ''bytes'')" "quiet (json_key ''fd'')" "quiet (json_key ''mode'')"
  "quiet (json_key ''endpoint'')" "quiet (json_key ''rule'')" "quiet (json_key ''resource'')"
  "quiet (json_key ''syscall'')" "quiet (json_key ''error'')" "quiet (json_key ''status'')"
  "quiet (json_key ''signaled'')" "quiet (json_key ''parent_pid'')" "quiet (json_key ''risk_level'')"
  "quiet (json_key ''risk_score'')" "quiet (json_key ''exit_status'')" "quiet (json_key ''timed_out'')"
  "quiet (json_key ''output_limited'')" "quiet (json_key ''session'')" "quiet (json_key ''attestation'')"
  "quiet (json_key ''observed_findings'')" "quiet (json_key ''policy_findings'')" "quiet (json_key ''findings'')"
  "quiet (json_key ''events'')" "quiet (json_key ''weight'')" "quiet (json_key ''explanation'')"
  by (simp_all add: quiet_code)

lemma quiet_object: "quiet first \<Longrightarrow> members m \<Longrightarrow> quiet (first @ m @ ''}'')"
  by (rule quiet_value) (simp_all add: members_def)

lemma quiet_json_object: "quiet (json_object e)"
proof -
  have "quiet ((''{'' @ quote @ ''schema_version'' @ quote @ '':1'') @
      (json_key ''type'' @ write_json_string (event_type e) @
       json_key ''pid'' @ dec_int (ctx_pid (context_of e)) @
       json_key ''sequence'' @ dec_word (ctx_sequence (context_of e)) @
       (case path_of e of None \<Rightarrow> [] | Some p \<Rightarrow> json_key ''path'' @ write_json_string p) @
       (case bytes_of e of None \<Rightarrow> [] | Some b \<Rightarrow> json_key ''bytes'' @ dec_word b) @
       (case fd_of e of None \<Rightarrow> [] | Some f \<Rightarrow> json_key ''fd'' @ dec_int f) @
       (case mode_of e of None \<Rightarrow> [] | Some m \<Rightarrow> json_key ''mode'' @ dec_word m) @
       (case endpoint_of e of None \<Rightarrow> [] | Some p \<Rightarrow> json_key ''endpoint'' @ write_json_string p) @
       (case rule_of e of None \<Rightarrow> []
        | Some (r, x) \<Rightarrow> json_key ''rule'' @ write_json_string r @
                        json_key ''resource'' @ write_json_string x) @
       (case syscall_of e of None \<Rightarrow> []
        | Some (s, n) \<Rightarrow> json_key ''syscall'' @ write_json_string s @ json_key ''error'' @ dec_int n) @
       (case status_of e of None \<Rightarrow> []
        | Some (s, b) \<Rightarrow> json_key ''status'' @ dec_int s @ json_key ''signaled'' @ json_bool b) @
       (case parent_pid_of e of None \<Rightarrow> [] | Some p \<Rightarrow> json_key ''parent_pid'' @ dec_int p)) @ ''}'')"
    by (rule quiet_object) (simp add: quiet_code, simp add: members_intros)
  then show ?thesis by (simp add: json_object_def)
qed

text \<open>The recorded events, whatever the tracer reported, and the two events \<^verbatim>\<open>analyze\<close> may append.\<close>

lemma quiet_json_report: "quiet (json_output j) \<Longrightarrow> quiet (json_output (json_report e j))"
  using quiet_json_object [of e]
  by (auto simp: json_report_def intro!: quiet_append simp: quiet_Cons joint_def)

lemma quiet_json_fold: "quiet (json_output j) \<Longrightarrow> quiet (json_output (fold json_report es j))"
  by (induction es arbitrary: j) (simp_all add: quiet_json_report)

lemma quiet_json_finish: "quiet (json_output j) \<Longrightarrow> quiet (json_output (json_finish j))"
  by (simp add: json_finish_def quiet_snoc)

lemma quiet_append_event: "quiet events \<Longrightarrow> quiet (append_event type events)" if "dquote \<notin> set type" for type
proof -
  assume events: "quiet events"
  have "quiet type" using that by (rule quiet_no_quote)
  then have quoted: "quiet (quote @ type @ quote)" by (simp add: quote_def quiet_Cons quiet_snoc)
  have "quiet ((''{'' @ quote @ ''schema_version'' @ quote @ '':1'') @
      (json_key ''type'' @ (quote @ type @ quote) @ json_key ''pid'' @ ''0'' @ json_key ''sequence'' @ ''0'') @ ''}'')"
    by (rule quiet_object) (simp add: quiet_code, intro members_Cons members_member quiet_keys quoted quiet_no_quote, simp_all)
  from iffD2 [OF quiet_snoc this, of "CHR '']''"]
  have obj: "quiet (''{'' @ quote @ ''schema_version'' @ quote @ '':1'' @ json_key ''type'' @ quote @ type @ quote @
      json_key ''pid'' @ ''0'' @ json_key ''sequence'' @ ''0}]'')" (is "quiet ?o")
    by simp
  have comma: "quiet ((if butlast events \<noteq> ''['' then '','' else []) @ ?o)"
    using obj by (simp add: quiet_Cons)
  have "quiet (butlast events)" by (rule quiet_sublist [OF events]) simp
  from quiet_append [OF this comma] events show ?thesis
    by (simp add: append_event_def Let_def joint_def)
qed

lemma quiet_policy_stream:
  assumes "trace_run api policy_tracer root (new_policy_reporter config (empty_summary, new_json_reporter)) k =
    Some (out, reporter, k')"
  shows "quiet (json_output (snd (pr_downstream reporter)))"
proof -
  let ?r0 = "new_policy_reporter config (empty_summary, new_json_reporter)"
  from trace_run_reports [OF assms] obtain es where "reporter = fold (policy_report analyze_report) es ?r0"
    by (auto simp: policy_tracer_def)
  then have "snd (pr_downstream reporter) = fold json_report (policy_stream (pr_engine ?r0) es) new_json_reporter"
    by (simp add: fold_policy_report_downstream analyze_report_fold new_policy_reporter_def)
  then show ?thesis by (simp add: quiet_json_fold new_json_reporter_def)
qed

lemma quiet_conclude:
  "quiet (json_output (snd (pr_downstream reporter))) \<Longrightarrow> quiet (ar_events_json (analyze_conclude r reporter))"
  by (simp add: analyze_conclude_def Let_def case_prod_unfold place_findings_frame quiet_append_event
      quiet_json_finish)

lemma quiet_analyze_run:
  assumes "analyze_run env target options = Some r"
  shows "quiet (ar_events_json r)"
proof (cases "target = [] \<or> an_session env = None")
  case True
  with assms show ?thesis by (auto simp: analyze_run_def new_analyze_result_def split: option.splits)
next
  case False
  with assms obtain r' reporter r0 where ex: "analyze_execute env options r0 = Some (r', reporter)"
    and r: "r = analyze_conclude r' reporter"
    by (auto simp: analyze_run_def Let_def)
  have "quiet (json_output (snd (pr_downstream reporter)))"
    using ex quiet_policy_stream
    by (auto simp: analyze_execute_def Let_def new_policy_reporter_def new_json_reporter_def split: if_splits)
  with r show ?thesis by (simp add: quiet_conclude)
qed

section \<open>The search finds the verdict\<close>

lemma quiet_finding: "quiet (finding_json f)" "quiet (full_finding_json f)"
proof -
  have "quiet (''{'' @ quote @ ''id'' @ quote @ '':'')" by (simp add: quiet_code)
  from quiet_append [OF this quiet_strings(2)]
  have first: "quiet (''{'' @ quote @ ''id'' @ quote @ '':'' @ string_json s)" for s
    by (simp add: joint_def)
  show "quiet (finding_json f)"
    using quiet_object [OF first members_Cons [OF _ _ members_member]] by (simp add: finding_json_def)
  show "quiet (full_finding_json f)"
    using quiet_object [OF first, of "json_key ''resource'' @ string_json (finding_resource f) @
     json_key ''pid'' @ dec_int (finding_pid f) @ json_key ''sequence'' @ dec_word (finding_sequence f) @
     json_key ''weight'' @ dec_int (finding_weight f) @ json_key ''explanation'' @ string_json (finding_explanation f)"]
    by (simp add: members_intros full_finding_json_def)
qed

text \<open>The members after the verdict.\<close>

definition after_verdict :: "analyze_result \<Rightarrow> string" where
  "after_verdict r =
     json_key ''risk_level'' @ string_json (level_to_string (level (ar_assessment r))) @
     json_key ''risk_score'' @ dec_int (score (ar_assessment r)) @
     json_key ''exit_status'' @ dec_int (ar_exit_status r) @
     json_key ''timed_out'' @ json_bool (ar_timed_out r) @
     json_key ''output_limited'' @ json_bool (ar_output_limited r) @
     json_key ''session'' @ string_json (ar_session r) @
     json_key ''attestation'' @ string_json (ar_attestation r) @
     json_key ''observed_findings'' @ (''['' @ join_with CHR '','' (map finding_json (ar_observed_findings r)) @ '']'') @
     json_key ''policy_findings'' @ (''['' @ join_with CHR '','' (map finding_json (ar_policy_findings r)) @ '']'') @
     json_key ''findings'' @ (''['' @ join_with CHR '','' (map full_finding_json (findings (ar_assessment r))) @ '']'') @
     json_key ''events'' @ ar_events_json r"

lemma analyze_json_split:
  "analyze_json r =
     ''{'' @ quote @ ''schema_version'' @ quote @ '':2,'' @ quote @ ''verdict'' @ quote @ '':'' @
     string_json (verdict (ar_assessment r)) @ after_verdict r @ ''}''"
  by (simp add: analyze_json_def after_verdict_def json_key_def)

lemma quiet_after_verdict: "quiet (ar_events_json r) \<Longrightarrow> quiet (string_json v @ after_verdict r @ ''}'')"
proof (rule quiet_object)
  assume "quiet (ar_events_json r)"
  then show "members (after_verdict r)"
    unfolding after_verdict_def
    by (intro members_Cons members_member quiet_keys quiet_numbers quiet_strings quiet_array) (auto simp: quiet_finding)
qed simp

lemma search_verdict:
  assumes "quiet (string_json v @ t)" "v \<in> {''allow'', ''review'', ''reject''}"
  shows "sublist allow_member (''{'' @ quote @ ''schema_version'' @ quote @ '':2,'' @ quote @ ''verdict'' @ quote @ '':'' @
     string_json v @ t) \<longleftrightarrow> v = ''allow''"
proof -
  have not_later: "\<not> sublist allow_member (string_json v @ t)"
  proof
    assume "sublist allow_member (string_json v @ t)"
    moreover have "sublist key_end allow_member"
      by (simp add: key_end_eq allow_member_def quote_def sublist_Cons_right)
    ultimately show False using assms(1) sublist_order.order_trans by (auto simp: quiet_def)
  qed
  from assms(2) consider "v = ''allow''" | "v = ''review''" | "v = ''reject''" by blast
  then show ?thesis
    by cases (use not_later in \<open>simp_all add: allow_member_def quote_def string_json_def string_json_char_def
        sublist_Cons_right\<close>)
qed

text \<open>C4. The exit status of \<^verbatim>\<open>analyze\<close> is the verdict: although the program finds the verdict by searching the
  printed document for \<^verbatim>\<open>"verdict":"allow"\<close>, and the document contains paths, endpoints, arguments
  and rule names that the target or the user chooses, the search succeeds if and only if the verdict
  of the analysis is to allow; so the exit status is zero exactly then.\<close>

theorem analyze_exit_is_verdict:
  assumes "analyze_main env options target = Some (printed, status)"
  shows "\<exists>r. analyze_run env target options = Some r \<and>
    (status = 0 \<longleftrightarrow> verdict (ar_assessment r) = ''allow'') \<and> status \<in> {0, 1}"
proof -
  from assms obtain r where r: "analyze_run env target options = Some r"
    and status: "status = (if contains_str (analyze_json r) allow_member then 0 else 1)"
    by (auto simp: analyze_main_def)
  have "verdict (ar_assessment r) \<in> {''allow'', ''review'', ''reject''}"
    by (cases "action (ar_assessment r)") (simp_all add: verdict_def)
  from search_verdict [OF quiet_after_verdict [OF quiet_analyze_run [OF r]] this]
  have "contains_str (analyze_json r) allow_member \<longleftrightarrow> verdict (ar_assessment r) = ''allow''"
    by (simp add: contains_str_iff analyze_json_split)
  with r status show ?thesis by simp
qed

lemma sample_analyze_rejects:
  "\<exists>r. analyze_run sample_analyze_env [''t''] sample_analyze_options = Some r \<and>
     verdict (ar_assessment r) = ''reject''"
proof -
  let ?p = "new_policy_reporter (ao_policy sample_analyze_options) (empty_summary, new_json_reporter)"
  obtain reporter where t: "trace_run (an_api sample_analyze_env) policy_tracer (an_root_pid sample_analyze_env) ?p
      (an_kernel sample_analyze_env) = Some (Finished 3, reporter, [])"
    by (simp add: sample_analyze_env_def script_exit_run_any)
  have env: "an_session sample_analyze_env = Some ''/tmp/execell-session-7''" "\<not> ao_sandbox sample_analyze_options"
    "ao_format sample_analyze_options = FormatTerminal"
    by (simp_all add: sample_session sample_analyze_options_def)
  then show ?thesis
    using t by (simp add: analyze_run_def analyze_execute_def Let_def analyze_conclude_simps(1) verdict_cases)
qed

theorem analyze_exit_is_verdict_witness:
  "\<exists>printed r. analyze_main sample_analyze_env sample_analyze_options [''t''] = Some (printed, 1) \<and>
     analyze_run sample_analyze_env [''t''] sample_analyze_options = Some r \<and>
     verdict (ar_assessment r) \<noteq> ''allow''"
proof -
  obtain r where r: "analyze_run sample_analyze_env [''t''] sample_analyze_options = Some r"
    and rej: "verdict (ar_assessment r) = ''reject''" using sample_analyze_rejects by blast
  from r obtain printed status where m: "analyze_main sample_analyze_env sample_analyze_options [''t''] =
      Some (printed, status)" by (simp add: analyze_main_def)
  from analyze_exit_is_verdict [OF m] r rej m show ?thesis by auto
qed

end
