(* ===== verification/Host_Capabilities.thy ===== *)
theory Host_Capabilities
  imports Report_Sinks
begin

text \<open>
  The capability probe of the \<^verbatim>\<open>doctor\<close> command (\<^verbatim>\<open>detect\<close> and its helpers in
  \<^verbatim>\<open>src/package/rootfs.cpp\<close>). The contents of the two files under \<^verbatim>\<open>/proc\<close>, the type
  that \<^verbatim>\<open>statfs\<close> reports, and the answers of \<^verbatim>\<open>access\<close> and \<^verbatim>\<open>geteuid\<close> are the fields of
  \<open>probe_env\<close>; a file that cannot be opened is \<^term>\<open>None\<close>.
\<close>

section \<open>The probes\<close>

text \<open>\<^verbatim>\<open>operator>>\<close> into a \<^verbatim>\<open>long\<close>: leading white space, an optional sign and digits; no digit
  or a value out of range fails.\<close>

definition read_long :: "string \<Rightarrow> int option" where
  "read_long s =
     (let t = dropWhile is_space s;
          signed = t \<noteq> [] \<and> (hd t = CHR ''-'' \<or> hd t = CHR ''+'');
          digits = takeWhile is_digit (if signed then tl t else t);
          n = (if signed \<and> hd t = CHR ''-'' then - int (digits_value digits) else int (digits_value digits))
      in if digits = [] \<or> n < - (2 ^ 63) \<or> 2 ^ 63 \<le> n then None else Some n)"

definition enabled :: "string option \<Rightarrow> bool" where
  "enabled content =
     (case content of
        None \<Rightarrow> False
      | Some s \<Rightarrow> (case read_long s of None \<Rightarrow> False | Some value \<Rightarrow> value > 0))"

definition hex_number :: "string \<Rightarrow> nat" where
  "hex_number = foldl (\<lambda>n c. n * 16 + the (hex_value c)) 0"

text \<open>\<^verbatim>\<open>std::from_chars\<close> in base 16, whose error is ignored: without a digit or out of range the value
  stays zero.\<close>

definition from_hex :: "string \<Rightarrow> 64 word" where
  "from_hex s =
     (let digits = takeWhile (\<lambda>c. hex_value c \<noteq> None) s
      in if digits = [] \<or> 2 ^ 64 \<le> hex_number digits then 0 else word_of_nat (hex_number digits))"

text \<open>The function is \<^verbatim>\<open>noexcept\<close>, so a line shorter than the position handed to \<^verbatim>\<open>substr\<close> ends the
  program: \<^term>\<open>None\<close>.\<close>

definition capability :: "string option \<Rightarrow> nat \<Rightarrow> bool option" where
  "capability status k =
     (case status of
        None \<Rightarrow> Some False
      | Some s \<Rightarrow>
          (case find (\<lambda>line. starts_with line ''CapEff:'') (split_on CHR 0x0A s) of
             None \<Rightarrow> Some False
           | Some line \<Rightarrow>
               if length line < 8 then None
               else Some (from_hex (drop 8 line) AND push_bit k 1 \<noteq> 0)))"

definition BTRFS_SUPER_MAGIC :: int where
  "BTRFS_SUPER_MAGIC = 0x9123683E"

definition btrfs :: "int option \<Rightarrow> bool" where
  "btrfs statfs \<longleftrightarrow> statfs = Some BTRFS_SUPER_MAGIC"

record probe_env =
  pe_user_namespaces :: "string option"
  pe_mount_namespace :: bool
  pe_status :: "string option"
  pe_statfs :: "string \<Rightarrow> int option"
  pe_euid :: int

record capabilities =
  ca_btrfs :: bool
  ca_rootless :: bool
  ca_rootful :: bool
  ca_user_namespace :: bool
  ca_mount_namespace :: bool

definition detect :: "probe_env \<Rightarrow> string \<Rightarrow> capabilities option" where
  "detect env path =
     (let user = enabled (pe_user_namespaces env); mount = pe_mount_namespace env
      in case capability (pe_status env) 21 of
           None \<Rightarrow> None
         | Some admin \<Rightarrow>
             Some \<lparr>ca_btrfs = btrfs (pe_statfs env path), ca_rootless = user \<and> mount,
               ca_rootful = pe_euid env = 0 \<and> admin, ca_user_namespace = user, ca_mount_namespace = mount\<rparr>)"

section \<open>The kernel's mask is read back\<close>

text \<open>The specification: how the kernel prints a capability mask, as hexadecimal digits with leading
  zeros, \<open>n\<close> of them.\<close>

fun hex_digits :: "nat \<Rightarrow> nat \<Rightarrow> string" where
  "hex_digits 0 n = []"
| "hex_digits (Suc k) n = hex_digits k (n div 16) @ [hex_digit (n mod 16)]"

lemma hex_digits_are_digits: "c \<in> set (hex_digits k n) \<Longrightarrow> hex_value c \<noteq> None"
proof (induction k arbitrary: n)
  case (Suc k)
  then consider "c \<in> set (hex_digits k (n div 16))" | "c = hex_digit (n mod 16)" by auto
  then show ?case by cases (use Suc hex_value_digit [of "n mod 16"] in auto)
qed simp

lemma length_hex_digits [simp]: "length (hex_digits k n) = k"
  by (induction k arbitrary: n) auto

lemma hex_number_append: "hex_number (s @ [c]) = hex_number s * 16 + the (hex_value c)"
  by (simp add: hex_number_def)

lemma hex_number_digits: "hex_number (hex_digits k n) = n mod 16 ^ k"
proof (induction k arbitrary: n)
  case 0
  then show ?case by (simp add: hex_number_def)
next
  case (Suc k)
  have "n mod 16 ^ Suc k = n div 16 mod 16 ^ k * 16 + n mod 16"
    by (simp add: mod_mult2_eq mult.commute)
  then show ?case by (simp add: Suc hex_number_append hex_value_digit)
qed

lemma from_hex_digits [simp]: "from_hex (hex_digits 16 (unat w)) = w"
proof -
  have all: "takeWhile (\<lambda>c. hex_value c \<noteq> None) (hex_digits 16 (unat w)) = hex_digits 16 (unat w)"
    using hex_digits_are_digits by (auto simp: takeWhile_eq_all_conv)
  have range: "unat w < 2 ^ 64" using unsigned_less [of w] by simp
  then have "hex_number (hex_digits 16 (unat w)) = unat w" by (simp add: hex_number_digits)
  moreover have "hex_digits 16 (unat w) \<noteq> []" by (metis length_hex_digits list.size(3) zero_neq_numeral)
  ultimately show ?thesis using range unfolding from_hex_def Let_def all by simp
qed

lemma hex_digits_no_newline: "CHR 0x0A \<notin> set (hex_digits k n)"
  using hex_digits_are_digits [of "CHR 0x0A" k n] by (auto simp: hex_value_def)

text \<open>C40. The capability probe reads back what the kernel prints: in a status file whose first line of
  effective capabilities is the kernel's 16 hexadecimal digits of a 64-bit mask, the probe answers
  for every capability number below 64 exactly the bit of the mask.\<close>

theorem capability_reads_mask:
  assumes "list_all (\<lambda>line. CHR 0x0A \<notin> set line \<and> \<not> starts_with line ''CapEff:'') before" "k < 64"
  shows "capability (Some (join_with CHR 0x0A
      (before @ [''CapEff:'' @ [CHR 0x09] @ hex_digits 16 (unat caps)] @ split_on CHR 0x0A after))) k =
    Some (bit (caps :: 64 word) k)"
proof -
  let ?line = "''CapEff:'' @ [CHR 0x09] @ hex_digits 16 (unat caps)"
  let ?lines = "before @ [?line] @ split_on CHR 0x0A after"
  have "\<forall>l \<in> set ?lines. CHR 0x0A \<notin> set l"
    using assms(1) hex_digits_no_newline by (auto simp: list_all_iff dest: split_on_components)
  then have split: "split_on CHR 0x0A (join_with CHR 0x0A ?lines) = ?lines"
    by (intro split_join) simp_all
  have "find (\<lambda>line. starts_with line ''CapEff:'') ?lines = Some ?line"
    using assms(1) by (induction before) (simp_all del: append_Cons add: append_Cons [symmetric], auto)
  moreover have "caps AND push_bit k 1 \<noteq> 0 \<longleftrightarrow> bit caps k"
    by (simp add: bit_iff_and_push_bit_not_eq_0)
  ultimately show ?thesis unfolding capability_def option.case split by simp
qed

theorem capability_reads_mask_witness:
  "capability (Some (join_with CHR 0x0A
      ([''Name: execell''] @ [''CapEff:'' @ [CHR 0x09] @ hex_digits 16 (unat (0x200000 :: 64 word))] @
       split_on CHR 0x0A ''Seccomp: 0''))) 21 = Some True"
  using capability_reads_mask [of "[''Name: execell'']" 21 "0x200000" "''Seccomp: 0''"]
  by (simp add: bit_numeral_simps)

text \<open>User namespaces that are switched off (a limit of zero), that are not supported (no such file)
  or that cannot be read as a number never count as available, so the host is not rootless.\<close>

lemma disabled_namespaces_not_rootless:
  assumes "detect env path = Some c"
    and "pe_user_namespaces env = None \<or> (\<exists>s. pe_user_namespaces env = Some s \<and>
      (read_long s = None \<or> (\<exists>n. read_long s = Some n \<and> n \<le> 0)))"
  shows "\<not> ca_rootless c \<and> \<not> ca_user_namespace c"
  using assms by (auto simp: detect_def Let_def enabled_def split: option.splits)

end
