(* ===== verification/Package_Commands.thy ===== *)
theory Package_Commands
  imports Cli Host_Capabilities
begin

text \<open>
  What the \<^verbatim>\<open>package\<close> commands do and how they exit (\<^verbatim>\<open>src/main.cpp\<close>, from the dispatch on the
  action on, and \<^verbatim>\<open>cleanup\<close> of \<^verbatim>\<open>src/package/package.cpp\<close>). Each action takes the options from the
  command line, calls its component, prints and yields the exit status. The environments of the
  components are the fields of \<open>package_env\<close>.
\<close>

section \<open>Cleanup\<close>

text \<open>A directory entry with the answers of the calls the loop makes on it, each with the error it
  leaves in the shared error code.\<close>

record cleanup_entry =
  ce_name :: string
  ce_directory :: "bool \<times> string option"
  ce_symlink :: "bool \<times> string option"
  ce_remove :: "string option"

record cleanup_env =
  cu_root_directory :: bool
  cu_root_symlink :: bool
  cu_root_error :: "string option"
  cu_root_entries :: "cleanup_entry list"
  cu_temp_error :: "string option"
  cu_temp_directory :: "bool \<times> string option"
  cu_temp_iterate :: "string option"
  cu_temp_entries :: "cleanup_entry list"

text \<open>One pass over a directory: the names handed to \<^verbatim>\<open>remove_all\<close>, in order, and the error code
  after the loop.\<close>

fun cleanup_loop :: "string \<Rightarrow> cleanup_entry list \<Rightarrow> string option \<Rightarrow> string list \<times> string option" where
  "cleanup_loop start [] ec = ([], ec)"
| "cleanup_loop start (e # es) ec =
     (if ec \<noteq> None then ([], ec)
      else if \<not> fst (ce_directory e) then cleanup_loop start es (snd (ce_directory e))
      else if fst (ce_symlink e) \<or> \<not> starts_with (ce_name e) start
      then cleanup_loop start es (snd (ce_symlink e))
      else (let (removed, ec') = cleanup_loop start es (ce_remove e) in (ce_name e # removed, ec')))"

definition cleanup :: "cleanup_env \<Rightarrow> string list \<times> string list \<times> package_result" where
  "cleanup env =
     (let sessions =
            (if cu_root_directory env \<and> \<not> cu_root_symlink env
             then fst (cleanup_loop ''session-'' (cu_root_entries env) (cu_root_error env)) else []);
          (packages, ec) =
            (if cu_temp_error env \<noteq> None then ([], cu_temp_error env)
             else if \<not> fst (cu_temp_directory env) then ([], snd (cu_temp_directory env))
             else cleanup_loop ''execell-package-'' (cu_temp_entries env) (cu_temp_iterate env))
      in (sessions, packages,
          case ec of
            None \<Rightarrow> empty_result\<lparr>pr_ok := True\<rparr>
          | Some message \<Rightarrow> empty_result\<lparr>pr_ok := False, pr_error := ''cleanup failed: '' @ message\<rparr>))"

section \<open>Doctor\<close>

definition yes_no :: "bool \<Rightarrow> string" where
  "yes_no b = (if b then ''yes'' else ''no'')"

definition doctor_json :: "capabilities \<Rightarrow> (string \<Rightarrow> bool) \<Rightarrow> string" where
  "doctor_json c has =
     json_members
       [(''schema_version'', ''1''), (''btrfs'', json_bool (ca_btrfs c)), (''rootless'', json_bool (ca_rootless c)),
        (''mount_namespace'', json_bool (ca_mount_namespace c)),
        (''user_namespace'', json_bool (ca_user_namespace c)), (''pacman'', json_bool (has ''/usr/bin/pacman'')),
        (''makepkg'', json_bool (has ''/usr/bin/makepkg'')), (''gpgv'', json_bool (has ''/usr/bin/gpgv''))] @ newline"

definition doctor_text :: "capabilities \<Rightarrow> (string \<Rightarrow> bool) \<Rightarrow> string" where
  "doctor_text c has =
     ''btrfs: '' @ yes_no (ca_btrfs c) @ newline @
     ''rootless: '' @ yes_no (ca_rootless c) @ newline @
     ''mount namespace: '' @ yes_no (ca_mount_namespace c) @ newline @
     ''user namespace: '' @ yes_no (ca_user_namespace c) @ newline @
     ''pacman: '' @ yes_no (has ''/usr/bin/pacman'') @ newline @
     ''makepkg: '' @ yes_no (has ''/usr/bin/makepkg'') @ newline @
     ''gpgv: '' @ yes_no (has ''/usr/bin/gpgv'') @ newline"

section \<open>Actions\<close>

record package_env =
  pa_scan :: "string \<Rightarrow> scan_env"
  pa_build :: "string \<Rightarrow> build_env"
  pa_compare :: "db_io option"
  pa_summary :: "string \<Rightarrow> string option"
  pa_cleanup :: cleanup_env
  pa_probe :: probe_env
  pa_has :: "string \<Rightarrow> bool"

text \<open>An outcome: the database, the text on standard output, the exit status. \<^term>\<open>None\<close> is an
  abnormal end.\<close>

type_synonym outcome = "(database \<times> string \<times> int) option"

definition exit_status_of :: "bool \<Rightarrow> int" where
  "exit_status_of ok = (if ok then 0 else 1)"

definition doctor_main :: "package_env \<Rightarrow> package_options \<Rightarrow> database \<Rightarrow> outcome" where
  "doctor_main env o0 db =
     (case detect (pa_probe env) (if po_rootfs o0 = [] then ''/'' else po_rootfs o0) of
        None \<Rightarrow> None
      | Some c \<Rightarrow>
          Some (db, if po_format o0 = ''json'' then doctor_json c (pa_has env) else doctor_text c (pa_has env),
            exit_status_of (ca_btrfs c \<and> ca_rootless c \<and> ca_mount_namespace c)))"

text \<open>The end that most actions share: print the result and exit with its verdict.\<close>

definition print_and_exit :: "package_options \<Rightarrow> database \<times> package_result \<Rightarrow> outcome" where
  "print_and_exit o0 = (\<lambda>(db, r). Some (db, print_result r o0, exit_status_of (pr_ok r)))"

definition build_options_of :: "package_options \<Rightarrow> build_options" where
  "build_options_of o0 =
     \<lparr>bo_rootfs = po_rootfs o0, bo_workspace = path_append (po_session_root o0) ''build-workspace'',
      bo_artifact_root = path_append (po_session_root o0) ''build-artifacts'', bo_timeout = po_timeout o0,
      bo_network = (po_network o0 = ''mirror''), bo_allowed_hosts = po_allowed_hosts o0,
      bo_cgroup_root = po_cgroup_root o0, bo_repetitions = po_build_repetitions o0,
      bo_output_limit = 1048576\<rparr>"

text \<open>The artifacts are scanned one after the other, all of them, each scan on the database the one
  before left.\<close>

fun scan_artifacts ::
  "package_env \<Rightarrow> package_options \<Rightarrow> string list \<Rightarrow> database \<Rightarrow> bool \<Rightarrow> database \<times> string \<times> bool" where
  "scan_artifacts env o0 [] db packages_ok = (db, [], packages_ok)"
| "scan_artifacts env o0 (artifact # artifacts) db packages_ok =
     (let (db1, scanned) = scan (pa_scan env artifact) artifact o0 db;
          line = ''artifact: '' @ stream_path artifact @ '' verdict='' @ pr_verdict scanned @ newline;
          (db2, printed, ok) = scan_artifacts env o0 artifacts db1 (packages_ok \<and> pr_ok scanned)
      in (db2, line @ printed, ok))"

definition build_main :: "package_env \<Rightarrow> package_options \<Rightarrow> string \<Rightarrow> database \<Rightarrow> outcome" where
  "build_main env o0 pkgbuild db =
     (let built = build_run (pa_build env pkgbuild) (build_options_of o0);
          printed =
            (if br_ok built then ''build: ok'' else ''build: rejected'') @ newline @
            (if br_error built \<noteq> [] then ''error: '' @ br_error built @ newline else []) @
            concat (map (\<lambda>finding. ''finding: '' @ finding @ newline) (br_findings built))
      in if \<not> br_ok built then Some (db, printed, 1)
         else
           (let (db', lines, packages_ok) = scan_artifacts env o0 (br_artifacts built) db True
            in Some (db', printed @ lines, exit_status_of packages_ok)))"

fun run_package :: "package_env \<Rightarrow> package_action \<Rightarrow> database \<Rightarrow> outcome" where
  "run_package env (Doctor o0) db = doctor_main env o0 db"
| "run_package env (Scan o0 package) db = print_and_exit o0 (scan (pa_scan env package) package o0 db)"
| "run_package env (Compare o0 name from to) db =
     print_and_exit o0 (compare_versions (pa_compare env) name from to db)"
| "run_package env (Build o0 pkgbuild) db = build_main env o0 pkgbuild db"
| "run_package env (Fetch o0 target) db = print_and_exit o0 (db, fetch target o0)"
| "run_package env (Report o0 session) db = print_and_exit o0 (db, report (pa_summary env session) session)"
| "run_package env (Cleanup o0) db = print_and_exit o0 (db, snd (snd (cleanup (pa_cleanup env))))"

section \<open>What a command that succeeds has checked\<close>

text \<open>A package of its own scan: the scan on some database passed.\<close>

definition passes_scan :: "package_env \<Rightarrow> package_options \<Rightarrow> string \<Rightarrow> bool" where
  "passes_scan env o0 p \<longleftrightarrow> (\<exists>db. pr_ok (snd (scan (pa_scan env p) p o0 db)))"

lemma scan_artifacts_ok:
  assumes "scan_artifacts env o0 artifacts db ok0 = (db', printed, True)"
  shows "ok0 \<and> (\<forall>p \<in> set artifacts. passes_scan env o0 p)"
  using assms
proof (induction artifacts arbitrary: db ok0 printed)
  case (Cons p artifacts)
  obtain db1 r where r: "scan (pa_scan env p) p o0 db = (db1, r)" by force
  obtain printed' where rest: "scan_artifacts env o0 artifacts db1 (ok0 \<and> pr_ok r) = (db', printed', True)"
    using Cons.prems r by (auto simp: Let_def split: prod.splits)
  have "passes_scan env o0 p"
    unfolding passes_scan_def using Cons.IH [OF rest] r by (intro exI [of _ db]) simp
  with Cons.IH [OF rest] show ?case by simp
qed simp

lemma print_and_exit_ok: "print_and_exit o0 res = Some (db, out, 0) \<longleftrightarrow>
    pr_ok (snd res) \<and> db = fst res \<and> out = print_result (snd res) o0"
  by (auto simp: print_and_exit_def exit_status_of_def split: prod.splits)

text \<open>The packages an action vouches for by exiting with success.\<close>

definition vouched :: "package_env \<Rightarrow> package_action \<Rightarrow> string list" where
  "vouched env act =
     (case act of
        Scan o0 package \<Rightarrow> [package]
      | Build o0 pkgbuild \<Rightarrow> br_artifacts (build_run (pa_build env pkgbuild) (build_options_of o0))
      | _ \<Rightarrow> [])"

lemma run_package_vouched:
  assumes "run_package env act db = Some (db', printed, 0)"
  shows "\<forall>p \<in> set (vouched env act). passes_scan env (action_options act) p"
proof (cases act)
  case (Scan o0 p)
  with assms have "pr_ok (snd (scan (pa_scan env p) p o0 db))" by (simp add: print_and_exit_ok)
  then show ?thesis by (auto simp: Scan vouched_def action_options_def passes_scan_def)
next
  case (Build o0 pkgbuild)
  let ?built = "build_run (pa_build env pkgbuild) (build_options_of o0)"
  obtain db1 lines ok where s: "scan_artifacts env o0 (br_artifacts ?built) db True = (db1, lines, ok)"
    by (cases "scan_artifacts env o0 (br_artifacts ?built) db True")
  with assms Build have ok by (auto simp: build_main_def Let_def exit_status_of_def split: if_splits)
  with s scan_artifacts_ok [of env o0 "br_artifacts ?built" db True db1 lines] show ?thesis
    by (simp add: Build vouched_def action_options_def)
qed (simp_all add: vouched_def)

section \<open>Cleanup touches only its own directories\<close>

lemma cleanup_loop_removes:
  "set (fst (cleanup_loop start es ec)) \<subseteq>
     {ce_name e |e. e \<in> set es \<and> fst (ce_directory e) \<and> \<not> fst (ce_symlink e) \<and> starts_with (ce_name e) start}"
proof (induction es arbitrary: ec)
  case (Cons e es)
  from Cons [of "snd (ce_directory e)"] Cons [of "snd (ce_symlink e)"] Cons [of "ce_remove e"]
  show ?case by (auto simp: case_prod_unfold Let_def)
qed simp

text \<open>Cleanup only ever removes directories of its own: whatever the file system answers, every entry
  it removes from the session root or from the temporary directory is a directory, is no symbolic
  link and has the name prefix of a session or of a package workspace; a session root that is
  itself a symbolic link is left alone.\<close>

theorem cleanup_removes_own:
  "set (fst (cleanup env)) \<subseteq>
     {ce_name e |e. e \<in> set (cu_root_entries env) \<and> fst (ce_directory e) \<and> \<not> fst (ce_symlink e) \<and>
        starts_with (ce_name e) ''session-'' \<and> \<not> cu_root_symlink env} \<and>
   set (fst (snd (cleanup env))) \<subseteq>
     {ce_name e |e. e \<in> set (cu_temp_entries env) \<and> fst (ce_directory e) \<and> \<not> fst (ce_symlink e) \<and>
        starts_with (ce_name e) ''execell-package-''}"
  using cleanup_loop_removes [of "''session-''" "cu_root_entries env" "cu_root_error env"]
    cleanup_loop_removes [of "''execell-package-''" "cu_temp_entries env" "cu_temp_iterate env"]
  unfolding cleanup_def by (simp add: case_prod_unfold Let_def) blast

text \<open>Looking up the temporary directory resets the error code: a session that could not be removed
  does not make the command fail.\<close>

theorem cleanup_forgets_session_error:
  defines "entry \<equiv> \<lparr>ce_name = ''session-1'', ce_directory = (True, None), ce_symlink = (False, None),
     ce_remove = Some ''denied''\<rparr>"
  defines "env \<equiv> \<lparr>cu_root_directory = True, cu_root_symlink = False, cu_root_error = None,
     cu_root_entries = [entry], cu_temp_error = None, cu_temp_directory = (True, None),
     cu_temp_iterate = None, cu_temp_entries = []\<rparr>"
  shows "snd (cleanup_loop ''session-'' (cu_root_entries env) (cu_root_error env)) = Some ''denied'' \<and>
    pr_ok (snd (snd (cleanup env)))"
  by (simp add: env_def entry_def cleanup_def)

text \<open>Surroundings in which a scan passes.\<close>

definition sample_package_env :: package_env where
  "sample_package_env =
     \<lparr>pa_scan = \<lambda>_. sample_scan_env, pa_build = \<lambda>_. sample_build_env, pa_compare = None, pa_summary = \<lambda>_. None,
      pa_cleanup = \<lparr>cu_root_directory = False, cu_root_symlink = False, cu_root_error = None,
        cu_root_entries = [], cu_temp_error = None, cu_temp_directory = (True, None), cu_temp_iterate = None,
        cu_temp_entries = []\<rparr>,
      pa_probe = \<lparr>pe_user_namespaces = None, pe_mount_namespace = False, pe_status = None,
        pe_statfs = \<lambda>_. None, pe_euid = 1000\<rparr>,
      pa_has = \<lambda>_. False\<rparr>"

end
