(* ===== verification/Process_Runner.thy ===== *)
theory Process_Runner
  imports Wait_Status Report_Sinks
begin

text \<open>
  The \<^verbatim>\<open>run\<close> command (\<^verbatim>\<open>src/process/process.cpp\<close>): fork, exec and wait, without tracing. The
  function is entered once and continues in both processes, told apart by what \<^verbatim>\<open>fork\<close> returned;
  the calls' answers are its parameters. The text on standard output is part of the result, the
  text on standard error is not.
\<close>

text \<open>How the function ends in one of the two processes: it returns a status, it exits, or the process
  image is replaced.\<close>

datatype process_end = Returns int | Exits int | Replaced string "string list"

definition process_run ::
  "int \<Rightarrow> bool \<Rightarrow> 32 word option \<Rightarrow> string \<Rightarrow> string list \<Rightarrow> string \<times> process_end" where
  "process_run fork exec_works waited program argv =
     (if fork < 0 then ([], Returns 1)
      else if fork = 0 then ([], if exec_works then Replaced program argv else Exits 127)
      else
        (let spawned = ''execell: spawned pid '' @ dec_int fork @ newline
         in case waited of
              None \<Rightarrow> (spawned, Returns 1)
            | Some status \<Rightarrow>
                if WIFEXITED status then
                  (let exit_code = sint (WEXITSTATUS status)
                   in (spawned @ ''[execell] process exited with code '' @ dec_int exit_code @ newline,
                       Returns exit_code))
                else if WIFSIGNALED status then
                  (let signal = sint (WTERMSIG status)
                   in (spawned @ ''[execell] process terminated by signal '' @ dec_int signal @ newline,
                       Returns (128 + signal)))
                else (spawned, Returns 1)))"

text \<open>The status of \<^verbatim>\<open>execell run\<close> is the shell's: for a child that the kernel reports as
  exited or killed, the parent returns the exit code, or 128 plus the signal whether or not a core
  was dumped, always a number from 0 to 255, so nothing is lost when it becomes the exit status of
  the program itself.\<close>

theorem process_run_status:
  assumes "fork > 0" "valid_report r" "\<And>sig ev. r \<noteq> Stopped sig ev"
  shows "\<exists>n. snd (process_run fork exec_works (Some (encode_status r)) program argv) = Returns n \<and>
    0 \<le> n \<and> n < 256 \<and> (case r of Exited code \<Rightarrow> n = int code | Killed sig core \<Rightarrow> n = 128 + int sig | Stopped sig ev \<Rightarrow> False)"
proof (cases r)
  case (Exited code)
  with assms unat_encode_status [OF assms(2)] show ?thesis
    by (simp add: process_run_def Let_def status_fields)
next
  case (Killed sig core)
  with assms unat_encode_status [OF assms(2)] show ?thesis
    by (simp add: process_run_def Let_def status_fields)
qed (use assms(3) in blast)

theorem process_run_status_witness:
  "\<exists>n. snd (process_run 7 True (Some (encode_status (Killed 9 True))) ''sh'' []) = Returns n \<and> n = 137"
  using process_run_status [of 7 "Killed 9 True" True "''sh''" "[]"] by auto

end
