(* ===== verification/Trace_Process.thy ===== *)
theory Trace_Process
  imports Trace_Loop Process_Runner
begin

text \<open>
  \<^verbatim>\<open>run\<close> of \<^verbatim>\<open>src/trace/tracer.cpp\<close> as a whole: the child between \<^verbatim>\<open>fork\<close> and the program, the parent
  with what it writes on standard error, and what is left of the target when \<^verbatim>\<open>run\<close> returns.
\<close>

section \<open>The child\<close>

text \<open>The answers to \<^verbatim>\<open>PTRACE_TRACEME\<close> and to \<^verbatim>\<open>execvp\<close>, an errno when the call fails; an \<^verbatim>\<open>execvp\<close> that
  succeeds does not return.\<close>

definition trace_child ::
  "(int \<Rightarrow> string) \<Rightarrow> int option \<Rightarrow> int option \<Rightarrow> string \<Rightarrow> string list \<Rightarrow> string \<times> process_end" where
  "trace_child strerror traceme exec program argv =
     (case traceme of
        Some err \<Rightarrow> (''execell: PTRACE_TRACEME failed: '' @ strerror err @ newline, Exits 127)
      | None \<Rightarrow>
          (case exec of
             Some err \<Rightarrow> (''execell: execvp failed: '' @ strerror err @ newline, Exits 127)
           | None \<Rightarrow> ([], Replaced program argv)))"

section \<open>The parent\<close>

text \<open>What is written when a call fails; \<^term>\<open>fork_errno\<close> is the errno of a failed \<^verbatim>\<open>fork\<close>.\<close>

fun trace_diagnostic :: "(int \<Rightarrow> string) \<Rightarrow> int \<Rightarrow> trace_error \<Rightarrow> string" where
  "trace_diagnostic strerror fork_errno ForkFailed =
     ''execell: fork failed: '' @ strerror fork_errno @ newline"
| "trace_diagnostic strerror fork_errno (InitialWaitFailed e) =
     ''execell: initial waitpid failed: '' @ error_message strerror e @ newline"
| "trace_diagnostic strerror fork_errno (SetOptionsFailed e) =
     ''execell: PTRACE_SETOPTIONS failed: '' @ error_message strerror e @ newline"
| "trace_diagnostic strerror fork_errno (SyscallFailedToContinue e) =
     ''execell: PTRACE_SYSCALL failed: '' @ error_message strerror e @ newline"
| "trace_diagnostic strerror fork_errno (WaitFailed e) =
     ''execell: waitpid failed: '' @ error_message strerror e @ newline"
| "trace_diagnostic strerror fork_errno (EventMessageFailed e) =
     ''execell: PTRACE_GETEVENTMSG failed: '' @ error_message strerror e @ newline"
| "trace_diagnostic strerror fork_errno (GetRegistersFailed e) =
     ''execell: PTRACE_GETREGS failed: '' @ error_message strerror e @ newline"
| "trace_diagnostic strerror fork_errno NoTasksLeft = []"

text \<open>The banner is written once the options are set, just before the loop.\<close>

fun loop_entered :: "trace_outcome \<Rightarrow> bool" where
  "loop_entered (Failed ForkFailed) = False"
| "loop_entered (Failed (InitialWaitFailed e)) = False"
| "loop_entered (Failed (SetOptionsFailed e)) = False"
| "loop_entered out = True"

definition trace_stderr :: "(int \<Rightarrow> string) \<Rightarrow> int \<Rightarrow> int \<Rightarrow> trace_outcome \<Rightarrow> string" where
  "trace_stderr strerror fork_errno root_pid out =
     (if loop_entered out then ''[execell] tracing pid '' @ dec_int root_pid @ newline else []) @
     (case out of Failed e \<Rightarrow> trace_diagnostic strerror fork_errno e | Finished _ \<Rightarrow> [])"

section \<open>Both processes\<close>

record trace_call =
  tc_fork :: int
  tc_fork_errno :: int
  tc_traceme :: "int option"
  tc_exec :: "int option"

definition trace_process ::
  "(int \<Rightarrow> string) \<Rightarrow> 'k kernel \<Rightarrow> 'r reporter \<Rightarrow> trace_call \<Rightarrow> string \<Rightarrow> string list \<Rightarrow> 'r \<Rightarrow> 'k \<Rightarrow>
     (string \<times> process_end \<times> 'r \<times> 'k) option" where
  "trace_process strerror api rep call program argv r k =
     (if tc_fork call = 0 then
        (let (written, ending) = trace_child strerror (tc_traceme call) (tc_exec call) program argv
         in Some (written, ending, r, k))
      else
        map_option
          (\<lambda>(out, r', k'). (trace_stderr strerror (tc_fork_errno call) (tc_fork call) out,
                            Returns (exit_code out), r', k'))
          (trace_run api rep (tc_fork call) r k))"

section \<open>What is left of the target\<close>

text \<open>What the destructor of \<^verbatim>\<open>TraceSession\<close> relies on, for a predicate \<^term>\<open>runs\<close> that says whether a
  process can still execute its program: a process that can is found by the null signal, the null
  signal changes nothing, \<^verbatim>\<open>SIGKILL\<close> ends it, and reaping does not revive it.\<close>

definition kills :: "'k kernel \<Rightarrow> (int \<Rightarrow> 'k \<Rightarrow> bool) \<Rightarrow> bool" where
  "kills api runs \<longleftrightarrow>
     (\<forall>pid k. (runs pid k \<longrightarrow> fst (k_kill api pid 0 k) = None) \<and>
              (runs pid (snd (k_kill api pid 0 k)) \<longrightarrow> runs pid k) \<and>
              \<not> runs pid (snd (k_kill api pid SIGKILL k)) \<and>
              (runs pid (k_reap api pid k) \<longrightarrow> runs pid k))"

lemma killsD:
  assumes "kills api runs"
  shows "runs pid k \<Longrightarrow> fst (k_kill api pid 0 k) = None"
    "runs pid (snd (k_kill api pid 0 k)) \<Longrightarrow> runs pid k"
    "\<not> runs pid (snd (k_kill api pid SIGKILL k))" "runs pid (k_reap api pid k) \<Longrightarrow> runs pid k"
  using assms unfolding kills_def by blast+

lemma session_end_kills:
  assumes "kills api runs" "root \<ge> 0"
  shows "\<not> runs root (session_end api root k)"
proof (cases "fst (k_kill api root 0 k)")
  case None
  then have "session_end api root k =
      k_reap api root (snd (k_kill api root SIGKILL (snd (k_kill api root 0 k))))"
    using assms(2) by (auto simp: session_end_def split: prod.splits)
  then show ?thesis using killsD(3,4) [OF assms(1)] by metis
next
  case (Some e)
  then have "session_end api root k = snd (k_kill api root 0 k)"
    using assms(2) by (auto simp: session_end_def split: prod.splits)
  with Some show ?thesis using killsD(1,2) [OF assms(1)] by (metis option.discI)
qed

text \<open>Every return after the first wait goes through the destructor.\<close>

lemma trace_run_ends_session:
  assumes "trace_run api rep root r k = Some (out, r', k')" "root \<ge> 0" "\<And>e. out \<noteq> Failed (InitialWaitFailed e)"
  shows "\<exists>k2. k' = session_end api root k2"
  using assms by (auto simp: trace_run_def split: option.splits sum.splits prod.splits)

section \<open>Which errors end a trace\<close>

text \<open>The call that failed, with its errno.\<close>

fun failed_call :: "trace_error \<Rightarrow> linux_error option" where
  "failed_call ForkFailed = None"
| "failed_call (InitialWaitFailed e) = Some e"
| "failed_call (SetOptionsFailed e) = Some e"
| "failed_call (SyscallFailedToContinue e) = Some e"
| "failed_call (WaitFailed e) = Some e"
| "failed_call (EventMessageFailed e) = Some e"
| "failed_call (GetRegistersFailed e) = Some e"
| "failed_call NoTasksLeft = None"

text \<open>The failures \<^verbatim>\<open>run\<close> takes in its stride: a wait interrupted by a signal, and a task found gone when it is
  resumed or when its registers are read. A task found gone by \<^verbatim>\<open>PTRACE_GETEVENTMSG\<close> or \<^verbatim>\<open>PTRACE_SETOPTIONS\<close>
  is not among them: these calls end the trace whatever their errno.\<close>

fun tolerated :: "trace_error \<Rightarrow> bool" where
  "tolerated (InitialWaitFailed e) \<longleftrightarrow> le_code e = EINTR"
| "tolerated (WaitFailed e) \<longleftrightarrow> le_code e = EINTR"
| "tolerated (SyscallFailedToContinue e) \<longleftrightarrow> le_code e = ESRCH"
| "tolerated (GetRegistersFailed e) \<longleftrightarrow> le_code e = ESRCH"
| "tolerated _ \<longleftrightarrow> False"

definition loop_failure :: "trace_outcome \<Rightarrow> bool" where
  "loop_failure out \<longleftrightarrow> (\<forall>e. out = Failed e \<longrightarrow> \<not> tolerated e) \<and> loop_entered out"

lemma handle_stop_failure:
  "handle_stop api rep root st s k = (Some out, s', k') \<Longrightarrow> loop_failure out"
  by (auto simp: handle_stop_def handle_gone_def handle_ptrace_event_def handle_syscall_def Let_def
      loop_failure_def split: if_splits prod.splits option.splits sum.splits)

lemma resume_task_failure:
  "resume_task api s k = (Some e, s', k') \<Longrightarrow> loop_failure (Failed e)"
  by (auto simp: resume_task_def Let_def loop_failure_def split: if_splits prod.splits sum.splits)

lemma trace_step_failure:
  assumes "trace_step api rep root s k = Some (Some out, s', k')"
  shows "loop_failure out"
proof -
  obtain err s1 k1 where r: "resume_task api s k = (err, s1, k1)" by (cases "resume_task api s k") auto
  show ?thesis
  proof (cases err)
    case (Some e)
    with assms r resume_task_failure [of api s k e] show ?thesis by (auto simp: trace_step_def)
  next
    case None
    then obtain w k2 where w: "wait_for api (- 1) k1 = Some (w, k2)"
      using assms r by (auto simp: trace_step_def split: option.splits)
    show ?thesis
    proof (cases w)
      case (Inl e)
      with None assms r w wait_for_no_eintr [of api "- 1" k1 e k2] show ?thesis
        by (auto simp: trace_step_def loop_failure_def)
    next
      case (Inr ps)
      obtain pid status where "ps = (pid, status)" by fastforce
      with Inr None assms r w show ?thesis by (auto simp: trace_step_def intro: handle_stop_failure)
    qed
  qed
qed

lemma trace_loop_failure:
  assumes "trace_loop api rep root s k = Some (out, s', k')"
  shows "loop_failure out"
  using trace_loop_end [OF assms] trace_step_failure by (fastforce simp: loop_end_def loop_failure_def)

lemma trace_run_fork_failed:
  assumes "trace_run api rep root r k = Some (Failed e, r', k')"
  shows "e = ForkFailed \<longleftrightarrow> root < 0"
proof -
  have "out \<noteq> Failed ForkFailed" if "trace_loop api rep root s k1 = Some (out, s', k2)" for out s s' k1 k2
    using trace_loop_failure [OF that] by (auto simp: loop_failure_def)
  with assms show ?thesis
    by (fastforce simp: trace_run_def split: if_splits option.splits sum.splits prod.splits)
qed

lemma trace_run_not_tolerated:
  assumes "trace_run api rep root r k = Some (Failed e, r', k')"
  shows "\<not> tolerated e"
proof -
  consider (fork) "e = ForkFailed" | (wait) err k1 where "wait_for api root k = Some (Inl err, k1)" "e = InitialWaitFailed err"
    | (options) err where "e = SetOptionsFailed err"
    | (loop) s2 k2 s3 k3 where "trace_loop api rep root s2 k2 = Some (Failed e, s3, k3)"
    using assms by (auto simp: trace_run_def split: if_splits option.splits sum.splits prod.splits)
  then show ?thesis
  proof cases
    case wait
    then show ?thesis using wait_for_no_eintr by fastforce
  next
    case loop
    then show ?thesis using trace_loop_failure by (fastforce simp: loop_failure_def)
  qed simp_all
qed

text \<open>A task killed from outside while it is stopped at a ptrace event ends the whole trace, the other tasks
  with it.\<close>

lemma gone_at_event_ends_trace:
  "k_event_message api (stop_pid st) k = (Inl ESRCH, k') \<Longrightarrow> kind st = StopPtraceEvent \<Longrightarrow>
     handle_stop api rep root st s k =
       (Some (Failed (EventMessageFailed (from_errno ''ptrace(PTRACE_GETEVENTMSG)'' ESRCH))), s, k')"
  by (simp add: handle_stop_def handle_ptrace_event_def event_message_def)

text \<open>How the last line on standard error ends: the errno text of a failed fork, the failed call with the
  text of its errno, or no line at all when the registry ran empty.\<close>

definition failure_line :: "(int \<Rightarrow> string) \<Rightarrow> int \<Rightarrow> trace_error \<Rightarrow> string" where
  "failure_line strerror fork_errno e =
     (case failed_call e of
        Some err \<Rightarrow> le_operation err @ '': '' @ strerror (le_code err) @ newline
      | None \<Rightarrow> if e = ForkFailed then strerror fork_errno @ newline else [])"

lemma trace_diagnostic_line:
  "\<exists>before. trace_diagnostic strerror fork_errno e = before @ failure_line strerror fork_errno e"
  by (cases e) (auto simp: failure_line_def error_message_def)

text \<open>C19. A trace that fails says why and leaves no target running: whenever \<^verbatim>\<open>run\<close> returns in the parent
  with a failure, be it the fork, a wait, a ptrace call or an empty registry, the status is 1 and standard
  error ends with the failed call and the text of its errno (of the errno of \<^verbatim>\<open>fork\<close> if that failed, no line
  if the registry ran empty); the failure is not one of those \<^verbatim>\<open>run\<close> tolerates, an interrupted wait or a task
  found gone when resumed or when its registers are read; and unless the fork or the very first wait
  failed, before the session object exists, the target can no longer execute.\<close>

theorem trace_error_behaviour:
  assumes "kills api runs" "tc_fork call \<noteq> 0"
    and "trace_run api rep (tc_fork call) r k = Some (Failed e, r', k')"
  shows "(\<exists>before. trace_process strerror api rep call program argv r k =
      Some (before @ failure_line strerror (tc_fork_errno call) e, Returns 1, r', k')) \<and>
    \<not> tolerated e \<and> (e = ForkFailed \<longleftrightarrow> tc_fork call < 0) \<and>
    (e = ForkFailed \<or> (\<exists>err. e = InitialWaitFailed err) \<or> \<not> runs (tc_fork call) k')"
proof -
  from trace_diagnostic_line [of strerror "tc_fork_errno call" e] obtain b where
    "trace_diagnostic strerror (tc_fork_errno call) e = b @ failure_line strerror (tc_fork_errno call) e" by blast
  then have "\<exists>before. trace_process strerror api rep call program argv r k =
      Some (before @ failure_line strerror (tc_fork_errno call) e, Returns 1, r', k')"
    using assms(2,3) by (auto simp: trace_process_def trace_stderr_def)
  moreover have fork: "e = ForkFailed \<longleftrightarrow> tc_fork call < 0" by (rule trace_run_fork_failed [OF assms(3)])
  moreover have "\<not> runs (tc_fork call) k'" if "tc_fork call \<ge> 0" "\<And>x. e \<noteq> InitialWaitFailed x"
  proof -
    from trace_run_ends_session [OF assms(3) that(1)] that(2) obtain k2 where
      "k' = session_end api (tc_fork call) k2" by auto
    then show ?thesis using session_end_kills [OF assms(1) that(1)] by simp
  qed
  ultimately show ?thesis using trace_run_not_tolerated [OF assms(3)] by fastforce
qed

text \<open>A kernel with one process that can be killed: its waits come from a script, the state says whether
  the process still runs.\<close>

definition mortal_kernel :: "(script \<times> bool) kernel" where
  "mortal_kernel =
     \<lparr>k_waitpid = \<lambda>_ (waits, alive). (case waits of [] \<Rightarrow> (Inl 10, [], alive) | a # rest \<Rightarrow> (a, rest, alive)),
      k_set_options = \<lambda>_ k. (None, k),
      k_syscall = \<lambda>_ _ k. (None, k),
      k_event_message = \<lambda>_ k. (Inr 8, k),
      k_get_registers = \<lambda>_ k. (Inr sample_regs, k),
      k_memory = \<lambda>_. silent_env,
      k_kill = \<lambda>_ sig (waits, alive).
        (if alive then (None, waits, sig \<noteq> SIGKILL) else (Some ESRCH, waits, False)),
      k_reap = \<lambda>_ k. k\<rparr>"

lemma mortal_kernel_kills: "kills mortal_kernel (\<lambda>_ (_, alive). alive)"
  by (auto simp: kills_def mortal_kernel_def split: prod.splits)

lemma mortal_run:
  "trace_run mortal_kernel keep_all 7 [] ([Inr (7, 4991)], True) =
     Some (Failed (WaitFailed (from_errno ''waitpid'' 10)),
       [TraceStarted 7 \<lparr>ctx_pid = 7, ctx_sequence = 0\<rparr>], [], False)"
proof -
  have wait: "wait_for mortal_kernel p (Inr a # rest, alive) = Some (Inr a, rest, alive)"
    "wait_for mortal_kernel p ([], alive) = Some (Inl (from_errno ''waitpid'' 10), [], alive)" for p a rest alive
    by (subst wait_for.simps, simp add: mortal_kernel_def)+
  have calls: "k_syscall mortal_kernel p sig k = (None, k)" for p sig k by (simp add: mortal_kernel_def)
  have "trace_step mortal_kernel keep_all 7 (initial_state keep_all 7 []) ([], True) =
      Some (Some (Failed (WaitFailed (from_errno ''waitpid'' 10))),
        (initial_state keep_all 7 [])\<lparr>ts_pending_signal := 0, ts_resume_current := False\<rparr>, [], True)"
    by (simp add: trace_step_def resume_task_def wait calls wrapper_defs initial_state_def emit_def keep_all_def Let_def)
  then have "trace_loop mortal_kernel keep_all 7 (initial_state keep_all 7 []) ([], True) =
      Some (Failed (WaitFailed (from_errno ''waitpid'' 10)),
        (initial_state keep_all 7 [])\<lparr>ts_pending_signal := 0, ts_resume_current := False\<rparr>, [], True)"
    by (subst trace_loop.simps)
      (simp add: initial_state_def insert_root_def registry_emplace_def registry_empty_def)
  moreover have "session_end mortal_kernel 7 ([], True) = ([], False)"
    "k_set_options mortal_kernel 7 k = (None, k)" for k
    by (simp_all add: session_end_def mortal_kernel_def)
  ultimately show ?thesis
    by (simp add: trace_run_def wait wrapper_defs) (simp add: initial_state_def keep_all_def)
qed

theorem trace_error_behaviour_witness:
  "\<exists>before. trace_process (\<lambda>_. ''No child processes'') mortal_kernel keep_all
      \<lparr>tc_fork = 7, tc_fork_errno = 0, tc_traceme = None, tc_exec = None\<rparr> ''ls'' [''ls''] []
      ([Inr (7, 4991)], True) =
    Some (before @ ''waitpid: No child processes'' @ newline, Returns 1,
      [TraceStarted 7 \<lparr>ctx_pid = 7, ctx_sequence = 0\<rparr>], [], False)"
  using trace_error_behaviour [OF mortal_kernel_kills, where call = "\<lparr>tc_fork = 7, tc_fork_errno = 0, tc_traceme = None, tc_exec = None\<rparr>"
      and rep = keep_all and r = "[]" and k = "([Inr (7, 4991)], True)" and strerror = "\<lambda>_. ''No child processes''"
      and e = "WaitFailed (from_errno ''waitpid'' 10)" and program = "''ls''" and argv = "[''ls'']"]
  by (simp add: mortal_run failure_line_def)

end
