(* ===== verification/Sandbox_Run.thy ===== *)
theory Sandbox_Run
  imports Sandbox
begin

text \<open>
  The parent's side of \<^verbatim>\<open>run\<close> in \<^verbatim>\<open>src/sandbox/sandbox.cpp\<close>: control group, id mappings, the release of the
  child and its status; and what parent and child guarantee together.
\<close>

section \<open>The parent\<close>

text \<open>The kernel's answers to the parent: the pipe, the fork, setting the process group (an errno
  or success), a file write, the fork of an id-mapping helper and the wait for it, and the final
  wait.\<close>

record parent_env =
  pe_pipe :: bool
  pe_fork :: int
  pe_setpgid :: "int option"
  pe_write_file :: "string \<Rightarrow> string \<Rightarrow> bool"
  pe_mapper_fork :: "string \<Rightarrow> int"
  pe_mapper_wait :: "string list \<Rightarrow> int \<times> 32 word"
  pe_uid :: nat
  pe_gid :: nat
  pe_wait :: "int + 32 word"

datatype parent_call = KillChild int | ReapChild | ReleaseChild

definition configure_cgroup :: "parent_env \<Rightarrow> int \<Rightarrow> cgroup_budget \<Rightarrow> bool" where
  "configure_cgroup env pid budget =
     (if cg_path budget = [] then True
      else
        (let put = (\<lambda>name value. pe_write_file env (path_append (cg_path budget) name) value)
         in if memory_max budget \<noteq> 0 \<and> \<not> put ''memory.max'' (dec_word (memory_max budget)) then False
            else if pids_max budget \<noteq> 0 \<and> \<not> put ''pids.max'' (dec_word (pids_max budget)) then False
            else if cpu_quota_us budget \<noteq> 0 \<and>
                    \<not> put ''cpu.max'' (dec_word (cpu_quota_us budget) @ '' '' @ dec_word (cpu_period_us budget))
            then False
            else put ''cgroup.procs'' (dec_int pid)))"

definition id_mapping :: "parent_env \<Rightarrow> bool \<Rightarrow> string" where
  "id_mapping env map_unprivileged_user =
     ''0 '' @ dec_nat (pe_uid env) @ '' 1'' @ newline @
     (if map_unprivileged_user then ''1000 '' @ dec_nat (pe_uid env) @ '' 1'' @ newline else [])"

text \<open>The arguments of the helper and its run, \<^verbatim>\<open>map\<close> in the code. A helper that cannot be executed
  exits with 127.\<close>

definition mapper_argv :: "string \<Rightarrow> int \<Rightarrow> nat \<Rightarrow> bool \<Rightarrow> string list" where
  "mapper_argv tool pid host_id map_unprivileged_user =
     [tool, dec_int pid, ''0'', dec_nat host_id, ''1''] @
     (if map_unprivileged_user then [''1000'', dec_nat host_id, ''1''] else [])"

definition run_mapper :: "parent_env \<Rightarrow> int \<Rightarrow> bool \<Rightarrow> string \<Rightarrow> nat \<Rightarrow> bool" where
  "run_mapper env pid map_unprivileged_user tool host_id =
     (let mapper = pe_mapper_fork env tool
      in if mapper < 0 then False
         else case pe_mapper_wait env (mapper_argv tool pid host_id map_unprivileged_user) of
                (waited, status) \<Rightarrow> waited = mapper \<and> WIFEXITED status \<and> WEXITSTATUS status = 0)"

definition setup_user_namespace :: "parent_env \<Rightarrow> int \<Rightarrow> bool \<Rightarrow> bool" where
  "setup_user_namespace env pid map_unprivileged_user =
     (let prefix = ''/proc/'' @ dec_int pid @ ''/'';
          mapping = id_mapping env map_unprivileged_user
      in if run_mapper env pid map_unprivileged_user ''newuidmap'' (pe_uid env) \<and>
            run_mapper env pid map_unprivileged_user ''newgidmap'' (pe_gid env) then True
         else pe_write_file env (prefix @ ''uid_map'') mapping \<and>
              pe_write_file env (prefix @ ''gid_map'') mapping)"

abbreviation (input) EACCES :: int where "EACCES \<equiv> 13"

text \<open>The status the function returns for the status word of the child.\<close>

definition child_status :: "32 word \<Rightarrow> int" where
  "child_status status =
     (if WIFEXITED status then sint (WEXITSTATUS status)
      else if WIFSIGNALED status then 128 + sint (WTERMSIG status) else 1)"

text \<open>The parent after the fork: the process group, the control group, the id mapping, the byte that
  releases the child, and the child's status.\<close>

definition sandbox_parent :: "parent_env \<Rightarrow> int \<Rightarrow> sandbox_config \<Rightarrow> int \<times> parent_call list" where
  "sandbox_parent env pid config =
     (if (case pe_setpgid env of None \<Rightarrow> False | Some e \<Rightarrow> e \<noteq> EACCES \<and> e \<noteq> 3)
      then (1, [KillChild SIGKILL, ReapChild])
      else if \<not> configure_cgroup env pid (cgroup config)
      then (1, [KillChild SIGKILL, ReapChild])
      else if user_namespace config \<and> \<not> setup_user_namespace env pid (drop_to_unprivileged_user config)
      then (1, [KillChild SIGKILL, ReapChild])
      else
        (case pe_wait env of
           Inl _ \<Rightarrow> (1, [ReleaseChild, ReapChild])
         | Inr status \<Rightarrow> (child_status status, [ReleaseChild, ReapChild])))"

text \<open>\<^verbatim>\<open>run\<close> in the parent; in the child the fork is followed by \<^const>\<open>child_setup\<close>.\<close>

definition sandbox_run :: "sandbox_host \<Rightarrow> parent_env \<Rightarrow> sandbox_config \<Rightarrow> int \<times> parent_call list" where
  "sandbox_run h env config =
     (case validate h config of
        Inl _ \<Rightarrow> (1, [])
      | Inr _ \<Rightarrow>
          if \<not> pe_pipe env \<or> pe_fork env < 0 then (1, [])
          else sandbox_parent env (pe_fork env) config)"

section \<open>Parent and child together\<close>

text \<open>The child is released only by a parent that has configured everything, and a child that is not
  released is killed; either way it is reaped.\<close>

lemma sandbox_run_calls:
  "snd (sandbox_run h env config) \<in> {[], [KillChild SIGKILL, ReapChild], [ReleaseChild, ReapChild]}"
  by (simp add: sandbox_run_def sandbox_parent_def split: sum.splits option.splits)

lemma sandbox_run_release:
  assumes "ReleaseChild \<in> set (snd (sandbox_run h env config))"
  shows "validate h config = Inr ()" "configure_cgroup env (pe_fork env) (cgroup config)"
    "user_namespace config \<Longrightarrow> setup_user_namespace env (pe_fork env) (drop_to_unprivileged_user config)"
  using assms by (auto simp: sandbox_run_def sandbox_parent_def split: sum.splits option.splits if_splits)

lemma child_plan_awaits: "AwaitMapping \<in> set (child_plan config) \<longleftrightarrow> user_namespace config"
  by (auto simp: child_plan_def child_isolation_def child_confinement_def planned_mounts_def planned_limits_def)

text \<open>A pipe answers a read with a byte only if one was written.\<close>

definition pipe_honest :: "parent_call list \<Rightarrow> (setup_call list \<Rightarrow> setup_call \<Rightarrow> bool) \<Rightarrow> bool" where
  "pipe_honest calls ok \<longleftrightarrow> (\<forall>made. ok made AwaitMapping \<longrightarrow> ReleaseChild \<in> set calls)"

lemma child_started_mapped:
  assumes "child_setup ok config = (made, outcome)" "outcome \<noteq> ChildExit 127" "user_namespace config"
  shows "\<exists>made. ok made AwaitMapping"
  using planned_succeeded [OF child_started(1) [OF assms(1,2)], of AwaitMapping] assms(3)
  by (auto simp: child_plan_awaits succeeded_def)

text \<open>C7. In a user namespace the program starts only when both processes have finished the set-up: if
  the child gets as far as the program, the configuration was valid, the parent had put the child
  into its control group with every limit written and had written both id mappings before it
  released the child, the child had made every call of its own plan, and the parent waits for it
  instead of killing it.\<close>

theorem sandboxed_program_confined:
  assumes "child_setup ok config = (made, outcome)" "outcome \<noteq> ChildExit 127" "user_namespace config"
    and "pipe_honest (snd (sandbox_run h env config)) ok"
  shows "validate h config = Inr () \<and> configure_cgroup env (pe_fork env) (cgroup config) \<and>
    setup_user_namespace env (pe_fork env) (drop_to_unprivileged_user config) \<and>
    made = child_plan config \<and> snd (sandbox_run h env config) = [ReleaseChild, ReapChild]"
proof -
  from child_started_mapped [OF assms(1-3)] assms(4) have rel: "ReleaseChild \<in> set (snd (sandbox_run h env config))"
    by (auto simp: pipe_honest_def)
  moreover have "made = child_plan config" by (rule child_started(2) [OF assms(1,2)])
  ultimately show ?thesis
    using sandbox_run_release [OF rel] assms(3) sandbox_run_calls [of h env config] by auto
qed

text \<open>Without a user namespace there is no such point: the plan of the child does not wait for the
  parent, so the program may run before it is in its control group.\<close>

lemma child_not_synchronised: "\<not> user_namespace config \<Longrightarrow> AwaitMapping \<notin> set (child_plan config)"
  by (simp add: child_plan_awaits)

definition mapped_env :: parent_env where
  "mapped_env = \<lparr>pe_pipe = True, pe_fork = 42, pe_setpgid = None, pe_write_file = \<lambda>_ _. True,
     pe_mapper_fork = \<lambda>_. 43, pe_mapper_wait = \<lambda>_. (43, 0), pe_uid = 1000, pe_gid = 1000, pe_wait = Inr 0\<rparr>"

lemma mapped_run: "snd (sandbox_run plain_host mapped_env package_config) = [ReleaseChild, ReapChild]"
proof -
  have "setup_user_namespace mapped_env 42 b" for b
    by (simp add: setup_user_namespace_def run_mapper_def mapped_env_def Let_def WIFEXITED_def WTERMSIG_def
        WEXITSTATUS_def)
  moreover have "configure_cgroup mapped_env pid budget" for pid budget
    by (simp add: configure_cgroup_def mapped_env_def Let_def)
  moreover have "pe_pipe mapped_env" "pe_fork mapped_env = 42" "pe_setpgid mapped_env = None" "pe_wait mapped_env = Inr 0"
    by (simp_all add: mapped_env_def)
  ultimately show ?thesis by (simp add: sandbox_run_def sandbox_parent_def package_config_valid)
qed

theorem sandboxed_program_confined_witness:
  "child_setup (\<lambda>_ _. True) package_config = (child_plan package_config, ChildExec) \<and>
   configure_cgroup mapped_env 42 (cgroup package_config) \<and> setup_user_namespace mapped_env 42 False"
proof -
  note package_child
  moreover have "user_namespace package_config" "drop_to_unprivileged_user package_config = False"
    by (simp_all add: package_config_def default_config_def)
  moreover have "pipe_honest (snd (sandbox_run plain_host mapped_env package_config)) (\<lambda>_ _. True)"
    by (simp add: pipe_honest_def mapped_run)
  moreover have "pe_fork mapped_env = 42" by (simp add: mapped_env_def)
  ultimately show ?thesis
    using sandboxed_program_confined [of "\<lambda>_ _. True" package_config "child_plan package_config" ChildExec plain_host mapped_env]
    by simp
qed

end
