(* ===== verification/Main_Program.thy ===== *)
theory Main_Program
  imports Verdict_Search Package_Commands Trace_Process Sandbox_Run
begin

text \<open>
  \<^verbatim>\<open>main\<close> of \<^verbatim>\<open>src/main.cpp\<close>: the command line is parsed, one of the commands is run with the target, and
  its outcome becomes the exit status. The surroundings of the commands are the fields of
  \<open>main_env\<close>; for \<^verbatim>\<open>analyze\<close> and \<^verbatim>\<open>sandbox\<close> it is the parent that is followed. No result means that the program does not return, or ends by an exception nobody
  catches.
\<close>

section \<open>The usage text\<close>

definition program_version :: string where
  "program_version = ''0.2.0''"

definition usage_lines :: "string list" where
  "usage_lines =
     ['' run <program>   [arguments...]'',
      '' trace <program> [arguments...]'',
      '' trace --format json <program> [arguments...]'',
      '' inspect <program> [arguments...]'',
      '' inspect --deny-path PATH <program> [arguments...]'',
      '' inspect --max-processes N <program> [arguments...]'',
      '' analyze [--format terminal|json] [--sandbox] [--timeout S] [--output-limit BYTES] [policy options] <program> [arguments...]'',
      '' sandbox [--backend namespace|vm] [--network] [--trace-events] [--cpu N] [--memory BYTES] <program> [arguments...]'',
      '' package scan|build|compare|doctor|fetch|report|cleanup [options] [path]'']"

definition print_usage :: "string \<Rightarrow> string" where
  "print_usage program =
     (''ExeCell '' @ program_version @ newline @ ''Usage:'' @ newline) @
     concat (map (\<lambda>line. ''  '' @ program @ line @ newline) usage_lines) @
     ''    options: --timeout 30s --workers N --rebuild N --database PATH --cgroup-root PATH --network off|mirror --mirror URL --allow-host HOST --run-all --byte-diff'' @
     newline"

text \<open>What a command line that is not accepted leads to, on standard output and on standard error.\<close>

fun cli_output :: "string \<Rightarrow> cli_error \<Rightarrow> string \<times> string" where
  "cli_output program Usage = (print_usage program, [])"
| "cli_output program (Message message) = ([], message @ newline)"
| "cli_output program Silent = ([], [])"
| "cli_output program (Unknown_Command command) =
     (print_usage program, ''execell: unknown command: '' @ command @ newline)"

section \<open>The commands\<close>

record 'k main_env =
  me_program :: string
  me_fork :: int
  me_strerror :: "int \<Rightarrow> string"
  me_traceme :: "int option"
  me_exec :: "int option"
  me_waited :: "32 word option"
  me_api :: "'k kernel"
  me_kernel :: 'k
  me_analyze :: "'k analyze_env"
  me_host :: sandbox_host
  me_parent :: parent_env
  me_package :: package_env
  me_database :: database

definition returning :: "(string \<times> int) option \<Rightarrow> (string \<times> process_end) option" where
  "returning = map_option (\<lambda>(printed, status). (printed, Returns status))"

text \<open>The tracer forks the target: the child continues in its own part of \<^verbatim>\<open>run\<close>, the parent in the
  command.\<close>

definition forked :: "'k main_env \<Rightarrow> string list \<Rightarrow> (string \<times> int) option \<Rightarrow> (string \<times> process_end) option" where
  "forked env target parent =
     (if me_fork env = 0
      then Some ([], snd (trace_child (me_strerror env) (me_traceme env) (me_exec env) (hd target) target))
      else returning parent)"

fun run_command :: "'k main_env \<Rightarrow> command \<Rightarrow> (string \<times> process_end) option" where
  "run_command env (Run target) =
     Some (process_run (me_fork env) (me_exec env = None) (me_waited env) (hd target) target)"
| "run_command env (Trace json target) =
     forked env target (trace_main (me_api env) (me_fork env) json (me_kernel env))"
| "run_command env (Analyze_Cmd options target) = returning (analyze_main (me_analyze env) options target)"
| "run_command env (Inspect config json target) =
     forked env target (inspect_main (me_api env) (me_fork env) config json (me_kernel env))"
| "run_command env (Sandbox_Cmd config target) =
     Some ([], Returns (fst (sandbox_run (me_host env) (me_parent env) config)))"
| "run_command env (Package act) =
     returning (map_option snd (run_package (me_package env) act (me_database env)))"

definition main_process :: "'k main_env \<Rightarrow> string list \<Rightarrow> (string \<times> process_end) option" where
  "main_process env argv =
     (case parse_command argv of
        Inl e \<Rightarrow> Some (fst (cli_output (me_program env) e), Returns 1)
      | Inr command \<Rightarrow> run_command env command)"

section \<open>The exit status\<close>

definition status_byte :: "int \<Rightarrow> bool" where
  "status_byte n \<longleftrightarrow> 0 \<le> n \<and> n \<le> 255"

lemma status_byte_small [simp]: "status_byte 0" "status_byte 1"
  by (simp_all add: status_byte_def)

lemma status_byte_word [simp]:
  "status_byte (sint (WEXITSTATUS status))" "status_byte (128 + sint (WTERMSIG status))"
  by (simp_all add: status_byte_def sint_WEXITSTATUS sint_WTERMSIG)

lemma child_status_byte: "status_byte (child_status status)"
  by (simp add: child_status_def)

lemma sandbox_run_byte: "status_byte (fst (sandbox_run h env config))"
  by (simp add: sandbox_run_def sandbox_parent_def child_status_byte split: sum.splits option.splits)

lemma process_run_byte:
  "snd (process_run fork exec_works waited program argv) = Returns n \<Longrightarrow> status_byte n"
  by (auto simp: process_run_def Let_def split: if_splits option.splits)

lemma handle_stop_byte:
  assumes "handle_stop api rep root (classify_stop pid status) s k = (Some out, s', k')"
  shows "status_byte (exit_code out)"
proof -
  let ?st = "classify_stop pid status"
  have st: "kind ?st = StopExited \<Longrightarrow> exit_status ?st = sint (WEXITSTATUS status)"
    "kind ?st = StopSignaled \<Longrightarrow> signal ?st = sint (WTERMSIG status)"
    by (auto simp: classify_stop_def Let_def split: if_splits)
  show ?thesis
    using assms st
    by (auto simp: handle_stop_def handle_gone_def handle_ptrace_event_def handle_syscall_def Let_def
        split: if_splits prod.splits option.splits sum.splits)
qed

lemma trace_step_byte:
  assumes "trace_step api rep root s k = Some (Some out, s', k')"
  shows "status_byte (exit_code out)"
  using assms by (rule trace_step_cases) (auto dest: handle_stop_byte)

lemma trace_run_byte:
  assumes "trace_run api rep root r k = Some (out, r', k')"
  shows "status_byte (exit_code out)"
proof -
  have "status_byte (exit_code o1)" if "trace_loop api rep root s1 k1 = Some (o1, s2, k2)" for s1 k1 o1 s2 k2
    using trace_loop_end [OF that] trace_step_byte by (fastforce simp: loop_end_def)
  with assms show ?thesis
    by (auto simp: trace_run_def split: if_splits option.splits sum.splits prod.splits)
qed

lemma tracing_commands_byte:
  "trace_main api root json k = Some (printed, n) \<Longrightarrow> status_byte n"
  "inspect_main api root config json k = Some (printed, n) \<Longrightarrow> status_byte n"
  by (auto simp: trace_main_def inspect_main_def trace_run_terminal_def dest: trace_run_byte split: if_splits)

lemma analyze_main_byte: "analyze_main env options target = Some (printed, n) \<Longrightarrow> status_byte n"
  by (auto simp: analyze_main_def)

lemma run_package_byte: "run_package env act db = Some (db', printed, n) \<Longrightarrow> status_byte n"
  by (cases act) (auto simp: doctor_main_def print_and_exit_def build_main_def exit_status_of_def Let_def
      split: if_splits prod.splits sum.splits option.splits)

text \<open>C28. The exit status means what the program returns: whatever the command line, whatever the kernel
  reports about the target, \<^verbatim>\<open>main\<close> returns a number from 0 to 255, so the kernel's truncation of
  the exit status to a byte never turns a failure into a success.\<close>

theorem main_status_byte:
  assumes "main_process env argv = Some (printed, Returns n)"
  shows "status_byte n \<and> n mod 256 = n"
proof -
  have "status_byte n"
  proof (cases "parse_command argv")
    case (Inl e)
    with assms show ?thesis by (simp add: main_process_def)
  next
    case (Inr command)
    with assms have "run_command env command = Some (printed, Returns n)" by (simp add: main_process_def)
    then show ?thesis
      by (cases command)
        (auto simp: returning_def forked_def trace_child_def sandbox_run_byte
          dest: process_run_byte tracing_commands_byte analyze_main_byte run_package_byte
          dest!: arg_cong [where f = snd] split: if_splits option.splits)
  qed
  then show ?thesis by (simp add: status_byte_def)
qed

definition sample_main_env :: "script main_env" where
  "sample_main_env =
     \<lparr>me_program = ''execell'', me_fork = 7, me_strerror = \<lambda>_. [], me_traceme = None, me_exec = None, me_waited = Some (encode_status (Killed 9 True)),
      me_api = script_kernel, me_kernel = exit_script, me_analyze = sample_analyze_env, me_host = plain_host,
      me_parent = mapped_env, me_package = sample_package_env, me_database = empty_database\<rparr>"

theorem main_status_byte_witness:
  "\<exists>printed. main_process sample_main_env [''run'', ''sh''] = Some (printed, Returns 137) \<and> status_byte 137"
proof -
  have "unat (encode_status (Killed 9 True)) = 137"
    using unat_encode_status [of "Killed 9 True"] by simp
  then obtain printed where main: "main_process sample_main_env [''run'', ''sh''] = Some (printed, Returns 137)"
    by (simp add: main_process_def parse_command_def process_run_def sample_main_env_def Let_def status_fields)
  with main_status_byte [OF main] show ?thesis by blast
qed

section \<open>The usage text is complete\<close>

lemma line_of_block:
  assumes "line \<in> set ls"
  shows "\<exists>before after. h @ concat (map (\<lambda>l. p @ e @ l @ n) ls) @ t = before @ p @ e @ line @ after"
proof -
  from assms obtain xs ys where "ls = xs @ line # ys" by (auto simp: in_set_conv_decomp)
  then show ?thesis
    by (intro exI [of _ "h @ concat (map (\<lambda>l. p @ e @ l @ n) xs)"]
        exI [of _ "n @ concat (map (\<lambda>l. p @ e @ l @ n) ys) @ t"]) simp
qed

lemma print_usage_line:
  "line \<in> set usage_lines \<Longrightarrow> \<exists>before after. print_usage program = before @ ''  '' @ program @ line @ after"
  unfolding print_usage_def by (rule line_of_block)

lemma accepted_command:
  assumes "parse_command argv = Inr command"
  shows "argv ! 0 \<in> set [''run'', ''trace'', ''analyze'', ''inspect'', ''sandbox'', ''package'']"
  using assms unfolding parse_command_def Let_def
  by (elim if_InrE sum_InrE Inr_Inr_E Inl_Inr_E) simp_all

text \<open>Every command the parser accepts has a line in the usage text that starts with it.\<close>

theorem usage_names_commands:
  assumes "parse_command argv = Inr command"
  shows "\<exists>before after. print_usage program = before @ ''  '' @ program @ '' '' @ argv ! 0 @ '' '' @ after"
proof -
  have "\<exists>rest. '' '' @ c @ '' '' @ rest \<in> set usage_lines"
    if "c \<in> set [''run'', ''trace'', ''analyze'', ''inspect'', ''sandbox'', ''package'']" for c
    using that by (auto simp: usage_lines_def)
  from this [OF accepted_command [OF assms]] obtain rest where
    "'' '' @ argv ! 0 @ '' '' @ rest \<in> set usage_lines" by blast
  from print_usage_line [OF this, of program] show ?thesis
    unfolding append.assoc by blast
qed

end
