(* ===== verification/Session_Life.thy ===== *)
theory Session_Life
  imports Rootfs Owned_Handle
begin

text \<open>
  What happens to a root file system session between its creation and its end
  (\<^verbatim>\<open>src/package/rootfs.cpp\<close>): the object is moved from owner to owner, and the guardian process
  removes its directories when the owner dies without releasing it.
\<close>

section \<open>Moving sessions\<close>

text \<open>A session holds something when releasing it has an effect. A path that was moved from is empty.\<close>

definition session_live :: "session \<Rightarrow> bool" where
  "session_live s \<longleftrightarrow> fst (release s) \<noteq> []"

definition session_destroy :: "session \<Rightarrow> session list" where
  "session_destroy s = (if fst (release s) = [] then [] else [s])"

definition session_move :: "session \<Rightarrow> session \<times> session" where
  "session_move other =
     (other, other\<lparr>rs_source := [], rs_writable := [], rs_workspace := [], rs_base := [], rs_guardian := - 1\<rparr>)"

definition session_assign :: "session \<Rightarrow> session \<Rightarrow> session list \<times> session \<times> session" where
  "session_assign s other = (if fst (release s) = [] then [] else [s], session_move other)"

definition rootfs_session :: "session handle_class" where
  "rootfs_session = \<lparr>hc_live = session_live, hc_blank = new_session, hc_destroy = session_destroy,
     hc_move = session_move, hc_assign = session_assign\<rparr>"

interpretation moved_session: owning_handle rootfs_session
  by unfold_locales
    (simp_all add: rootfs_session_def session_live_def session_destroy_def session_move_def session_assign_def
      release_def remove_path_def new_session_def)

text \<open>Sessions are released once: however a session is moved between owners, none is released twice
  and none is forgotten.\<close>

lemma sessions_released_once:
  assumes "(handle_step rootfs_session)\<^sup>*\<^sup>* empty_world w"
  shows "hw_bad w = []" "hw_open w = hw_raw w \<union> {s. \<exists>h. handle_owns (hc_live rootfs_session) w h s}"
  by (rule moved_session.run_resources [OF assms])+

section \<open>The guardian process\<close>

text \<open>The calls of the child of \<^verbatim>\<open>launch_guardian\<close> in order: asking for a signal on the death of the parent,
  looking whether the parent is already gone, installing the handler, waiting. The handler replaces
  the process by \<^verbatim>\<open>rm -rf\<close> on the paths of the session, or exits when that fails.\<close>

datatype guardian_phase = GuardianStarted | GuardianArmed | GuardianChecked | GuardianWaiting | GuardianGone

record guardian =
  g_phase :: guardian_phase
  g_parent :: int
  g_owner_alive :: bool
  g_effects :: "rootfs_effect list"

text \<open>The guardian makes its next call, its owner dies, or its owner sends it \<^verbatim>\<open>SIGTERM\<close>. An orphan gets
  the process \<^verbatim>\<open>reaper\<close> as its parent.\<close>

datatype guardian_event = GuardianCalls | OwnerDies | OwnerSignals

record guardian_env =
  ge_owner :: int
  ge_reaper :: int
  ge_exec_works :: bool
  ge_paths :: "string list"

definition guardian_start :: "guardian_env \<Rightarrow> guardian" where
  "guardian_start env =
     \<lparr>g_phase = GuardianStarted, g_parent = ge_owner env, g_owner_alive = True, g_effects = []\<rparr>"

definition guardian_cleanup :: "guardian_env \<Rightarrow> rootfs_effect list" where
  "guardian_cleanup env = (if ge_exec_works env then concat (map remove_path (ge_paths env)) else [])"

text \<open>\<^verbatim>\<open>SIGTERM\<close> runs the handler once it is installed and ends the process before.\<close>

definition guardian_sigterm :: "guardian_env \<Rightarrow> guardian \<Rightarrow> guardian" where
  "guardian_sigterm env g =
     (case g_phase g of
        GuardianWaiting \<Rightarrow> g\<lparr>g_phase := GuardianGone, g_effects := g_effects g @ guardian_cleanup env\<rparr>
      | _ \<Rightarrow> g\<lparr>g_phase := GuardianGone\<rparr>)"

definition guardian_call :: "guardian \<Rightarrow> guardian" where
  "guardian_call g =
     (case g_phase g of
        GuardianStarted \<Rightarrow> g\<lparr>g_phase := GuardianArmed\<rparr>
      | GuardianArmed \<Rightarrow> g\<lparr>g_phase := (if g_parent g = 1 then GuardianGone else GuardianChecked)\<rparr>
      | GuardianChecked \<Rightarrow> g\<lparr>g_phase := GuardianWaiting\<rparr>
      | _ \<Rightarrow> g)"

fun guardian_next :: "guardian_env \<Rightarrow> guardian_event \<Rightarrow> guardian \<Rightarrow> guardian" where
  "guardian_next env GuardianCalls g = guardian_call g"
| "guardian_next env OwnerDies g =
     (if \<not> g_owner_alive g then g
      else
        (let g' = g\<lparr>g_owner_alive := False, g_parent := ge_reaper env\<rparr>
         in if g_phase g = GuardianStarted then g' else guardian_sigterm env g'))"
| "guardian_next env OwnerSignals g = (if g_owner_alive g then guardian_sigterm env g else g)"

definition guardian_run :: "guardian_env \<Rightarrow> guardian_event list \<Rightarrow> guardian" where
  "guardian_run env events = fold (guardian_next env) events (guardian_start env)"

text \<open>The guardian of a session that was created with the process \<^term>\<open>owner\<close>; \<^term>\<open>exec_works\<close> is whether \<^verbatim>\<open>execv\<close>
  of the handler succeeds.\<close>

definition session_guardian :: "int \<Rightarrow> int \<Rightarrow> bool \<Rightarrow> session \<Rightarrow> guardian_env" where
  "session_guardian owner reaper exec_works s =
     \<lparr>ge_owner = owner, ge_reaper = reaper, ge_exec_works = exec_works,
      ge_paths = [rs_source s, rs_writable s, rs_base s, rs_workspace s]\<rparr>"

lemma session_guardian_simps [simp]:
  "ge_owner (session_guardian owner reaper exec_works s) = owner"
  "ge_exec_works (session_guardian owner reaper exec_works s) = exec_works"
  "ge_paths (session_guardian owner reaper exec_works s) = [rs_source s, rs_writable s, rs_base s, rs_workspace s]"
  by (simp_all add: session_guardian_def)

section \<open>What the guardian does\<close>

text \<open>In every interleaving nothing is removed unless the owner died or asked for it, only the paths of
  the session are removed, and they are removed at most once.\<close>

definition guardian_inv :: "guardian_env \<Rightarrow> bool \<Rightarrow> guardian \<Rightarrow> bool" where
  "guardian_inv env asked g \<longleftrightarrow>
     g_effects g = [] \<or> asked \<and> g_phase g = GuardianGone \<and> g_effects g = guardian_cleanup env"

lemma guardian_next_inv:
  "guardian_inv env asked g \<Longrightarrow> guardian_inv env (asked \<or> e \<noteq> GuardianCalls) (guardian_next env e g)"
  by (cases e) (auto simp: guardian_inv_def guardian_sigterm_def guardian_call_def Let_def split: guardian_phase.splits)

lemma guardian_fold_inv:
  "guardian_inv env asked g \<Longrightarrow>
    guardian_inv env (asked \<or> (\<exists>e \<in> set es. e \<noteq> GuardianCalls)) (fold (guardian_next env) es g)"
proof (induction es arbitrary: asked g)
  case (Cons e es)
  from Cons.IH [OF guardian_next_inv [OF Cons.prems, of e]] show ?case by (simp add: disj_assoc)
qed simp

lemma guardian_removes_only_session:
  "g_effects (guardian_run env events) = [] \<or>
   (\<exists>e \<in> set events. e \<noteq> GuardianCalls) \<and> g_effects (guardian_run env events) = guardian_cleanup env"
  using guardian_fold_inv [of env False "guardian_start env" events]
  by (auto simp: guardian_run_def guardian_inv_def guardian_start_def)

text \<open>A guardian that is gone stays so.\<close>

lemma guardian_gone [simp]:
  "g_phase g = GuardianGone \<Longrightarrow>
    g_phase (fold (guardian_next env) es g) = GuardianGone \<and> g_effects (fold (guardian_next env) es g) = g_effects g"
proof (induction es arbitrary: g)
  case (Cons e es)
  have "g_phase (guardian_next env e g) = GuardianGone \<and> g_effects (guardian_next env e g) = g_effects g"
    using Cons.prems by (cases e) (auto simp: guardian_sigterm_def guardian_call_def Let_def)
  then show ?case using Cons.IH [of "guardian_next env e g"] by simp
qed simp

text \<open>The guardian after its first calls, undisturbed.\<close>

lemma guardian_calls:
  assumes "ge_owner env \<noteq> 1"
  shows "fold (guardian_next env) (replicate n GuardianCalls) (guardian_start env) =
    (guardian_start env)\<lparr>g_phase := (if n = 0 then GuardianStarted else if n = 1 then GuardianArmed
       else if n = 2 then GuardianChecked else GuardianWaiting)\<rparr>"
  using assms
  by (induction n) (auto simp: guardian_start_def guardian_call_def replicate_append_same [symmetric] simp del: replicate.simps)

text \<open>Once the owner is dead nothing signals the guardian any more.\<close>

lemma guardian_orphan:
  "\<not> g_owner_alive g \<Longrightarrow> g_effects (fold (guardian_next env) es g) = g_effects g"
proof (induction es arbitrary: g)
  case (Cons e es)
  have "\<not> g_owner_alive (guardian_next env e g) \<and> g_effects (guardian_next env e g) = g_effects g"
    using Cons.prems by (cases e) (auto simp: guardian_call_def split: guardian_phase.splits)
  then show ?case using Cons.IH [of "guardian_next env e g"] by simp
qed simp

lemma guardian_crash:
  assumes "ge_owner env \<noteq> 1"
  shows "g_effects (guardian_run env (replicate n GuardianCalls @ OwnerDies # rest)) =
    (if n \<ge> 3 then guardian_cleanup env else [])"
proof -
  let ?g = "guardian_next env OwnerDies
      (fold (guardian_next env) (replicate n GuardianCalls) (guardian_start env))"
  have "\<not> g_owner_alive ?g" "g_effects ?g = (if n \<ge> 3 then guardian_cleanup env else [])"
    unfolding guardian_calls [OF assms] by (auto simp: guardian_start_def guardian_sigterm_def Let_def)
  with guardian_orphan [of ?g env rest] show ?thesis by (simp add: guardian_run_def)
qed

text \<open>The guardian is told the paths the session has.\<close>

lemma launch_guardian_paths:
  "re_fork env > 0 \<Longrightarrow> launch_guardian env s = (effects, t) \<Longrightarrow>
    effects = [StartGuardian (rs_guardian t) [rs_source t, rs_writable t, rs_base t, rs_workspace t]]"
  by (auto simp: launch_guardian_def)

lemma create_snapshots_guardian:
  assumes "create_snapshots env parent origin workspace before s0 = (effects, Inr s)"
  shows "rs_guardian s = re_fork env"
    "re_fork env > 0 \<Longrightarrow>
      StartGuardian (rs_guardian s) [rs_source s, rs_writable s, rs_base s, rs_workspace s] \<in> set effects"
  using assms
  by (auto simp: create_snapshots_def create_fallback_def fail_with_def Let_def case_prod_unfold
      launch_guardian_def split: if_splits option.splits bool.splits)

lemma create_guardian:
  assumes "create env source workspace = (effects, Inr s)" "rs_guardian s > 0"
  shows "StartGuardian (rs_guardian s) [rs_source s, rs_writable s, rs_base s, rs_workspace s] \<in> set effects"
  using assms create_snapshots_guardian
  by (fastforce simp: create_def Let_def fail_with_def new_session_def split: if_splits option.splits)

lemma cleanup_like_release:
  "pending_paths (guardian_cleanup (session_guardian owner reaper True s)) l = pending_paths (fst (release s)) l"
  by (auto simp: guardian_cleanup_def release_def)

text \<open>C14. After a crash the guardian tries to remove what the session made, once it waits: a session with a
  guardian has told it all its paths; when the owner dies after the guardian's first three calls, without
  releasing the session, and the handler's \<^verbatim>\<open>execv\<close> works, then whatever happens afterwards a directory,
  subvolume or snapshot of the session that is still there is one whose removal was attempted and failed;
  when the owner dies before, or \<^verbatim>\<open>execv\<close> fails, nothing is removed at all. Removals may fail, as on the
  read-only snapshot.\<close>

theorem guardian_cleans_after_crash:
  assumes "create env source workspace = (effects, Inr s)" "rs_guardian s > 0" "owner \<noteq> 1"
    and "crash = g_effects (guardian_run (session_guardian owner reaper exec_works s)
           (replicate n GuardianCalls @ OwnerDies # rest))"
  shows "StartGuardian (rs_guardian s) [rs_source s, rs_writable s, rs_base s, rs_workspace s] \<in> set effects \<and>
    (if n \<ge> 3 \<and> exec_works
     then \<forall>p \<in> live_paths removes (effects @ crash).
            \<exists>before after. effects @ crash = before @ RemoveAll p # after \<and> \<not> removes before p
     else crash = [])"
proof -
  let ?env = "session_guardian owner reaper exec_works s"
  have "ge_owner ?env \<noteq> 1" using assms(3) by simp
  from guardian_crash [OF this, of n rest] have crash: "crash = (if n \<ge> 3 then guardian_cleanup ?env else [])"
    unfolding assms(4) .
  have "pending_paths (fst (release s)) (pending_paths effects {}) = {}"
    using create_clean [of env source workspace] assms(1) by (simp add: clean_def whole_life_def)
  then have "pending_paths (effects @ guardian_cleanup (session_guardian owner reaper True s)) {} = {}"
    by (simp add: cleanup_like_release)
  from swept_left [OF this] crash create_guardian [OF assms(1,2)] show ?thesis
    by (auto simp: guardian_cleanup_def)
qed

theorem guardian_cleans_after_crash_witness:
  "\<exists>crash. crash = g_effects (guardian_run
      (session_guardian 7 1 True \<lparr>rs_source = ''/w/.execell-source-7-0-0'', rs_writable = ''/w/.execell-session-7-0-0'',
         rs_workspace = ''/w'', rs_base = ''/w/.execell-base-7-0-0'', rs_guardian = 42, rs_mode = ModeBtrfs\<rparr>)
      [GuardianCalls, GuardianCalls, GuardianCalls, OwnerDies]) \<and>
    live_paths (\<lambda>_ p. p \<noteq> ''/w/.execell-source-7-0-0'') (fst (create sample_rootfs_env [] ''/w'') @ crash)
      \<subseteq> {''/w/.execell-source-7-0-0''}"
proof -
  let ?s = "\<lparr>rs_source = ''/w/.execell-source-7-0-0'', rs_writable = ''/w/.execell-session-7-0-0'',
         rs_workspace = ''/w'', rs_base = ''/w/.execell-base-7-0-0'', rs_guardian = 42, rs_mode = ModeBtrfs\<rparr>"
  have create: "create sample_rootfs_env [] ''/w'' = (fst (create sample_rootfs_env [] ''/w''), Inr ?s)"
    by (metis prod.collapse sample_create)
  have events: "replicate 3 GuardianCalls @ [OwnerDies] = [GuardianCalls, GuardianCalls, GuardianCalls, OwnerDies]"
    by (simp add: numeral_3_eq_3)
  from guardian_cleans_after_crash [OF create _ _ refl, where owner = 7 and reaper = 1 and exec_works = True and n = 3
      and rest = "[]" and removes = "\<lambda>_ p. p \<noteq> ''/w/.execell-source-7-0-0''"]
  show ?thesis unfolding events by auto
qed

end
