(* ===== verification/Spec2Isabelle.thy ===== *)
theory Spec2Isabelle
  imports Main_Program Session_Life
begin

text \<open>
  ExeCell: a verification development.

  \<^bold>\<open>The program.\<close> ExeCell runs a program and says what it did. The tracer follows a process tree with
  ptrace, decodes system calls into events and hands them to a reporter. Reporters print, count or
  write JSON; the policy reporter stands in front of another reporter, judges every event and asks
  the tracer to stop. The sandbox confines a child with namespaces, limits and a seccomp filter. The
  analyze command turns a run into a risk verdict. The package commands inspect an Arch package,
  install and observe it in a Btrfs snapshot, compare it with earlier versions in an SQLite
  database, and build PKGBUILDs repeatedly. \<^verbatim>\<open>src/main.cpp\<close> parses the command line, calls one of these
  and turns the outcome into an exit status.

  \<^bold>\<open>Theories, in dependency order, with the sources they model.\<close>

  \<^item> \<open>Execell_Prelude\<close>: integer conversions at their width, the string functions of the standard
    library the code uses, decimal numerals. \<open>Ordered_Map\<close>: \<^verbatim>\<open>std::map\<close> with string keys as a sorted
    association list, with its contract as the locale \<open>string_map\<close>. \<open>Fs_Path\<close>: the operations of
    \<^verbatim>\<open>std::filesystem::path\<close> in use.
  \<^item> \<open>Event_Model\<close> (\<^verbatim>\<open>include/execell/event\<close>, \<^verbatim>\<open>report/reporter.hpp\<close>): events, and the contract of a
    reporter as the locale \<open>event_sink\<close>: a request to stop is never taken back.
  \<^item> \<open>Fd_Table\<close>, \<open>Wait_Status\<close>, \<open>Trace_Memory\<close>, \<open>Syscall_Table\<close>, \<open>Syscall_Decoder\<close>,
    \<open>Task_Registry\<close>, \<open>Linux_Api\<close>, \<open>Trace_Loop\<close>, \<open>Trace_Process\<close> (\<^verbatim>\<open>src/trace\<close>,
    \<^verbatim>\<open>include/execell/linux\<close>, \<^verbatim>\<open>core/error.hpp\<close>): descriptor tables, which
    refine a finite map (locale \<open>descriptor_map\<close>); status words, which are decoded to what the
    kernel encoded; reading strings from another process; the decoder on every system call; the
    registry of tasks; the wrappers of \<^verbatim>\<open>ptrace\<close> with their errors; the loop as a partial function
    over an abstract kernel; the child and the diagnostics. Shown: the stream of a complete trace is
    gapless and ends with the root process, the registry holds exactly the tasks the stream has
    announced and not ended, tasks do not interfere, the loop returns when the root process ends, a
    failed trace names the failed call and, once the session object exists, kills its target.
  \<^item> \<open>Report_Sinks\<close>, \<open>Policy_Engine\<close>, \<open>Risk_Engine\<close> (\<^verbatim>\<open>src/report\<close>, \<^verbatim>\<open>src/policy\<close>, \<^verbatim>\<open>src/risk\<close>):
    the reporters with their output as strings, the four policy rules and the forwarding reporter,
    and the scoring. Shown: JSON strings are decodable, the document lists the events, the policy
    decides by the first rule an event breaks, where breaking is specified over events and the history of
    process creations (\<open>breaks\<close>), the forwarding adds exactly one violation event after each such event
    (\<open>forwarded\<close>), scores stay in range.
  \<^item> \<open>Policy_Trace\<close>: the tracer with a policy in front of its reporter. Shown: a violation is recorded
    once, with the identity of the event, and its task is resumed with \<^verbatim>\<open>SIGKILL\<close> as the signal to
    deliver, which asks the kernel for its death without assuring it.
  \<^item> \<open>Owned_Handle\<close>: the contract of classes that own a resource, the locale \<open>owning_handle\<close>, and the
    programs over such a class as a step relation. It is interpreted on \<^verbatim>\<open>UniqueFd\<close>, on the archive
    reader, on the database connection and on root file system sessions. Shown once for all: no
    resource is given back twice and none is lost.
  \<^item> \<open>Unique_Fd\<close> (\<^verbatim>\<open>include/execell/core/unique_fd.hpp\<close>), \<open>File_Writes\<close> (\<^verbatim>\<open>write_file\<close> of the sandbox,
    \<^verbatim>\<open>write_root_file\<close> of the packages): descriptor handles and the loops that write whole
    files. Shown: every descriptor has one owner and is closed once; a reported success means every byte is written; \<^verbatim>\<open>write_root_file\<close> returns unless
    interrupted forever.
  \<^item> \<open>Seccomp_Filter\<close>, \<open>Sandbox\<close>, \<open>Sandbox_Run\<close> (\<^verbatim>\<open>src/sandbox\<close>): the filter program with an evaluator of its
    instructions; configuration, validation, the set-up of the child check by check, the parent, and the
    capture of output. Shown: the filter decides the allowlist; a program that starts has every
    restriction its configuration asks for (\<open>required\<close>), the calls that need privileges before those
    that give them up, with the result of \<^verbatim>\<open>capset\<close> the one exception; the same across parent and
    child; captured output is bounded.
  \<^item> \<open>Analyze\<close>, \<open>Trace_Commands\<close>, \<open>Verdict_Search\<close> (\<^verbatim>\<open>src/analyze\<close>, \<^verbatim>\<open>src/main.cpp\<close>): the analysis from
    the trace to the verdict, and the commands \<^verbatim>\<open>trace\<close>, \<^verbatim>\<open>inspect\<close> and \<^verbatim>\<open>analyze\<close>. Shown: the verdict in
    closed form, that it follows from the events of the trace, and that the exit status, which the
    program finds by searching its own output, cannot be forged by text in that output.
  \<^item> \<open>Mirror_Network\<close>, \<open>Archive_Adapter\<close>, \<open>Package_Inspect\<close>, \<open>Storage\<close>, \<open>Package_Report\<close>,
    \<open>Observation\<close>, \<open>Rootfs\<close>, \<open>Session_Life\<close>, \<open>Host_Capabilities\<close>, \<open>Package_Scan\<close>, \<open>Aur_Manifest\<close>,
    \<open>Package_Build\<close> (\<^verbatim>\<open>src/package\<close>): allowlists, archive paths and limits, metadata and signatures,
    the two database tables, reports, the pool of observing threads as a step relation over all
    interleavings, root file system sessions as lists of effects with the contract
    \<open>rootfs_sessions\<close>, the guardian process over all interleavings with its owner, the probe of
    the host, the scan, PKGBUILDs and builds. Shown: what a passed inspection, scan or build has established, that archive paths stay inside, that observing is
    free of races and ends, that baselines are first observations, that a session attempts to remove
    everything it has made and leaves only what could not be removed, also after a crash once its guardian
    waits and can execute \<^verbatim>\<open>rm\<close>.
  \<^item> \<open>Process_Runner\<close> (\<^verbatim>\<open>src/process\<close>), \<open>Cli\<close>, \<open>Package_Commands\<close>, \<open>Main_Program\<close> (\<^verbatim>\<open>src/main.cpp\<close>, \<^verbatim>\<open>cleanup\<close> of
    \<^verbatim>\<open>src/package/package.cpp\<close>): plain runs, the option parsers, the package commands and \<^verbatim>\<open>main\<close> up to the
    exit status. Shown: options that pass the parser are well formed, cleanup removes only
    directories of its own, the exit status is never truncated, the usage text names every command.
  \<^item> This theory: from the command line to the gates of a scan.

  \<^bold>\<open>Conventions.\<close> A class or struct is a record, its methods are functions on it; an exception or an
  \<^verbatim>\<open>std::expected\<close> is a sum whose left side is the message; integers whose width matters are words.
  The kernel, the file system, SQLite, libarchive, inet_ntop and the clock are parameters: records of
  functions or of answers, arguments of the definitions that ask them. So are, for the definitions that
  build on them, the runs of the sandbox (a function of the command, the configuration and the time
  limit) and of the observation (a function of the root, the paths and the options), whose outcome
  depends on the kernel and on the schedule of the threads. Where one call can be answered
  differently at different times, the parameter is a function of a kernel state, of the calls made
  before, or of a running number. Witnesses instantiate the parameters by concrete functions.

  \<^bold>\<open>Loops and fuel.\<close> Loops over data are recursive functions with a termination proof. The loops
  that may run forever, waiting, tracing and writing files, are partial functions into an option, and
  that they return is proved where it holds. The capture of output is driven by the list of rounds of the
  event loop; it yields nothing when the list ends while a pipe is open, and every bound is stated
  for the runs that end. No other fuel is used.

  \<^bold>\<open>Not modelled.\<close> The messages of the sandbox on standard error; the arguments of mount calls beyond
  what the constructors of \<open>setup_call\<close> name; what \<^verbatim>\<open>ptrace\<close> does with a signal at a stop that does not
  deliver one; descriptor numbers shared by the observing threads, and what an observation that throws
  had added to its result before; rowids at SQLite's maximum; the copies that \<^verbatim>\<open>stage\<close> puts into a
  snapshot before it is observed; the bodies of the target and of the helper processes after exec; the
  structs of one integer of \<^verbatim>\<open>core/types.hpp\<close>; the files of an analysis session, which are written and
  never read back; compile-time branches for other architectures; tests, fixtures, examples and tools.
\<close>

section \<open>From the command line to the gates of a scan\<close>

text \<open>C2. End to end for packages: whenever a \<^verbatim>\<open>package\<close> command line is accepted and the command it names
  exits with status zero, every package it vouches for (the scanned one, or every artifact of the build)
  has passed a scan of its own, under well-formed options, without privileges and behind every gate of the
  scan, inspection among them; the scan worked in the writable snapshot of the session it created in its
  own workspace, whose removal at the session's release was at least attempted; if that snapshot has a
  package manager, the installation ran in it to the end with status zero, and if it has none the package
  was not installed and the result says so; and the observation that the result records is the one of that
  snapshot, for the scripts and hooks of the package's archive.\<close>

theorem package_command_gates:
  assumes "parse_command argv = Inr (Package act)"
    and "run_package env act db = Some (db', printed, 0)"
    and "package \<in> set (vouched env act)"
    and "options = action_options act" "senv = pa_scan env package"
  shows "\<exists>db0 scanned workspace effects s m executables observed.
    options_ok options \<and> \<not> po_privileged options \<and> pr_ok (inspect (se_inspect senv) package options) \<and>
    scanned = snd (scan senv package options db0) \<and> pr_ok scanned \<and> scan_cleared senv package options s \<and>
    se_workspace senv = Some workspace \<and>
    create (se_rootfs senv) (po_rootfs options) workspace = (effects, Inr s) \<and>
    Snapshot (rs_source s) (rs_writable s) False \<in> set effects \<and>
    (\<forall>removes. rs_writable s \<in> live_paths removes (effects @ fst (release s)) \<longrightarrow>
       (\<exists>before after. effects @ fst (release s) = before @ RemoveAll (rs_writable s) # after \<and>
          \<not> removes before (rs_writable s))) \<and>
    pr_installed scanned = se_pacman senv \<and>
    (se_pacman senv \<longrightarrow> scan_installed senv package options (rs_writable s)) \<and>
    m = pr_metadata (inspect (se_inspect senv) package options) \<and>
    observed = se_observe senv (rs_writable s) (pm_scripts m) (pm_hooks m) executables (observation_options options) \<and>
    pr_coverage scanned = ob_coverage observed \<and> pr_smoke_scans scanned = ob_smoke observed"
proof -
  from run_package_vouched [OF assms(2)] assms(3-5) obtain db0 where ok: "pr_ok (snd (scan senv package options db0))"
    by (auto simp: passes_scan_def)
  with scan_stages [of db0 senv package options] obtain s where cleared: "scan_cleared senv package options s"
    and scan: "scan senv package options db0 =
      scan_assess senv options (rs_writable s) (scan_basis senv package options s) db0"
    by (auto simp: refused_def)
  from cleared obtain workspace where w: "se_workspace senv = Some workspace"
    "snd (create (se_rootfs senv) (po_rootfs options) workspace) = Inr s" and iso: "isolated s"
    by (auto simp: scan_cleared_def scan_session_of_def)
  then obtain effects where create: "create (se_rootfs senv) (po_rootfs options) workspace = (effects, Inr s)"
    by (metis prod.collapse)
  let ?found = "pr_metadata (scan_found senv (scan_basis senv package options s))"
  let ?m = "pr_metadata (inspect (se_inspect senv) package options)"
  let ?ob = "se_observe senv (rs_writable s) (pm_scripts ?m) (pm_hooks ?m) (pm_executables ?found)
    (observation_options options)"
  have "pr_coverage (snd (scan senv package options db0)) = ob_coverage ?ob"
    "pr_smoke_scans (snd (scan senv package options db0)) = ob_smoke ?ob"
    "pr_installed (snd (scan senv package options db0)) = se_pacman senv"
    unfolding scan scan_assess_recorded by (simp_all add: scan_observed_def)
  moreover have "\<not> po_privileged options" "pr_ok (inspect (se_inspect senv) package options)"
    "se_pacman senv \<longrightarrow> scan_installed senv package options (rs_writable s)"
    using cleared by (simp_all add: scan_cleared_def)
  moreover have "options_ok options" using parsed_options_ok(1) [OF assms(1)] assms(4) by simp
  ultimately show ?thesis
    using rootfs.isolated_root_temporary [OF create iso] create cleared w(1) ok by blast
qed

theorem package_command_gates_witness:
  "parse_command [''package'', ''scan'', ''hello-1-1-any.pkg.tar.zst''] =
     Inr (Package (Scan default_package_options ''hello-1-1-any.pkg.tar.zst'')) \<and>
   (\<exists>s. scan_cleared sample_scan_env ''hello-1-1-any.pkg.tar.zst'' default_package_options s \<and>
      scan_installed sample_scan_env ''hello-1-1-any.pkg.tar.zst'' default_package_options (rs_writable s))"
proof -
  let ?p = "''hello-1-1-any.pkg.tar.zst''" and ?env = sample_package_env
  let ?act = "Scan default_package_options ?p"
  have parsed: "parse_command [''package'', ''scan'', ?p] = Inr (Package ?act)"
    by (simp add: parse_command_def parse_package_def check_mirrors_def package_command_def
        default_package_options_def)
  have env: "sample_scan_env = pa_scan ?env ?p" by (simp add: sample_package_env_def)
  have run: "run_package ?env ?act empty_database =
      Some (fst (scan sample_scan_env ?p default_package_options empty_database),
        print_result (snd (scan sample_scan_env ?p default_package_options empty_database)) default_package_options, 0)"
    using sample_scan_ok by (simp add: env [symmetric] print_and_exit_ok)
  have vouch: "?p \<in> set (vouched ?env ?act)" by (simp add: vouched_def)
  have opts: "default_package_options = action_options ?act" by (simp add: action_options_def)
  have "se_pacman sample_scan_env" by (simp add: sample_scan_env_def)
  with package_command_gates [OF parsed run vouch opts env] parsed show ?thesis by blast
qed

end
